(* ===== verification/Prelude.thy ===== *)
theory Prelude
  imports Complex_Main "HOL-Library.AList" "HOL-Library.Sublist" "HOL-Library.Char_ord"
begin

text \<open>
  What the components share: Go's \<^verbatim>\<open>int64\<close> with its wrap-around, \<^verbatim>\<open>time.Time\<close> and
  \<^verbatim>\<open>time.Duration\<close>, the functions of the package \<^verbatim>\<open>strings\<close> the sources call, and finite maps.

  A Go string is a list of bytes (\<^typ>\<open>string\<close>).  \<^verbatim>\<open>strings.ToLower\<close> and \<^verbatim>\<open>strings.TrimSpace\<close> are
  translated for ASCII text, which is what provider names, model names and e-mail addresses
  are; bytes outside of ASCII are left as they are.

  A Go map whose length or iteration the code uses is an association list with distinct
  keys (\<^verbatim>\<open>HOL-Library.AList\<close>); a map that is only looked up and updated is a HOL map.

  A \<^verbatim>\<open>time.Time\<close> is the number of nanoseconds since Go's zero time, so \<^verbatim>\<open>t.IsZero()\<close> is
  \<open>t = 0\<close>; a \<^verbatim>\<open>time.Duration\<close> is a number of nanoseconds, and \<^verbatim>\<open>t.Sub(u)\<close> saturates.
\<close>

named_theorems str_simps "characterisations of the string functions"
named_theorems inv_intros "one rule per operation: it keeps its component's invariant"

section \<open>Integers and time\<close>

type_synonym i64 = int
type_synonym gotime = int
type_synonym duration = int

definition wrap64 :: "int \<Rightarrow> i64" where
  "wrap64 n = (n + 2 ^ 63) mod 2 ^ 64 - 2 ^ 63"

definition in_i64 :: "int \<Rightarrow> bool" where
  "in_i64 n \<longleftrightarrow> - (2 ^ 63) \<le> n \<and> n < 2 ^ 63"

lemma wrap64_id [simp]: "in_i64 n \<Longrightarrow> wrap64 n = n"
  by (simp add: wrap64_def in_i64_def)

lemma in_i64_wrap64 [simp]: "in_i64 (wrap64 n)"
proof -
  have "0 \<le> (n + 2 ^ 63) mod 2 ^ 64" and "(n + 2 ^ 63) mod 2 ^ 64 < (2 ^ 64 :: int)" by simp_all
  then show ?thesis by (simp add: wrap64_def in_i64_def)
qed

definition time_sub :: "gotime \<Rightarrow> gotime \<Rightarrow> duration" where
  "time_sub t u = max (- (2 ^ 63)) (min (2 ^ 63 - 1) (t - u))"

lemma time_sub_mono: "t \<le> t' \<Longrightarrow> time_sub t u \<le> time_sub t' u"
  by (simp add: time_sub_def)

lemma time_sub_id: "in_i64 (t - u) \<Longrightarrow> time_sub t u = t - u"
  by (simp add: time_sub_def in_i64_def)

lemma time_sub_le_iff: "in_i64 d \<Longrightarrow> d < 2 ^ 63 - 1 \<Longrightarrow> time_sub t u \<le> d \<longleftrightarrow> t - u \<le> d"
  by (auto simp: time_sub_def in_i64_def)

abbreviation ns_second :: duration where
  "ns_second \<equiv> 1000000000"

abbreviation ns_minute :: duration where
  "ns_minute \<equiv> 60000000000"

abbreviation ns_hour :: duration where
  "ns_hour \<equiv> 3600000000000"

section \<open>Strings\<close>

definition lower_char :: "char \<Rightarrow> char" where
  "lower_char c =
     (let n = (of_char c :: nat) in if 65 \<le> n \<and> n \<le> 90 then char_of (n + 32) else c)"

definition ToLower :: "string \<Rightarrow> string" where
  "ToLower s = map lower_char s"

lemma lower_char_idem [simp]: "lower_char (lower_char c) = lower_char c"
proof (cases "65 \<le> (of_char c :: nat) \<and> (of_char c :: nat) \<le> 90")
  case True
  then have "(of_char (char_of ((of_char c :: nat) + 32) :: char) :: nat) = of_char c + 32"
    by simp
  with True show ?thesis by (simp add: lower_char_def)
next
  case False
  then have "lower_char c = c" by (auto simp: lower_char_def Let_def)
  then show ?thesis by simp
qed

lemma ToLower_idem [simp]: "ToLower (ToLower s) = ToLower s"
  by (simp add: ToLower_def)

lemma length_ToLower [simp]: "length (ToLower s) = length s"
  by (simp add: ToLower_def)

lemma ToLower_append [simp]: "ToLower (s @ t) = ToLower s @ ToLower t"
  by (simp add: ToLower_def)

lemma ToLower_Nil_iff [simp]: "ToLower s = [] \<longleftrightarrow> s = []" "ToLower [] = []"
  by (simp_all add: ToLower_def)

definition is_space :: "char \<Rightarrow> bool" where
  "is_space c \<longleftrightarrow> (of_char c :: nat) \<in> {9, 10, 11, 12, 13, 32}"

definition TrimSpace :: "string \<Rightarrow> string" where
  "TrimSpace s = rev (dropWhile is_space (rev (dropWhile is_space s)))"

lemma is_space_lower [simp]: "is_space (lower_char c) \<longleftrightarrow> is_space c"
proof (cases "65 \<le> (of_char c :: nat) \<and> (of_char c :: nat) \<le> 90")
  case True
  then have "(of_char (lower_char c) :: nat) = of_char c + 32" by (simp add: lower_char_def)
  with True show ?thesis by (auto simp: is_space_def)
next
  case False
  then have "lower_char c = c" by (auto simp: lower_char_def Let_def)
  then show ?thesis by simp
qed

lemma TrimSpace_ToLower: "TrimSpace (ToLower s) = ToLower (TrimSpace s)"
  by (simp add: TrimSpace_def ToLower_def dropWhile_map rev_map comp_def)

lemma TrimSpace_idem [simp]: "TrimSpace (TrimSpace s) = TrimSpace s"
proof -
  define a where "a = dropWhile is_space s"
  define t where "t = rev (dropWhile is_space (rev a))"
  have "\<exists>w. a = t @ w"
    unfolding t_def by (metis rev_append rev_rev_ident takeWhile_dropWhile_id)
  then obtain w where w: "a = t @ w" by blast
  have ne: "t = [] \<or> \<not> is_space (hd t)"
    using w hd_dropWhile [of is_space s] by (cases t) (auto simp: a_def)
  have "dropWhile is_space t = t" using ne by (cases t) auto
  moreover have "dropWhile is_space (rev t) = rev t" by (simp add: t_def)
  ultimately show ?thesis by (simp add: TrimSpace_def flip: a_def t_def)
qed

definition is_digit :: "char \<Rightarrow> bool" where
  "is_digit c \<longleftrightarrow> 48 \<le> (of_char c :: nat) \<and> (of_char c :: nat) \<le> 57"

text \<open>\<^verbatim>\<open>HasPrefix(s, p)\<close>, \<^verbatim>\<open>HasSuffix\<close>, \<^verbatim>\<open>TrimPrefix\<close> and \<^verbatim>\<open>TrimSuffix\<close>.\<close>

definition HasPrefix :: "string \<Rightarrow> string \<Rightarrow> bool" where
  "HasPrefix s p \<longleftrightarrow> take (length p) s = p"

definition HasSuffix :: "string \<Rightarrow> string \<Rightarrow> bool" where
  "HasSuffix s p \<longleftrightarrow> length p \<le> length s \<and> drop (length s - length p) s = p"

definition TrimPrefix :: "string \<Rightarrow> string \<Rightarrow> string" where
  "TrimPrefix s p = (if HasPrefix s p then drop (length p) s else s)"

definition TrimSuffix :: "string \<Rightarrow> string \<Rightarrow> string" where
  "TrimSuffix s p = (if HasSuffix s p then take (length s - length p) s else s)"

lemma HasPrefix_iff [str_simps]: "HasPrefix s p \<longleftrightarrow> (\<exists>t. s = p @ t)"
  by (metis HasPrefix_def append_eq_conv_conj append_take_drop_id)

lemma HasSuffix_iff [str_simps]: "HasSuffix s p \<longleftrightarrow> (\<exists>t. s = t @ p)"
proof
  assume "HasSuffix s p"
  then show "\<exists>t. s = t @ p"
    unfolding HasSuffix_def by (metis append_take_drop_id)
qed (auto simp: HasSuffix_def)

lemma HasPrefix_Nil [simp]: "HasPrefix s []"
  by (simp add: HasPrefix_def)

lemma HasPrefix_ToLower: "HasPrefix s p \<Longrightarrow> HasPrefix (ToLower s) (ToLower p)"
  by (auto simp: str_simps)

text \<open>\<^verbatim>\<open>strings.Index\<close> and \<^verbatim>\<open>strings.LastIndex\<close>; the \<open>-1\<close> of a failed search is \<open>None\<close>.\<close>

fun Index :: "string \<Rightarrow> string \<Rightarrow> nat option" where
  "Index [] sub = (if sub = [] then Some 0 else None)"
| "Index (c # cs) sub = (if HasPrefix (c # cs) sub then Some 0 else map_option Suc (Index cs sub))"

fun LastIndex :: "string \<Rightarrow> string \<Rightarrow> nat option" where
  "LastIndex [] sub = (if sub = [] then Some 0 else None)"
| "LastIndex (c # cs) sub =
     (case LastIndex cs sub of Some i \<Rightarrow> Some (Suc i)
      | None \<Rightarrow> if HasPrefix (c # cs) sub then Some 0 else None)"

definition Contains :: "string \<Rightarrow> string \<Rightarrow> bool" where
  "Contains s sub \<longleftrightarrow> Index s sub \<noteq> None"

lemma Index_Some: "Index s sub = Some i \<Longrightarrow> s = take i s @ sub @ drop (i + length sub) s"
proof (induction s arbitrary: i)
  case Nil
  then show ?case by (simp split: if_splits)
next
  case (Cons c cs)
  show ?case
  proof (cases "HasPrefix (c # cs) sub")
    case True
    with Cons.prems show ?thesis
      by (auto simp: HasPrefix_def) (metis append_take_drop_id)
  next
    case False
    with Cons.prems obtain j where "Index cs sub = Some j" "i = Suc j" by auto
    with Cons.IH show ?thesis by simp
  qed
qed

lemma Index_None_iff: "Index s sub = None \<longleftrightarrow> (\<nexists>a b. s = a @ sub @ b)"
proof (induction s)
  case Nil
  then show ?case by auto
next
  case (Cons c cs)
  show ?case
  proof
    assume none: "Index (c # cs) sub = None"
    then have "\<not> HasPrefix (c # cs) sub" and "Index cs sub = None" by (auto split: if_splits)
    then show "\<nexists>a b. c # cs = a @ sub @ b"
      using Cons.IH by (metis HasPrefix_iff append_eq_Cons_conv)
  next
    assume no: "\<nexists>a b. c # cs = a @ sub @ b"
    then have "\<not> HasPrefix (c # cs) sub" by (metis HasPrefix_iff append_Nil)
    moreover have "\<nexists>a b. cs = a @ sub @ b" using no by (metis append_Cons)
    ultimately show "Index (c # cs) sub = None" using Cons.IH by simp
  qed
qed

lemma Contains_iff [str_simps]: "Contains s sub \<longleftrightarrow> (\<exists>a b. s = a @ sub @ b)"
  using Index_None_iff by (auto simp: Contains_def)

text \<open>The first occurrence is the leftmost one.\<close>

lemma Index_leftmost:
  "s = a @ sub @ b \<Longrightarrow> \<exists>i \<le> length a. Index s sub = Some i"
proof (induction s arbitrary: a)
  case Nil
  then show ?case by simp
next
  case (Cons c cs)
  show ?case
  proof (cases "HasPrefix (c # cs) sub")
    case True
    then show ?thesis by simp
  next
    case False
    with Cons.prems obtain a' where "a = c # a'" "cs = a' @ sub @ b"
      by (cases a) (auto simp: HasPrefix_iff)
    with Cons.IH [of a'] False show ?thesis by auto
  qed
qed

lemma LastIndex_Some: "LastIndex s sub = Some i \<Longrightarrow> s = take i s @ sub @ drop (i + length sub) s"
proof (induction s arbitrary: i)
  case Nil
  then show ?case by (simp split: if_splits)
next
  case (Cons c cs)
  show ?case
  proof (cases "LastIndex cs sub")
    case None
    with Cons.prems have "HasPrefix (c # cs) sub" "i = 0" by (auto split: if_splits)
    then show ?thesis by (auto simp: HasPrefix_def) (metis append_take_drop_id)
  next
    case (Some j)
    with Cons.prems have "i = Suc j" by simp
    with Some Cons.IH show ?thesis by simp
  qed
qed

text \<open>\<^verbatim>\<open>strings.Split(s, sep)\<close> for a separator of one byte.\<close>

fun split_on :: "char \<Rightarrow> string \<Rightarrow> string list" where
  "split_on c [] = [[]]"
| "split_on c (x # xs) =
     (if x = c then [] # split_on c xs
      else (case split_on c xs of [] \<Rightarrow> [[x]] | y # ys \<Rightarrow> (x # y) # ys))"

fun join_on :: "char \<Rightarrow> string list \<Rightarrow> string" where
  "join_on c [] = []"
| "join_on c [s] = s"
| "join_on c (s # t # ts) = s @ c # join_on c (t # ts)"

lemma split_on_ne [simp]: "split_on c s \<noteq> []"
  by (induction s) (auto split: list.splits)

lemma join_split_on: "join_on c (split_on c s) = s"
proof (induction s)
  case (Cons x xs)
  obtain y ys where "split_on c xs = y # ys" by (meson split_on_ne neq_Nil_conv)
  with Cons show ?case by (cases ys) auto
qed simp

lemma split_on_no_sep: "p \<in> set (split_on c s) \<Longrightarrow> c \<notin> set p"
proof (induction s arbitrary: p)
  case (Cons x xs)
  obtain y ys where "split_on c xs = y # ys" by (meson split_on_ne neq_Nil_conv)
  with Cons show ?case by (auto split: if_splits)
qed simp

section \<open>Association lists\<close>

abbreviation keys_of :: "('k \<times> 'v) list \<Rightarrow> 'k list" where
  "keys_of m \<equiv> map fst m"

lemma map_of_update [simp]: "map_of (AList.update k v m) = (map_of m)(k \<mapsto> v)"
  by (rule update_conv')

lemma map_of_delete [simp]: "map_of (AList.delete k m) = (map_of m)(k := None)"
  by (rule delete_conv')

lemma distinct_filter_keys [simp]: "distinct (keys_of m) \<Longrightarrow> distinct (keys_of (filter P m))"
  by (rule distinct_map_filter)

lemma map_of_filter:
  "distinct (keys_of m) \<Longrightarrow>
     map_of (filter P m) k =
       (case map_of m k of None \<Rightarrow> None | Some v \<Rightarrow> if P (k, v) then Some v else None)"
proof (induction m)
  case (Cons kv m)
  then show ?case by (cases kv) (force dest: map_of_SomeD split: option.splits)
qed simp

text \<open>A property of every row of a table, whatever its key.\<close>

definition rows_all :: "('v \<Rightarrow> bool) \<Rightarrow> ('k \<times> 'v) list \<Rightarrow> bool" where
  "rows_all P m \<longleftrightarrow> (\<forall>(k, v) \<in> set m. P v)"

lemma rows_all_simps [simp]:
  "rows_all P []" "rows_all P (kv # m) \<longleftrightarrow> P (snd kv) \<and> rows_all P m"
  by (auto simp: rows_all_def)

lemma rows_all_lookup: "rows_all P m \<Longrightarrow> map_of m k = Some v \<Longrightarrow> P v"
  by (auto simp: rows_all_def dest!: map_of_SomeD)

lemma rows_all_filter [simp]: "rows_all P m \<Longrightarrow> rows_all P (filter Q m)"
  by (auto simp: rows_all_def)

lemma rows_all_update [simp]: "rows_all P m \<Longrightarrow> P v \<Longrightarrow> rows_all P (AList.update k v m)"
  by (induction m) auto

lemma set_delete_subset: "set (AList.delete k m) \<subseteq> set m"
  by (auto simp: AList.delete_eq)

lemma rows_all_delete [simp]: "rows_all P m \<Longrightarrow> rows_all P (AList.delete k m)"
  by (simp add: AList.delete_eq)

lemma rows_all_map_entry: "rows_all P m \<Longrightarrow> (\<And>v. P v \<Longrightarrow> P (f v)) \<Longrightarrow> rows_all P (AList.map_entry k f m)"
  by (induction m) auto

lemma keys_of_update [simp]: "fst ` set (AList.update k v m) = insert k (fst ` set m)"
  by (induction m) auto

lemma distinct_keys_update [simp]: "distinct (keys_of m) \<Longrightarrow> distinct (keys_of (AList.update k v m))"
  by (rule distinct_update)

lemma keys_of_map_entry [simp]: "keys_of (AList.map_entry k f m) = keys_of m"
  by (induction m) auto

lemma keys_lookup: "map_of m k = Some v \<Longrightarrow> k \<in> set (keys_of m)"
  by (force dest: map_of_SomeD)

section \<open>Decimal numbers\<close>

text \<open>\<^verbatim>\<open>strconv.Itoa\<close>, also \<^verbatim>\<open>%d\<close>, and \<^verbatim>\<open>strconv.Atoi\<close>, which refuses what an \<^verbatim>\<open>int\<close> cannot hold.\<close>

function decimal :: "nat \<Rightarrow> string" where
  "decimal n = (if n < 10 then [char_of (48 + n)] else decimal (n div 10) @ [char_of (48 + n mod 10)])"
  by pat_completeness auto
termination by (relation "measure id") auto

declare decimal.simps [simp del]

definition Itoa :: "int \<Rightarrow> string" where
  "Itoa n = (if n < 0 then CHR ''-'' # decimal (nat (- n)) else decimal (nat n))"

definition digit_value :: "char \<Rightarrow> int" where
  "digit_value c = int (of_char c) - 48"

definition decimal_value :: "string \<Rightarrow> int" where
  "decimal_value s = foldl (\<lambda>v c. 10 * v + digit_value c) 0 s"

definition Atoi :: "string \<Rightarrow> int option" where
  "Atoi s =
     (let (neg, ds) = (case s of c # t \<Rightarrow> if c = CHR ''-'' then (True, t) else if c = CHR ''+'' then (False, t) else (False, s) | [] \<Rightarrow> (False, s));
          v = (if neg then - decimal_value ds else decimal_value ds)
      in if ds \<noteq> [] \<and> list_all is_digit ds \<and> in_i64 v then Some v else None)"

lemma decimal_digits: "decimal n \<noteq> []" "list_all is_digit (decimal n)"
  by (induction n rule: decimal.induct) (subst decimal.simps, auto simp: is_digit_def)+

lemma decimal_value_decimal: "decimal_value (decimal n) = int n"
proof (induction n rule: decimal.induct)
  case (1 n)
  show ?case
  proof (cases "n < 10")
    case True
    then show ?thesis by (subst decimal.simps) (simp add: decimal_value_def digit_value_def)
  next
    case False
    then have "decimal_value (decimal n) = 10 * int (n div 10) + int (n mod 10)"
      using 1 by (subst decimal.simps) (simp add: decimal_value_def digit_value_def)
    then show ?thesis by (metis mult_div_mod_eq of_nat_add of_nat_mult of_nat_numeral)
  qed
qed

lemma decimal_inject: "decimal m = decimal n \<longleftrightarrow> m = n"
  by (metis decimal_value_decimal of_nat_eq_iff)

lemma Atoi_Itoa:
  assumes "in_i64 n"
  shows "Atoi (Itoa n) = Some n"
proof -
  obtain c t where d: "decimal (nat \<bar>n\<bar>) = c # t" by (meson decimal_digits(1) neq_Nil_conv)
  have "is_digit c" using decimal_digits(2) [of "nat \<bar>n\<bar>"] by (simp add: d)
  then have "c \<noteq> CHR ''-''" "c \<noteq> CHR ''+''" by (auto simp: is_digit_def)
  then show ?thesis
    using assms d decimal_digits [of "nat \<bar>n\<bar>"] decimal_value_decimal [of "nat \<bar>n\<bar>"] by (auto simp: Atoi_def Itoa_def)
qed

section \<open>The end of a sequence\<close>

definition last_n :: "nat \<Rightarrow> 'a list \<Rightarrow> 'a list" where
  "last_n n xs = drop (length xs - n) xs"

lemma length_last_n [simp]: "length (last_n n xs) = min n (length xs)"
  by (simp add: last_n_def)

lemma last_n_id: "length xs \<le> n \<Longrightarrow> last_n n xs = xs"
  by (simp add: last_n_def)

lemma last_n_append: "n \<le> length ys \<Longrightarrow> last_n n (xs @ ys) = last_n n ys"
  by (simp add: last_n_def)

lemma last_n_absorb: "last_n n (last_n n xs @ ys) = last_n n (xs @ ys)"
proof (cases "n \<le> length xs")
  case True
  then have "length ys + (length xs - n) = length xs + length ys - n" by simp
  with True show ?thesis by (simp add: last_n_def)
qed (simp add: last_n_id)

lemma set_last_n: "set (last_n n xs) \<subseteq> set xs"
  by (auto simp: last_n_def dest: in_set_dropD)

text \<open>
  The contract of a bounded log: a write appends, the oldest elements beyond the capacity are lost, nothing else is.
\<close>

locale bounded_log =
  fixes put :: "'x \<Rightarrow> 's \<Rightarrow> 's" and contents :: "'s \<Rightarrow> 'a list" and capacity :: "'s \<Rightarrow> nat" and valid :: "'s \<Rightarrow> bool"
    and elems :: "'x \<Rightarrow> 'a list"
  assumes contents_put: "valid s \<Longrightarrow> contents (put x s) = last_n (capacity s) (contents s @ elems x)"
    and valid_put: "valid s \<Longrightarrow> valid (put x s)"
    and capacity_put: "valid s \<Longrightarrow> capacity (put x s) = capacity s"
    and contents_fit: "valid s \<Longrightarrow> length (contents s) \<le> capacity s"
begin

lemma valid_fold: "valid s \<Longrightarrow> valid (fold put xs s)"
  by (induction xs arbitrary: s) (simp_all add: valid_put)

lemma capacity_fold: "valid s \<Longrightarrow> capacity (fold put xs s) = capacity s"
  by (induction xs arbitrary: s) (simp_all add: valid_put capacity_put)

theorem contents_fold: "valid s \<Longrightarrow> contents (fold put xs s) = last_n (capacity s) (contents s @ concat (map elems xs))"
proof (induction xs arbitrary: s)
  case Nil
  then show ?case by (simp add: last_n_id contents_fit)
next
  case (Cons x xs)
  then show ?case by (simp add: valid_put capacity_put contents_put last_n_absorb flip: append_assoc)
qed

end

end
