(* ===== verification/Transparent.thy ===== *)
theory Transparent
  imports Prelude "HOL-Library.Word" "HOL-Library.Sublist" "HOL-Library.AList"
begin

text \<open>
  The transparent listener: the parser of the TLS ClientHello (\<^verbatim>\<open>pkg/transparent/sni.go\<close>), the map from host
  names to providers (\<^verbatim>\<open>SNIMap\<close> in \<^verbatim>\<open>pkg/proxy/proxy.go\<close>), and what happens to a connection
  (\<^verbatim>\<open>pkg/transparent/listener.go\<close>).

  Wire data are lists of 8-bit words and length fields are 16-bit words, read as naturals where the code
  converts them to \<^verbatim>\<open>int\<close>.  Sockets are arguments: what the first read returned, the original destination the
  kernel reports, and whether dialling and the first write succeed.
\<close>

unbundle bit_operations_syntax

type_synonym bytes = "8 word list"

section \<open>Reading fields\<close>

definition be16 :: "8 word \<Rightarrow> 8 word \<Rightarrow> 16 word" where
  "be16 a b = push_bit 8 (ucast a) OR ucast b"

definition be24 :: "8 word \<Rightarrow> 8 word \<Rightarrow> 8 word \<Rightarrow> nat" where
  "be24 a b c = or (or (push_bit 16 (unat a)) (push_bit 8 (unat b))) (unat c)"

definition readUint8 :: "bytes \<Rightarrow> (8 word \<times> bytes) option" where
  "readUint8 r = (case r of [] \<Rightarrow> None | b # r' \<Rightarrow> Some (b, r'))"

text \<open>\<^verbatim>\<open>Read\<close> fills what it can: a single byte left is read as the high one.\<close>

definition readUint16 :: "bytes \<Rightarrow> (16 word \<times> bytes) option" where
  "readUint16 r = (case r of [] \<Rightarrow> None | [a] \<Rightarrow> Some (be16 a 0, []) | a # b # r' \<Rightarrow> Some (be16 a b, r'))"

definition skip :: "bytes \<Rightarrow> nat \<Rightarrow> bytes option" where
  "skip r n = (if length r < n then None else Some (drop n r))"

section \<open>The parser\<close>

datatype sni_error = ErrNotTLS | ErrNoSNI | WrongHandshake "8 word"

fun sni_entries :: "bytes \<Rightarrow> sni_error + bytes" where
  "sni_entries (t # a # b # rest) =
     (let n = unat (be16 a b)
      in if length rest < n then Inl ErrNoSNI
         else if t = 0 then Inr (take n rest)
         else sni_entries (drop n rest))"
| "sni_entries _ = Inl ErrNoSNI"

definition parseSNIExtensionData :: "bytes \<Rightarrow> sni_error + bytes" where
  "parseSNIExtensionData data =
     (case data of
        a # b # rest \<Rightarrow> let n = unat (be16 a b) in if length rest < n then Inl ErrNoSNI else sni_entries (take n rest)
      | _ \<Rightarrow> Inl ErrNoSNI)"

fun findSNIExtension :: "bytes \<Rightarrow> sni_error + bytes" where
  "findSNIExtension (a # b # c # d # rest) =
     (let n = unat (be16 c d)
      in if length rest < n then Inl ErrNoSNI
         else if be16 a b = 0 then parseSNIExtensionData (take n rest)
         else findSNIExtension (drop n rest))"
| "findSNIExtension _ = Inl ErrNoSNI"

definition maxExtensionsAlloc :: nat where
  "maxExtensionsAlloc = 16 * 1024"

definition parse_extensions :: "bytes \<Rightarrow> sni_error + bytes" where
  "parse_extensions r =
     (if length r < 2 then Inl ErrNoSNI
      else case readUint16 r of
             None \<Rightarrow> Inl ErrNoSNI
           | Some (extensionsLen, r') \<Rightarrow>
               let allocLen = min (min (unat extensionsLen) (length r')) maxExtensionsAlloc
               in if r' = [] then Inl ErrNoSNI else findSNIExtension (take allocLen r'))"

text \<open>The fixed part of the body: version, random, session, cipher suites and compression methods.\<close>

definition skip_hello :: "bytes \<Rightarrow> bytes option" where
  "skip_hello data =
     (case skip data 2 of None \<Rightarrow> None | Some r1 \<Rightarrow>
      case skip r1 32 of None \<Rightarrow> None | Some r2 \<Rightarrow>
      case readUint8 r2 of None \<Rightarrow> None | Some (sessionIDLen, r3) \<Rightarrow>
      case skip r3 (unat sessionIDLen) of None \<Rightarrow> None | Some r4 \<Rightarrow>
      case readUint16 r4 of None \<Rightarrow> None | Some (cipherSuitesLen, r5) \<Rightarrow>
      case skip r5 (unat cipherSuitesLen) of None \<Rightarrow> None | Some r6 \<Rightarrow>
      case readUint8 r6 of None \<Rightarrow> None | Some (compressionLen, r7) \<Rightarrow>
      skip r7 (unat compressionLen))"

definition parseClientHelloBody :: "bytes \<Rightarrow> sni_error + bytes" where
  "parseClientHelloBody data = (case skip_hello data of None \<Rightarrow> Inl ErrNotTLS | Some r \<Rightarrow> parse_extensions r)"

definition parseHandshakeClientHello :: "bytes \<Rightarrow> sni_error + bytes" where
  "parseHandshakeClientHello data =
     (case data of
        t # a # b # c # body \<Rightarrow> if t \<noteq> 1 then Inl (WrongHandshake t) else parseClientHelloBody (take (be24 a b c) body)
      | _ \<Rightarrow> Inl ErrNotTLS)"

text \<open>A truncated record or handshake is parsed as far as it goes, which \<open>take\<close> does.\<close>

definition ParseClientHelloSNI :: "bytes \<Rightarrow> sni_error + bytes" where
  "ParseClientHelloSNI data =
     (case data of
        t # _ # _ # a # b # rest \<Rightarrow> if t \<noteq> 0x16 then Inl ErrNotTLS else parseHandshakeClientHello (take (unat (be16 a b)) rest)
      | _ \<Rightarrow> Inl ErrNotTLS)"

definition host_string :: "bytes \<Rightarrow> string" where
  "host_string = map (\<lambda>b. char_of (unat b))"

section \<open>Host names and providers\<close>

record SNIProvider =
  sp_Name :: string
  sp_UpstreamURL :: string
  sp_Host :: string
  sp_HostPattern :: string
  sp_Intercept :: "bool option"

text \<open>\<^verbatim>\<open>url.Parse\<close> is an argument: the host name of a URL, \<open>None\<close> for its error.\<close>

definition EffectiveHost :: "(string \<Rightarrow> string option) \<Rightarrow> SNIProvider \<Rightarrow> string" where
  "EffectiveHost url_host p =
     (if sp_Host p \<noteq> [] then sp_Host p else case url_host (sp_UpstreamURL p) of None \<Rightarrow> [] | Some h \<Rightarrow> h)"

definition ShouldIntercept :: "SNIProvider \<Rightarrow> bool" where
  "ShouldIntercept p = (case sp_Intercept p of Some b \<Rightarrow> b | None \<Rightarrow> True)"

record SNIMap =
  sni_exact :: "(string \<times> string) list"
  sni_wildcards :: "(string \<times> string) list"

definition add_new :: "string \<Rightarrow> string \<Rightarrow> (string \<times> string) list \<Rightarrow> (string \<times> string) list" where
  "add_new k v m = (if map_of m k = None then AList.update k v m else m)"

definition add_provider :: "(string \<Rightarrow> string option) \<Rightarrow> SNIProvider \<Rightarrow> SNIMap \<Rightarrow> SNIMap" where
  "add_provider url_host p m =
     (if \<not> ShouldIntercept p then m
      else if sp_HostPattern p \<noteq> [] then m\<lparr>sni_wildcards := add_new (TrimPrefix (sp_HostPattern p) ''*'') (sp_Name p) (sni_wildcards m)\<rparr>
      else if EffectiveHost url_host p = [] then m
      else m\<lparr>sni_exact := add_new (EffectiveHost url_host p) (sp_Name p) (sni_exact m)\<rparr>)"

definition BuildSNIMap :: "(string \<Rightarrow> string option) \<Rightarrow> SNIProvider list \<Rightarrow> SNIMap" where
  "BuildSNIMap url_host ps = fold (add_provider url_host) ps \<lparr>sni_exact = [], sni_wildcards = []\<rparr>"

definition wildcard_matches :: "string \<Rightarrow> string \<Rightarrow> bool" where
  "wildcard_matches hostname suf \<longleftrightarrow>
     length suf < length hostname \<and> drop (length hostname - length suf) hostname = suf"

text \<open>The wildcards are tried in the order of the association list, in the code in no fixed order.\<close>

definition sni_Lookup :: "SNIMap option \<Rightarrow> string \<Rightarrow> string option" where
  "sni_Lookup m hostname =
     (case m of
        None \<Rightarrow> None
      | Some m \<Rightarrow>
          (case map_of (sni_exact m) hostname of
             Some name \<Rightarrow> Some name
           | None \<Rightarrow> map_option snd (find (\<lambda>(suf, name). wildcard_matches hostname suf) (sni_wildcards m))))"

definition sni_Hosts :: "SNIMap option \<Rightarrow> string list" where
  "sni_Hosts m = (case m of None \<Rightarrow> [] | Some m \<Rightarrow> map fst (sni_exact m) @ map (\<lambda>(s, _). CHR ''*'' # s) (sni_wildcards m))"

section \<open>A connection\<close>

record Stats =
  Intercepted :: int
  Passthrough :: int
  Errors :: int

record conn_env =
  ce_read :: "bytes option"
  ce_origDst :: "string option"
  ce_localAddr :: string
  ce_dial_fails :: bool
  ce_write_fails :: bool

definition resolveOrigDst :: "conn_env \<Rightarrow> string \<Rightarrow> string" where
  "resolveOrigDst e sni =
     (case ce_origDst e of
        Some d \<Rightarrow> if d = ce_localAddr e then (if sni \<noteq> [] then sni @ '':443'' else []) else d
      | None \<Rightarrow> if sni \<noteq> [] then sni @ '':443'' else [])"

definition incErrors :: "Stats \<Rightarrow> Stats" where
  "incErrors s = s\<lparr>Errors := Errors s + 1\<rparr>"

text \<open>The destination and the bytes replayed to it when the connection is tunnelled.\<close>

definition dial_and_replay :: "conn_env \<Rightarrow> bytes \<Rightarrow> string \<Rightarrow> Stats \<Rightarrow> (string \<times> bytes) option \<times> Stats" where
  "dial_and_replay e peeked dst s =
     (if ce_dial_fails e \<or> ce_write_fails e then (None, incErrors s) else (Some (dst, peeked), s))"

definition tunnelPassthrough :: "conn_env \<Rightarrow> bytes \<Rightarrow> Stats \<Rightarrow> (string \<times> bytes) option \<times> Stats" where
  "tunnelPassthrough e peeked s =
     (let s1 = s\<lparr>Passthrough := Passthrough s + 1\<rparr>; dst = resolveOrigDst e []
      in if dst = [] then (None, s1) else dial_and_replay e peeked dst s1)"

definition tunnelToOrigDest :: "conn_env \<Rightarrow> bytes \<Rightarrow> string \<Rightarrow> Stats \<Rightarrow> (string \<times> bytes) option \<times> Stats" where
  "tunnelToOrigDest e peeked sni s =
     (let dst = resolveOrigDst e sni in if dst = [] then (None, incErrors s) else dial_and_replay e peeked dst s)"

definition handleConn :: "SNIMap option \<Rightarrow> conn_env \<Rightarrow> Stats \<Rightarrow> (string \<times> bytes) option \<times> Stats" where
  "handleConn m e s =
     (case ce_read e of
        None \<Rightarrow> (None, incErrors s)
      | Some peeked \<Rightarrow>
          (case ParseClientHelloSNI peeked of
             Inl _ \<Rightarrow> tunnelPassthrough e peeked s
           | Inr host \<Rightarrow>
               let sni = host_string host
               in case sni_Lookup m sni of
                    None \<Rightarrow> tunnelToOrigDest e peeked sni (s\<lparr>Passthrough := Passthrough s + 1\<rparr>)
                  | Some _ \<Rightarrow> tunnelToOrigDest e peeked sni (s\<lparr>Intercepted := Intercepted s + 1\<rparr>)))"

section \<open>Numbers on the wire\<close>

lemma unat_byte: "unat (b :: 8 word) < 256"
  using unsigned_less [of b] by simp

lemma unat_be16: "unat (be16 a b) = 256 * unat a + unat b"
proof -
  have d: "push_bit 8 (ucast a) AND (ucast b :: 16 word) = 0"
    by (rule bit_eqI) (auto simp: bit_simps dest: bit_imp_le_length)
  have "be16 a b = push_bit 8 (ucast a) + ucast b" by (simp add: be16_def disjunctive_add_eq_or d)
  moreover have "unat (push_bit 8 (ucast a) :: 16 word) = 256 * unat a"
    using unat_byte [of a] by (simp add: push_bit_eq_mult unat_word_ariths unsigned_ucast_eq take_bit_eq_mod mult.commute)
  moreover have "unat (ucast b :: 16 word) = unat b"
    using unat_byte [of b] by (simp add: unsigned_ucast_eq take_bit_eq_mod)
  moreover have "256 * unat a + unat b < 65536" using unat_byte [of a] unat_byte [of b] by simp
  ultimately show ?thesis by (simp add: unat_word_ariths)
qed

lemma unat_of_byte: "n < 256 \<Longrightarrow> unat (word_of_nat n :: 8 word) = n"
  by (simp add: unsigned_of_nat take_bit_eq_mod)

lemma push_or_add: "y < 2 ^ n \<Longrightarrow> or (push_bit n x) y = push_bit n x + (y :: nat)"
proof -
  assume "y < 2 ^ n"
  then have y: "take_bit n y = y" by (simp add: take_bit_nat_eq_self)
  have "and (push_bit n x) y = 0"
    by (rule bit_eqI) (metis bit_0_eq bit_and_iff bit_push_bit_iff bit_take_bit_iff bot_apply bot_bool_def leD y)
  then show ?thesis by (simp add: disjunctive_add_eq_or)
qed

lemma be24_value: "be24 a b c = 65536 * unat a + 256 * unat b + unat c"
proof -
  have 1: "or (unat b * 256) (unat c) = 256 * unat b + unat c"
    using push_or_add [of "unat c" 8 "unat b"] unat_byte [of c] by (simp add: push_bit_eq_mult mult.commute)
  have "256 * unat b + unat c < 2 ^ 16" using unat_byte [of b] unat_byte [of c] by simp
  from push_or_add [OF this, of "unat a"] show ?thesis by (simp add: be24_def or.assoc 1 push_bit_eq_mult)
qed

section \<open>What is parsed was received\<close>

text \<open>The parser on more data: every field it has read it reads again.\<close>

lemma skip_append: "skip r n = Some r' \<Longrightarrow> skip (r @ x) n = Some (r' @ x)"
  by (auto simp: skip_def split: if_splits)

lemma readUint8_append: "readUint8 r = Some (b, r') \<Longrightarrow> readUint8 (r @ x) = Some (b, r' @ x)"
  by (auto simp: readUint8_def split: list.splits)

lemma readUint16_append: "readUint16 r = Some (w, r') \<Longrightarrow> r' \<noteq> [] \<Longrightarrow> readUint16 (r @ x) = Some (w, r' @ x)"
  by (auto simp: readUint16_def split: list.splits)

lemma skip_hello_append:
  assumes "skip_hello data = Some r"
  shows "skip_hello (data @ x) = Some (r @ x)"
proof -
  obtain r1 r2 s r3 r4 c r5 r6 m r7 where p: "skip data 2 = Some r1" "skip r1 32 = Some r2" "readUint8 r2 = Some (s, r3)"
    "skip r3 (unat s) = Some r4" "readUint16 r4 = Some (c, r5)" "skip r5 (unat c) = Some r6" "readUint8 r6 = Some (m, r7)"
    "skip r7 (unat m) = Some r"
    using assms by (auto simp: skip_hello_def split: option.splits)
  have "r6 \<noteq> []" using p(7) by (auto simp: readUint8_def)
  then have "r5 \<noteq> []" using p(6) by (auto simp: skip_def split: if_splits)
  then show ?thesis
    using p by (simp add: skip_hello_def skip_append readUint8_append readUint16_append)
qed

lemma sni_entries_append: "sni_entries data = Inr h \<Longrightarrow> sni_entries (data @ x) = Inr h"
  by (induction data rule: sni_entries.induct) (auto simp: Let_def split: if_splits)

lemma findSNIExtension_append: "findSNIExtension data = Inr h \<Longrightarrow> findSNIExtension (data @ x) = Inr h"
  by (induction data rule: findSNIExtension.induct) (auto simp: Let_def split: if_splits)

lemma take_append_more: "\<exists>y. take m (r @ x) = take n r @ y" if "n \<le> m" "n \<le> length r \<or> m = n"
proof (cases "n \<le> length r")
  case True
  then have "take m (r @ x) = take n r @ drop n (take m (r @ x))"
    using that(1) append_take_drop_id [of n "take m (r @ x)"] by (simp add: take_take min_absorb2 min_absorb1)
  then show ?thesis by blast
next
  case False
  then show ?thesis using that(2) by (auto simp: take_append)
qed

lemma parse_extensions_append:
  assumes "parse_extensions r = Inr h"
  shows "parse_extensions (r @ x) = Inr h"
proof -
  obtain a b r' where r: "r = a # b # r'" "r' \<noteq> []"
    using assms by (auto simp: parse_extensions_def readUint16_def split: if_splits list.splits)
  let ?n = "min (min (unat (be16 a b)) (length r')) maxExtensionsAlloc"
  let ?m = "min (min (unat (be16 a b)) (length (r' @ x))) maxExtensionsAlloc"
  have h: "findSNIExtension (take ?n r') = Inr h" using assms r by (simp add: parse_extensions_def readUint16_def)
  obtain y where "take ?m (r' @ x) = take ?n r' @ y" using take_append_more [of ?n ?m r' x] by (auto simp: min_def)
  then have "findSNIExtension (take ?m (r' @ x)) = Inr h" using findSNIExtension_append [OF h] by simp
  then show ?thesis using r by (simp add: parse_extensions_def readUint16_def)
qed

lemma parse_take_append:
  assumes "\<And>d x. f d = Inr h \<Longrightarrow> f (d @ x) = Inr h" and "f (take n r) = Inr h"
  shows "f (take n (r @ x)) = Inr h"
  using assms(1) [OF assms(2), of "take (n - length r) x"] by simp

lemma parseClientHelloBody_append: "parseClientHelloBody d = Inr h \<Longrightarrow> parseClientHelloBody (d @ x) = Inr h"
  by (auto simp: parseClientHelloBody_def skip_hello_append parse_extensions_append split: option.splits)

lemma parseHandshake_append: "parseHandshakeClientHello d = Inr h \<Longrightarrow> parseHandshakeClientHello (d @ x) = Inr h"
  using parse_take_append [of parseClientHelloBody h] parseClientHelloBody_append
  by (fastforce simp: parseHandshakeClientHello_def split: list.splits if_splits)

section \<open>The message a client sends\<close>

text \<open>The ClientHello of RFC 8446 in one record: what the parser is meant to invert.\<close>

definition enc16 :: "nat \<Rightarrow> bytes" where
  "enc16 n = [word_of_nat (n div 256), word_of_nat (n mod 256)]"

definition enc24 :: "nat \<Rightarrow> bytes" where
  "enc24 n = word_of_nat (n div 65536) # enc16 (n mod 65536)"

record client_hello =
  ch_version :: bytes
  ch_random :: bytes
  ch_session :: bytes
  ch_ciphers :: bytes
  ch_compression :: bytes
  ch_before :: "(nat \<times> bytes) list"
  ch_host :: bytes
  ch_after :: "(nat \<times> bytes) list"

definition enc_ext :: "nat \<times> bytes \<Rightarrow> bytes" where
  "enc_ext = (\<lambda>(t, d). enc16 t @ enc16 (length d) @ d)"

definition sni_ext :: "bytes \<Rightarrow> nat \<times> bytes" where
  "sni_ext host = (0, enc16 (length host + 3) @ 0 # enc16 (length host) @ host)"

definition enc_upto_sni :: "client_hello \<Rightarrow> bytes" where
  "enc_upto_sni c = concat (map enc_ext (ch_before c)) @ enc_ext (sni_ext (ch_host c))"

definition enc_exts :: "client_hello \<Rightarrow> bytes" where
  "enc_exts c = enc_upto_sni c @ concat (map enc_ext (ch_after c))"

definition enc_body :: "client_hello \<Rightarrow> bytes" where
  "enc_body c =
     ch_version c @ ch_random c @ word_of_nat (length (ch_session c)) # ch_session c
     @ enc16 (length (ch_ciphers c)) @ ch_ciphers c
     @ word_of_nat (length (ch_compression c)) # ch_compression c
     @ enc16 (length (enc_exts c)) @ enc_exts c"

definition enc_record :: "client_hello \<Rightarrow> bytes" where
  "enc_record c = [0x16, 3, 1] @ enc16 (length (enc_body c) + 4) @ 1 # enc24 (length (enc_body c)) @ enc_body c"

text \<open>
  The fields have the widths of the format, the message fits one record, the extensions before the server name are of other types,
  and the server name lies within the first 16 KB of extensions.
\<close>

definition wf_hello :: "client_hello \<Rightarrow> bool" where
  "wf_hello c \<longleftrightarrow>
     length (ch_version c) = 2 \<and> length (ch_random c) = 32 \<and> length (ch_session c) < 256 \<and> length (ch_compression c) < 256 \<and>
     length (enc_body c) + 4 < 65536 \<and> list_all (\<lambda>(t, _). 0 < t \<and> t < 65536) (ch_before c) \<and>
     length (enc_upto_sni c) \<le> maxExtensionsAlloc"

lemma be16_enc: "n < 65536 \<Longrightarrow> unat (be16 (word_of_nat (n div 256)) (word_of_nat (n mod 256))) = n"
  by (simp add: unat_be16 unat_of_byte)

lemma be16_type: "n < 65536 \<Longrightarrow> be16 (word_of_nat (n div 256)) (word_of_nat (n mod 256)) = 0 \<longleftrightarrow> n = 0"
  by (metis be16_enc unsigned_0 unsigned_eq_0_iff)

lemma be24_enc:
  "n < 65536 \<Longrightarrow> be24 (word_of_nat (n div 65536)) (word_of_nat (n mod 65536 div 256)) (word_of_nat (n mod 65536 mod 256)) = n"
  by (simp add: be24_value unat_of_byte)

lemma findSNI_skips:
  assumes "0 < t" "t < 65536" "length d < 65536"
  shows "findSNIExtension (enc_ext (t, d) @ rest) = findSNIExtension rest"
  using assms by (simp add: enc_ext_def enc16_def be16_enc be16_type)

lemma findSNI_hits:
  assumes "length d < 65536"
  shows "findSNIExtension (enc_ext (0, d) @ rest) = parseSNIExtensionData d"
  using assms be16_type [of 0] by (simp add: enc_ext_def enc16_def be16_enc)

lemma findSNI_finds:
  assumes "length host + 5 < 65536"
  shows "findSNIExtension (enc_ext (sni_ext host) @ rest) = Inr host"
proof -
  have n: "length host < 65536" "length host + 3 < 65536" using assms by simp_all
  have "parseSNIExtensionData (snd (sni_ext host)) = Inr host"
    using n be16_enc [OF n(1)] be16_enc [OF n(2)] by (simp add: parseSNIExtensionData_def sni_ext_def enc16_def)
  moreover have "length (snd (sni_ext host)) = length host + 5" by (simp add: sni_ext_def enc16_def)
  moreover have "sni_ext host = (0, snd (sni_ext host))" by (simp add: sni_ext_def)
  ultimately show ?thesis using assms findSNI_hits by metis
qed

lemma findSNI_upto:
  assumes "list_all (\<lambda>(t, _). 0 < t \<and> t < 65536) es"
    and "length (concat (map enc_ext es) @ enc_ext (sni_ext host)) < 65536"
  shows "findSNIExtension (concat (map enc_ext es) @ enc_ext (sni_ext host)) = Inr host"
  using assms
proof (induction es)
  case Nil
  then show ?case using findSNI_finds [of host "[]"] by (simp add: enc_ext_def enc16_def sni_ext_def)
next
  case (Cons e es)
  obtain t d where e: "e = (t, d)" by (cases e)
  have "length (enc_ext e) = 4 + length d" by (simp add: e enc_ext_def enc16_def)
  then have "length d < 65536" using Cons.prems(2) by simp
  then show ?case using Cons findSNI_skips by (simp add: e)
qed

lemma parseHandshake_enc:
  "length body < 65536 \<Longrightarrow> parseClientHelloBody body = Inr h \<Longrightarrow>
   parseHandshakeClientHello (1 # enc24 (length body) @ body) = Inr h"
  using be24_enc [of "length body"] by (simp add: parseHandshakeClientHello_def enc24_def enc16_def)

lemma record_enc:
  "length hs < 65536 \<Longrightarrow> ParseClientHelloSNI ([0x16, 3, 1] @ enc16 (length hs) @ hs @ rest) = parseHandshakeClientHello hs"
  by (simp add: ParseClientHelloSNI_def enc16_def be16_enc)

lemma skip_app: "length xs = n \<Longrightarrow> skip (xs @ ys) n = Some ys"
  by (auto simp: skip_def)

lemma skip_hello_enc:
  assumes "wf_hello c"
  shows "skip_hello (enc_body c) = Some (enc16 (length (enc_exts c)) @ enc_exts c)"
proof -
  have l: "length (ch_session c) < 256" "length (ch_compression c) < 256" "length (ch_ciphers c) < 65536"
    using assms by (auto simp: wf_hello_def enc_body_def)
  show ?thesis
    using assms l
    by (simp add: skip_hello_def enc_body_def wf_hello_def skip_app readUint8_def readUint16_def enc16_def be16_enc unat_of_byte)
qed

lemma parse_extensions_enc:
  assumes "wf_hello c"
  shows "parse_extensions (enc16 (length (enc_exts c)) @ enc_exts c) = Inr (ch_host c)"
proof -
  have l: "length (enc_exts c) < 65536" using assms by (auto simp: wf_hello_def enc_body_def)
  have u: "length (enc_upto_sni c) \<le> maxExtensionsAlloc" using assms by (simp add: wf_hello_def)
  have h: "findSNIExtension (enc_upto_sni c) = Inr (ch_host c)"
    using assms l findSNI_upto [of "ch_before c" "ch_host c"] by (simp add: wf_hello_def enc_upto_sni_def enc_exts_def)
  have ne: "enc_exts c \<noteq> []" by (simp add: enc_exts_def enc_upto_sni_def enc_ext_def enc16_def sni_ext_def)
  obtain y where "take (min (length (enc_exts c)) maxExtensionsAlloc) (enc_exts c) = enc_upto_sni c @ y"
    using u by (auto simp: enc_exts_def min_def)
  then show ?thesis
    using l ne findSNIExtension_append [OF h, of y] by (simp add: parse_extensions_def enc16_def readUint16_def be16_enc)
qed

section \<open>Routing\<close>

text \<open>The first interceptable provider of a host name owns it, patterns apart.\<close>

lemma map_of_add_new: "map_of (add_new k v m) h = (if h = k \<and> map_of m k = None then Some v else map_of m h)"
  by (simp add: add_new_def update_conv')

lemma exact_fold:
  assumes "h \<noteq> []"
  shows "map_of (sni_exact (fold (add_provider u) ps m)) h =
    (case map_of (sni_exact m) h of
       Some n \<Rightarrow> Some n
     | None \<Rightarrow> map_option sp_Name (find (\<lambda>p. ShouldIntercept p \<and> sp_HostPattern p = [] \<and> EffectiveHost u p = h) ps))"
  using assms by (induction ps arbitrary: m) (auto simp: add_provider_def map_of_add_new split: option.splits)

lemma lookup_first_provider:
  assumes "h \<noteq> []" "find (\<lambda>p. ShouldIntercept p \<and> sp_HostPattern p = [] \<and> EffectiveHost u p = h) ps = Some p"
  shows "sni_Lookup (Some (BuildSNIMap u ps)) h = Some (sp_Name p)"
  using assms by (simp add: sni_Lookup_def BuildSNIMap_def exact_fold)

text \<open>
  Every connection whose first read succeeds is counted exactly once as intercepted or passed through, and the bytes read are
  replayed unchanged to a destination that is the listener's own address only when the server name spells it.
\<close>

lemma handleConn_counted:
  assumes "ce_read e = Some d" "handleConn m e s = (out, s')"
  shows "Intercepted s' + Passthrough s' = Intercepted s + Passthrough s + 1"
  using assms
  by (auto simp: handleConn_def tunnelPassthrough_def tunnelToOrigDest_def dial_and_replay_def incErrors_def Let_def
      split: sum.splits option.splits if_splits)

lemma handleConn_replays:
  assumes "handleConn m e s = (Some (dst, sent), s')"
  shows "ce_read e = Some sent" "dst = ce_localAddr e \<Longrightarrow> \<exists>host. ParseClientHelloSNI sent = Inr host \<and> dst = host_string host @ '':443''"
  using assms
  by (auto simp: handleConn_def tunnelPassthrough_def tunnelToOrigDest_def dial_and_replay_def incErrors_def Let_def resolveOrigDst_def
      split: sum.splits option.splits if_splits)

text \<open>Host names are compared byte by byte: one written in upper case is not found.\<close>

lemma lookup_case_sensitive:
  "sni_Lookup (Some (BuildSNIMap (\<lambda>_. None) [\<lparr>sp_Name = ''openai'', sp_UpstreamURL = [], sp_Host = ''api.openai.com'',
     sp_HostPattern = [], sp_Intercept = None\<rparr>])) ''API.openai.com'' = None"
  by code_simp

text \<open>An intercepted connection whose dial fails is counted as intercepted and as an error.\<close>

lemma failed_intercept_counted_twice:
  assumes "ce_read e = Some d" "ParseClientHelloSNI d = Inr host" "sni_Lookup m (host_string host) = Some p" "ce_dial_fails e"
  shows "snd (handleConn m e s) = s\<lparr>Intercepted := Intercepted s + 1, Errors := Errors s + 1\<rparr>"
  using assms by (cases s) (simp add: handleConn_def tunnelToOrigDest_def dial_and_replay_def incErrors_def Let_def)

section \<open>Properties\<close>

text \<open>
  What a partial read shows is what was sent.  When the parser finds a host name in the bytes of a first read,
  it finds the same host name in these bytes followed by any others: the rest of the handshake cannot change it.
\<close>

lemma sni_prefix_stable:
  assumes "ParseClientHelloSNI received = Inr host"
  shows "ParseClientHelloSNI (received @ rest) = Inr host"
  using assms parse_take_append [of parseHandshakeClientHello host] parseHandshake_append
  by (fastforce simp: ParseClientHelloSNI_def split: list.splits if_splits)

text \<open>
  C26: the parser inverts the encoding.  From every well-formed ClientHello that fits one record, whatever its other fields and
  extensions, and whatever follows it, the parser returns the server name the client put there.
\<close>

theorem sni_roundtrip:
  assumes "wf_hello c"
  shows "ParseClientHelloSNI (enc_record c @ rest) = Inr (ch_host c)"
proof -
  have "parseClientHelloBody (enc_body c) = Inr (ch_host c)"
    by (simp add: parseClientHelloBody_def skip_hello_enc [OF assms] parse_extensions_enc [OF assms])
  moreover have l: "length (enc_body c) + 4 < 65536" using assms by (simp add: wf_hello_def)
  ultimately have "parseHandshakeClientHello (1 # enc24 (length (enc_body c)) @ enc_body c) = Inr (ch_host c)"
    by (rule_tac parseHandshake_enc) simp_all
  moreover have "length (1 # enc24 (length (enc_body c)) @ enc_body c) = length (enc_body c) + 4"
    by (simp add: enc24_def enc16_def)
  ultimately show ?thesis
    using record_enc [of "1 # enc24 (length (enc_body c)) @ enc_body c" rest] l by (simp add: enc_record_def add.commute)
qed

theorem sni_roundtrip_witness:
  "ParseClientHelloSNI (enc_record \<lparr>ch_version = [3, 3], ch_random = replicate 32 7, ch_session = [1, 2], ch_ciphers = [0x13, 1],
     ch_compression = [0], ch_before = [(43, [3, 4]), (10, [])], ch_host = [97, 46, 98], ch_after = [(16, [5])]\<rparr> @ [9]) = Inr [97, 46, 98]"
proof -
  have "wf_hello \<lparr>ch_version = [3, 3], ch_random = replicate 32 7, ch_session = [1, 2], ch_ciphers = [0x13, 1],
     ch_compression = [0], ch_before = [(43, [3, 4]), (10, [])], ch_host = [97, 46, 98], ch_after = [(16, [5])]\<rparr>" 
    by (simp add: wf_hello_def enc_body_def enc_exts_def enc_upto_sni_def enc_ext_def sni_ext_def enc16_def maxExtensionsAlloc_def)
  from sni_roundtrip [OF this, of "[9]"] show ?thesis by simp
qed

end
