(* ===== verification/Correlator.thy ===== *)
theory Correlator
  imports Prelude "HOL-Library.Word"
begin

text \<open>
  The correlator of network flows (\<^verbatim>\<open>pkg/hubbleaudit/correlator.go\<close>, \<^verbatim>\<open>types.go\<close>): a ring of the latest flows with two
  indices into it, by pod and by connection.  It is shown to refine a plain list of the latest flows that is searched from
  its front: the positions kept in the indices, their removal when a slot is overwritten, and the wrap-around of the ring
  are invisible.

  The ring is a list of the configured length, as \<^verbatim>\<open>make\<close> returns it; a map is an association list; a missing key
  reads as the empty slice.  The clock is an argument.
\<close>

section \<open>Flows and keys\<close>

record Endpoint =
  ep_Namespace :: string
  ep_PodName :: string
  ep_Labels :: "string list"
  ep_IP :: string
  ep_Port :: "32 word"
  ep_Identity :: "32 word"

record Flow =
  fl_Time :: gotime
  fl_Source :: Endpoint
  fl_Destination :: Endpoint
  fl_Verdict :: string
  fl_Type :: string
  fl_Summary :: string
  fl_IsReply :: bool
  fl_TraceObservationPoint :: string

record timestampedFlow =
  tf_flow :: Flow
  tf_ingestedAt :: gotime

definition podKey :: "Endpoint \<Rightarrow> string" where
  "podKey ep = (if ep_Namespace ep = [] \<or> ep_PodName ep = [] then [] else ep_Namespace ep @ ''/'' @ ep_PodName ep)"

text \<open>The arrow is one character of three bytes.\<close>

definition arrow :: string where
  "arrow = [CHR 0xE2, CHR 0x86, CHR 0x92]"

definition tupleKey :: "Flow \<Rightarrow> string" where
  "tupleKey f =
     (if ep_IP (fl_Source f) = [] \<or> ep_IP (fl_Destination f) = [] then []
      else ep_IP (fl_Source f) @ '':'' @ decimal (unat (ep_Port (fl_Source f))) @ arrow
           @ ep_IP (fl_Destination f) @ '':'' @ decimal (unat (ep_Port (fl_Destination f))))"

definition copyEndpoint :: "Endpoint \<Rightarrow> Endpoint" where
  "copyEndpoint ep = (if 0 < length (ep_Labels ep) then ep\<lparr>ep_Labels := map id (ep_Labels ep)\<rparr> else ep)"

definition copyFlow :: "Flow \<Rightarrow> Flow" where
  "copyFlow f = f\<lparr>fl_Source := copyEndpoint (fl_Source f), fl_Destination := copyEndpoint (fl_Destination f)\<rparr>"

section \<open>The ring and its indices\<close>

type_synonym flow_index = "(string \<times> nat list) list"

record CorrelatorConfig =
  cc_MaxFlows :: int
  cc_TTL :: duration

definition withDefaults :: "CorrelatorConfig \<Rightarrow> CorrelatorConfig" where
  "withDefaults c =
     (let c1 = (if cc_MaxFlows c \<le> 0 then c\<lparr>cc_MaxFlows := 10000\<rparr> else c)
      in if cc_TTL c1 \<le> 0 then c1\<lparr>cc_TTL := 5 * ns_minute\<rparr> else c1)"

record WindowCorrelator =
  wc_cfg :: CorrelatorConfig
  wc_ring :: "timestampedFlow list"
  wc_head :: nat
  wc_count :: nat
  wc_podIndex :: flow_index
  wc_tupleIndex :: flow_index

definition no_endpoint :: Endpoint where
  "no_endpoint = \<lparr>ep_Namespace = [], ep_PodName = [], ep_Labels = [], ep_IP = [], ep_Port = 0, ep_Identity = 0\<rparr>"

definition zero_flow :: timestampedFlow where
  "zero_flow = \<lparr>tf_flow = \<lparr>fl_Time = 0, fl_Source = no_endpoint, fl_Destination = no_endpoint, fl_Verdict = [], fl_Type = [],
     fl_Summary = [], fl_IsReply = False, fl_TraceObservationPoint = []\<rparr>, tf_ingestedAt = 0\<rparr>"

definition NewWindowCorrelator :: "CorrelatorConfig \<Rightarrow> WindowCorrelator" where
  "NewWindowCorrelator cfg0 =
     (let cfg = withDefaults cfg0
      in \<lparr>wc_cfg = cfg, wc_ring = replicate (nat (cc_MaxFlows cfg)) zero_flow, wc_head = 0, wc_count = 0,
          wc_podIndex = [], wc_tupleIndex = []\<rparr>)"

definition index_get :: "flow_index \<Rightarrow> string \<Rightarrow> nat list" where
  "index_get m k = (case map_of m k of None \<Rightarrow> [] | Some is \<Rightarrow> is)"

definition index_add :: "string \<Rightarrow> nat \<Rightarrow> flow_index \<Rightarrow> flow_index" where
  "index_add k p m = AList.update k (index_get m k @ [p]) m"

fun removeIndex :: "nat list \<Rightarrow> nat \<Rightarrow> nat list" where
  "removeIndex [] _ = []"
| "removeIndex (v # vs) val = (if v = val then vs else v # removeIndex vs val)"

definition index_remove :: "string \<Rightarrow> nat \<Rightarrow> flow_index \<Rightarrow> flow_index" where
  "index_remove k p m =
     (let is = removeIndex (index_get m k) p in if is = [] then AList.delete k m else AList.update k is m)"

definition evict_pod :: "Flow \<Rightarrow> nat \<Rightarrow> flow_index \<Rightarrow> flow_index" where
  "evict_pod old pos m =
     (let srcKey = podKey (fl_Source old); dstKey = podKey (fl_Destination old);
          m1 = (if srcKey \<noteq> [] then index_remove srcKey pos m else m)
      in if dstKey \<noteq> [] \<and> dstKey \<noteq> srcKey then index_remove dstKey pos m1 else m1)"

definition evictAt :: "nat \<Rightarrow> WindowCorrelator \<Rightarrow> WindowCorrelator" where
  "evictAt pos c =
     (let old = tf_flow (wc_ring c ! pos)
      in c\<lparr>wc_podIndex := evict_pod old pos (wc_podIndex c),
           wc_tupleIndex := (if tupleKey old \<noteq> [] then index_remove (tupleKey old) pos (wc_tupleIndex c) else wc_tupleIndex c)\<rparr>)"

definition add_pod :: "Flow \<Rightarrow> nat \<Rightarrow> flow_index \<Rightarrow> flow_index" where
  "add_pod f pos m =
     (let srcKey = podKey (fl_Source f); dstKey = podKey (fl_Destination f);
          m1 = (if srcKey \<noteq> [] then index_add srcKey pos m else m)
      in if dstKey \<noteq> [] \<and> dstKey \<noteq> srcKey then index_add dstKey pos m1 else m1)"

definition Ingest :: "gotime \<Rightarrow> Flow \<Rightarrow> WindowCorrelator \<Rightarrow> WindowCorrelator" where
  "Ingest now f c0 =
     (let c = (if wc_count c0 = length (wc_ring c0) then evictAt (wc_head c0) c0 else c0)
      in c\<lparr>wc_ring := (wc_ring c)[wc_head c := \<lparr>tf_flow = f, tf_ingestedAt = now\<rparr>],
           wc_podIndex := add_pod f (wc_head c) (wc_podIndex c),
           wc_tupleIndex := (if tupleKey f \<noteq> [] then index_add (tupleKey f) (wc_head c) (wc_tupleIndex c) else wc_tupleIndex c),
           wc_count := (if wc_count c < length (wc_ring c) then wc_count c + 1 else wc_count c),
           wc_head := (wc_head c + 1) mod length (wc_ring c)\<rparr>)"

definition in_window :: "gotime \<Rightarrow> timestampedFlow \<Rightarrow> bool" where
  "in_window cutoff e \<longleftrightarrow> \<not> tf_ingestedAt e < cutoff \<and> \<not> fl_Time (tf_flow e) < cutoff"

definition Correlate :: "gotime \<Rightarrow> string \<Rightarrow> duration \<Rightarrow> WindowCorrelator \<Rightarrow> Flow list option" where
  "Correlate now key window c =
     (if key = [] then None
      else let cutoff = now - window;
               indices = (if index_get (wc_podIndex c) key = [] then index_get (wc_tupleIndex c) key else index_get (wc_podIndex c) key)
           in Some (map (copyFlow \<circ> tf_flow) (filter (in_window cutoff) (map ((!) (wc_ring c)) indices))))"

record CorrelatorStats =
  cs_FlowCount :: nat
  cs_PodKeys :: nat
  cs_TupleKeys :: nat
  cs_RingCapacity :: nat

definition correlator_Stats :: "WindowCorrelator \<Rightarrow> CorrelatorStats" where
  "correlator_Stats c = \<lparr>cs_FlowCount = wc_count c, cs_PodKeys = length (wc_podIndex c), cs_TupleKeys = length (wc_tupleIndex c),
     cs_RingCapacity = length (wc_ring c)\<rparr>"

section \<open>The abstract correlator\<close>

text \<open>The latest flows in the order they came, searched by key.\<close>

definition pod_match :: "string \<Rightarrow> timestampedFlow \<Rightarrow> bool" where
  "pod_match k e \<longleftrightarrow> k \<noteq> [] \<and> (podKey (fl_Source (tf_flow e)) = k \<or> podKey (fl_Destination (tf_flow e)) = k)"

definition tuple_match :: "string \<Rightarrow> timestampedFlow \<Rightarrow> bool" where
  "tuple_match k e \<longleftrightarrow> k \<noteq> [] \<and> tupleKey (tf_flow e) = k"

definition spec_correlate :: "gotime \<Rightarrow> string \<Rightarrow> timestampedFlow list \<Rightarrow> Flow list" where
  "spec_correlate cutoff key es =
     (let matching = (if filter (pod_match key) es = [] then filter (tuple_match key) es else filter (pod_match key) es)
      in map tf_flow (filter (in_window cutoff) matching))"

text \<open>The positions of the ring from the oldest flow to the newest.\<close>

definition slots :: "WindowCorrelator \<Rightarrow> nat list" where
  "slots c = map (\<lambda>k. (wc_head c + length (wc_ring c) - wc_count c + k) mod length (wc_ring c)) [0..<wc_count c]"

definition flows_of :: "WindowCorrelator \<Rightarrow> timestampedFlow list" where
  "flows_of c = map ((!) (wc_ring c)) (slots c)"

definition indexed :: "(string \<Rightarrow> timestampedFlow \<Rightarrow> bool) \<Rightarrow> timestampedFlow list \<Rightarrow> nat list \<Rightarrow> flow_index \<Rightarrow> bool" where
  "indexed match ring ps m \<longleftrightarrow> (\<forall>k. k \<noteq> [] \<longrightarrow> index_get m k = filter (\<lambda>p. match k (ring ! p)) ps)"

definition correlator_ok :: "WindowCorrelator \<Rightarrow> bool" where
  "correlator_ok c \<longleftrightarrow>
     wc_ring c \<noteq> [] \<and> wc_head c < length (wc_ring c) \<and> wc_count c \<le> length (wc_ring c) \<and>
     (wc_count c < length (wc_ring c) \<longrightarrow> wc_head c = wc_count c) \<and>
     indexed pod_match (wc_ring c) (slots c) (wc_podIndex c) \<and>
     indexed tuple_match (wc_ring c) (slots c) (wc_tupleIndex c)"

section \<open>Index operations\<close>

lemma copyFlow_id [simp]: "copyFlow f = f"
  by (simp add: copyFlow_def copyEndpoint_def)

lemma index_get_add: "index_get (index_add k p m) k' = (if k' = k then index_get m k @ [p] else index_get m k')"
  by (simp add: index_get_def index_add_def)

lemma index_get_remove: "index_get (index_remove k p m) k' = (if k' = k then removeIndex (index_get m k) p else index_get m k')"
  by (auto simp: index_get_def index_remove_def Let_def)

lemma removeIndex_absent: "p \<notin> set is \<Longrightarrow> removeIndex is p = is"
  by (induction "is") auto

lemma removeIndex_head: "p \<notin> set ps \<Longrightarrow> removeIndex (filter P (p # ps)) p = filter P ps"
  by (simp add: removeIndex_absent)

lemma indexed_evict_pod:
  assumes "indexed pod_match ring (p # ps) m" "p \<notin> set ps"
  shows "indexed pod_match ring ps (evict_pod (tf_flow (ring ! p)) p m)"
  using assms
  by (auto simp: indexed_def evict_pod_def index_get_remove pod_match_def removeIndex_absent Let_def)

lemma indexed_evict_tuple:
  assumes "indexed tuple_match ring (p # ps) m" "p \<notin> set ps"
  shows "indexed tuple_match ring ps (if tupleKey (tf_flow (ring ! p)) \<noteq> [] then index_remove (tupleKey (tf_flow (ring ! p))) p m else m)"
  using assms by (auto simp: indexed_def index_get_remove tuple_match_def removeIndex_absent)

lemma filter_other_slot: "p \<notin> set ps \<Longrightarrow> filter (\<lambda>q. P (ring[p := x] ! q)) ps = filter (\<lambda>q. P (ring ! q)) ps"
  by (rule filter_cong) (auto, (metis nth_list_update_neq)+)

lemma index_get_add_pod:
  "k \<noteq> [] \<Longrightarrow> index_get (add_pod f p m) k = index_get m k @ (if pod_match k \<lparr>tf_flow = f, tf_ingestedAt = t\<rparr> then [p] else [])"
  by (simp add: add_pod_def pod_match_def index_get_add Let_def)

lemma indexed_add_pod:
  assumes "indexed pod_match ring ps m" "p \<notin> set ps" "p < length ring"
  shows "indexed pod_match (ring[p := \<lparr>tf_flow = f, tf_ingestedAt = t\<rparr>]) (ps @ [p]) (add_pod f p m)"
  using assms by (simp add: indexed_def index_get_add_pod [of _ f p m t] filter_other_slot)

lemma indexed_add_tuple:
  assumes "indexed tuple_match ring ps m" "p \<notin> set ps" "p < length ring"
  shows "indexed tuple_match (ring[p := \<lparr>tf_flow = f, tf_ingestedAt = t\<rparr>]) (ps @ [p])
           (if tupleKey f \<noteq> [] then index_add (tupleKey f) p m else m)"
  using assms by (simp add: indexed_def index_get_add filter_other_slot tuple_match_def [of _ "\<lparr>tf_flow = f, tf_ingestedAt = t\<rparr>"])

section \<open>The order of the slots\<close>

definition ring_shape :: "WindowCorrelator \<Rightarrow> bool" where
  "ring_shape c \<longleftrightarrow> wc_ring c \<noteq> [] \<and> wc_head c < length (wc_ring c) \<and> wc_count c \<le> length (wc_ring c) \<and>
     (wc_count c < length (wc_ring c) \<longrightarrow> wc_head c = wc_count c)"

lemma slots_filling:
  assumes "wc_count c < length (wc_ring c)" "wc_head c = wc_count c"
  shows "slots c = [0..<wc_count c]"
proof -
  have "slots c = map (\<lambda>k. k) [0..<wc_count c]" unfolding slots_def using assms by (intro map_cong) auto
  then show ?thesis by simp
qed

lemma slots_full: "wc_count c = length (wc_ring c) \<Longrightarrow> slots c = map (\<lambda>k. (wc_head c + k) mod length (wc_ring c)) [0..<length (wc_ring c)]"
  by (simp add: slots_def)

lemma rotate_slots:
  assumes "h < n"
  shows "map (\<lambda>k. (h + k) mod n) [0..<n] = h # map (\<lambda>k. (h + Suc k) mod n) [0..<n - 1]"
    and "map (\<lambda>k. (Suc h mod n + k) mod n) [0..<n] = map (\<lambda>k. (h + Suc k) mod n) [0..<n - 1] @ [h]"
proof -
  obtain m where n: "n = Suc m" using assms by (cases n) auto
  have "map (\<lambda>k. (h + k) mod n) [0..<n] = h mod n # map (\<lambda>k. (h + Suc k) mod n) [0..<m]"
    unfolding n upt_conv_Cons [OF zero_less_Suc] by (simp add: map_Suc_upt [symmetric] comp_def del: upt_Suc)
  then show "map (\<lambda>k. (h + k) mod n) [0..<n] = h # map (\<lambda>k. (h + Suc k) mod n) [0..<n - 1]" using assms n by simp
  have "map (\<lambda>k. (Suc h mod n + k) mod n) [0..<n] = map (\<lambda>k. (h + Suc k) mod n) [0..<n]"
    by (rule map_cong) (simp_all add: mod_add_left_eq)
  also have "\<dots> = map (\<lambda>k. (h + Suc k) mod n) [0..<m] @ [(h + n) mod n]" by (simp add: n)
  finally show "map (\<lambda>k. (Suc h mod n + k) mod n) [0..<n] = map (\<lambda>k. (h + Suc k) mod n) [0..<n - 1] @ [h]"
    using assms n by (metis diff_Suc_1 mod_add_self2 mod_less)
qed

lemma distinct_rotation: "distinct (map (\<lambda>k. (h + k) mod n) [0..<n])"
proof -
  have "inj_on (\<lambda>k. (h + k) mod n) {0..<n}"
  proof (rule inj_onI)
    fix a b assume ab: "a \<in> {0..<n}" "b \<in> {0..<n}" "(h + a) mod n = (h + b) mod n"
    then have "int n dvd int a - int b" by (simp add: mod_eq_iff_dvd_symdiff_nat)
    then have "int a - int b \<noteq> 0 \<Longrightarrow> int n \<le> \<bar>int a - int b\<bar>" using dvd_imp_le_int [of "int a - int b" "int n"] by simp
    with ab show "a = b" by (cases "a = b") auto
  qed
  then show ?thesis by (simp add: distinct_map)
qed

lemma ring_Ingest [simp]:
  "length (wc_ring (Ingest now f c)) = length (wc_ring c)"
  "wc_head (Ingest now f c) = (wc_head c + 1) mod length (wc_ring c)"
  "wc_count (Ingest now f c) = (if wc_count c < length (wc_ring c) then wc_count c + 1 else wc_count c)"
  "wc_ring (Ingest now f c) = (wc_ring c)[wc_head c := \<lparr>tf_flow = f, tf_ingestedAt = now\<rparr>]"
  by (simp_all add: Ingest_def evictAt_def Let_def)

lemma shape_Ingest:
  assumes "ring_shape c"
  shows "ring_shape (Ingest now f c)"
proof -
  let ?n = "length (wc_ring c)"
  have "0 < ?n" "wc_count c \<le> ?n" "wc_count c < ?n \<longrightarrow> wc_head c = wc_count c" using assms by (simp_all add: ring_shape_def)
  moreover from this have "(wc_head c + 1) mod ?n < ?n" by simp
  moreover have "(wc_head c + 1) mod ?n = wc_count c + 1" if "wc_count c + 1 < ?n" using that calculation by simp
  ultimately show ?thesis by (simp add: ring_shape_def del: mod_less_divisor)
qed

lemma slots_Ingest:
  assumes "ring_shape c"
  shows "slots (Ingest now f c) = (if wc_count c = length (wc_ring c) then tl (slots c) else slots c) @ [wc_head c]"
proof (cases "wc_count c = length (wc_ring c)")
  case True
  then show ?thesis
    using assms rotate_slots [of "wc_head c" "length (wc_ring c)"]
    by (simp add: slots_full ring_shape_def)
next
  case False
  then have h: "wc_head c = wc_count c" "wc_count c < length (wc_ring c)" using assms by (auto simp: ring_shape_def)
  let ?c = "Ingest now f c"
  have n: "wc_count ?c = Suc (wc_count c)" using h by simp
  have "slots ?c = [0..<Suc (wc_count c)]"
  proof (cases "Suc (wc_count c) = length (wc_ring c)")
    case True
    then have "wc_head ?c = 0" "wc_count ?c = length (wc_ring ?c)" using h by simp_all
    then have "slots ?c = map (\<lambda>k. k) [0..<length (wc_ring ?c)]" by (subst slots_full) (auto intro: map_idI)
    then show ?thesis using True by simp
  next
    case False
    then have "Suc (wc_count c) < length (wc_ring c)" using h by simp
    then have "wc_head ?c = wc_count ?c" "wc_count ?c < length (wc_ring ?c)" using h by simp_all
    then show ?thesis using n by (simp only: slots_filling)
  qed
  then show ?thesis using h slots_filling [of c] by simp
qed

lemma head_slot:
  assumes "ring_shape c"
  shows "wc_count c = length (wc_ring c) \<Longrightarrow> slots c = wc_head c # tl (slots c)"
    and "wc_head c \<notin> set (if wc_count c = length (wc_ring c) then tl (slots c) else slots c)"
proof -
  show s: "slots c = wc_head c # tl (slots c)" if "wc_count c = length (wc_ring c)"
    using that assms rotate_slots(1) [of "wc_head c" "length (wc_ring c)"] by (simp add: slots_full ring_shape_def)
  show "wc_head c \<notin> set (if wc_count c = length (wc_ring c) then tl (slots c) else slots c)"
  proof (cases "wc_count c = length (wc_ring c)")
    case True
    then have "distinct (slots c)" by (simp add: slots_full distinct_rotation)
    then have "wc_head c \<notin> set (tl (slots c))" using s [OF True] by (metis distinct.simps(2))
    with True show ?thesis by simp
  next
    case False
    with assms show ?thesis by (auto simp: ring_shape_def slots_filling)
  qed
qed

section \<open>Refinement\<close>

lemma correlator_ok_alt: "correlator_ok c \<longleftrightarrow> ring_shape c \<and> indexed pod_match (wc_ring c) (slots c) (wc_podIndex c) \<and>
    indexed tuple_match (wc_ring c) (slots c) (wc_tupleIndex c)"
  by (auto simp: correlator_ok_def ring_shape_def)

lemma ok_NewWindowCorrelator: "correlator_ok (NewWindowCorrelator cfg)"
  by (auto simp: correlator_ok_def NewWindowCorrelator_def withDefaults_def Let_def indexed_def index_get_def slots_def)

lemma ok_Ingest:
  assumes "correlator_ok c"
  shows "correlator_ok (Ingest now f c)"
proof -
  have sh: "ring_shape c" using assms by (simp add: correlator_ok_alt)
  then have l: "wc_head c < length (wc_ring c)" by (simp add: ring_shape_def)
  define c1 where "c1 = (if wc_count c = length (wc_ring c) then evictAt (wc_head c) c else c)"
  define ps where "ps = (if wc_count c = length (wc_ring c) then tl (slots c) else slots c)"
  have nin: "wc_head c \<notin> set ps" using head_slot(2) [OF sh] by (simp add: ps_def)
  have same: "wc_ring c1 = wc_ring c" "wc_head c1 = wc_head c" by (simp_all add: c1_def evictAt_def Let_def)
  have ix: "indexed pod_match (wc_ring c) ps (wc_podIndex c1)" "indexed tuple_match (wc_ring c) ps (wc_tupleIndex c1)"
    using assms head_slot(1) [OF sh] nin indexed_evict_pod [of "wc_ring c" "wc_head c" ps "wc_podIndex c"]
      indexed_evict_tuple [of "wc_ring c" "wc_head c" ps "wc_tupleIndex c"]
    by (auto simp: correlator_ok_alt c1_def ps_def evictAt_def Let_def split: if_splits)
  have "wc_podIndex (Ingest now f c) = add_pod f (wc_head c) (wc_podIndex c1)"
    and "wc_tupleIndex (Ingest now f c) = (if tupleKey f \<noteq> [] then index_add (tupleKey f) (wc_head c) (wc_tupleIndex c1) else wc_tupleIndex c1)"
    using same by (simp_all add: Ingest_def c1_def Let_def)
  then show ?thesis
    using indexed_add_pod [OF ix(1) nin l] indexed_add_tuple [OF ix(2) nin l] shape_Ingest [OF sh] slots_Ingest [OF sh]
    by (simp add: correlator_ok_alt ps_def)
qed

lemma flows_Ingest:
  assumes "correlator_ok c"
  shows "flows_of (Ingest now f c) = last_n (length (wc_ring c)) (flows_of c @ [\<lparr>tf_flow = f, tf_ingestedAt = now\<rparr>])"
proof -
  have sh: "ring_shape c" using assms by (simp add: correlator_ok_alt)
  let ?ps = "if wc_count c = length (wc_ring c) then tl (slots c) else slots c"
  have "map ((!) ((wc_ring c)[wc_head c := \<lparr>tf_flow = f, tf_ingestedAt = now\<rparr>])) ?ps = map ((!) (wc_ring c)) ?ps"
    using head_slot(2) [OF sh] by (intro map_cong) (auto, (metis nth_list_update_neq)+)
  then have "flows_of (Ingest now f c) = map ((!) (wc_ring c)) ?ps @ [\<lparr>tf_flow = f, tf_ingestedAt = now\<rparr>]"
    using sh by (simp add: flows_of_def slots_Ingest ring_shape_def)
  moreover have "length (slots c) = wc_count c" by (simp add: slots_def)
  ultimately show ?thesis
    using sh by (cases "slots c") (auto simp: flows_of_def last_n_def ring_shape_def map_tl)
qed

text \<open>The correlator keeps the contract of a bounded log; an event is a flow with its time of arrival.\<close>

interpretation flow_log: bounded_log "\<lambda>(now, f). Ingest now f" flows_of "\<lambda>c. length (wc_ring c)" correlator_ok
    "\<lambda>(now, f). [\<lparr>tf_flow = f, tf_ingestedAt = now\<rparr>]"
proof
  fix s and x :: "gotime \<times> Flow" assume ok: "correlator_ok s"
  obtain now f where x: "x = (now, f)" by (cases x)
  show "flows_of ((case x of (now, f) \<Rightarrow> Ingest now f) s) =
      last_n (length (wc_ring s)) (flows_of s @ (case x of (now, f) \<Rightarrow> [\<lparr>tf_flow = f, tf_ingestedAt = now\<rparr>]))"
    by (simp add: x flows_Ingest ok)
  show "correlator_ok ((case x of (now, f) \<Rightarrow> Ingest now f) s)" by (simp add: x ok_Ingest ok)
  show "length (wc_ring ((case x of (now, f) \<Rightarrow> Ingest now f) s)) = length (wc_ring s)" by (simp add: x)
  show "length (flows_of s) \<le> length (wc_ring s)" using ok by (simp add: flows_of_def slots_def correlator_ok_def)
qed

lemma Correlate_spec:
  assumes "correlator_ok c" "key \<noteq> []"
  shows "Correlate now key window c = Some (spec_correlate (now - window) key (flows_of c))"
proof -
  have m: "filter P (map g ps) = map g (filter (\<lambda>p. P (g p)) ps)" for P :: "timestampedFlow \<Rightarrow> bool" and g :: "nat \<Rightarrow> _" and ps
    by (simp add: filter_map comp_def)
  have "index_get (wc_podIndex c) key = filter (\<lambda>p. pod_match key (wc_ring c ! p)) (slots c)"
    and "index_get (wc_tupleIndex c) key = filter (\<lambda>p. tuple_match key (wc_ring c ! p)) (slots c)"
    using assms by (auto simp: correlator_ok_alt indexed_def)
  then show ?thesis
    using assms(2) by (auto simp: Correlate_def spec_correlate_def flows_of_def Let_def m)
qed

lemma flows_after:
  "flows_of (fold (\<lambda>(t, f). Ingest t f) events (NewWindowCorrelator cfg)) =
     last_n (nat (cc_MaxFlows (withDefaults cfg))) (map (\<lambda>(t, f). \<lparr>tf_flow = f, tf_ingestedAt = t\<rparr>) events)"
proof -
  have "concat (map (\<lambda>x. case x of (now, f) \<Rightarrow> [\<lparr>tf_flow = f, tf_ingestedAt = now\<rparr>]) es) =
      map (\<lambda>(t, f). \<lparr>tf_flow = f, tf_ingestedAt = t\<rparr>) es" for es :: "(gotime \<times> Flow) list"
    by (induction es) auto
  moreover have "flows_of (NewWindowCorrelator cfg) = []" "length (wc_ring (NewWindowCorrelator cfg)) = nat (cc_MaxFlows (withDefaults cfg))"
    by (simp_all add: flows_of_def slots_def NewWindowCorrelator_def Let_def)
  ultimately show ?thesis
    using flow_log.contents_fold [OF ok_NewWindowCorrelator, of events cfg] by simp
qed

section \<open>Properties\<close>

text \<open>
  C35: the ring with its indices is a list of the latest flows.  After any sequence of flows a query for a key returns
  exactly those of the last \<^verbatim>\<open>MaxFlows\<close> flows that carry it, the pod before the connection, in the order they came and none
  from before the window; the wrap-around and the reuse of slots lose and duplicate nothing.
\<close>

theorem correlate_refines:
  assumes "key \<noteq> []"
  shows "Correlate now key window (fold (\<lambda>(t, f). Ingest t f) events (NewWindowCorrelator cfg)) =
     Some (spec_correlate (now - window) key
       (last_n (nat (cc_MaxFlows (withDefaults cfg))) (map (\<lambda>(t, f). \<lparr>tf_flow = f, tf_ingestedAt = t\<rparr>) events)))"
  using assms Correlate_spec [OF flow_log.valid_fold [OF ok_NewWindowCorrelator, of events cfg]] flows_after by simp

definition demo_flow :: "gotime \<Rightarrow> string \<Rightarrow> Flow" where
  "demo_flow t pod = \<lparr>fl_Time = t, fl_Source = no_endpoint\<lparr>ep_Namespace := ''ns'', ep_PodName := pod\<rparr>, fl_Destination = no_endpoint,
     fl_Verdict = ''FORWARDED'', fl_Type = ''L3_L4'', fl_Summary = [], fl_IsReply = False, fl_TraceObservationPoint = []\<rparr>"

theorem correlate_refines_witness:
  "Correlate 10 ''ns/a'' 8 (fold (\<lambda>(t, f). Ingest t f)
     [(1, demo_flow 1 ''a''), (3, demo_flow 3 ''a''), (4, demo_flow 4 ''b''), (5, demo_flow 1 ''a''), (6, demo_flow 6 ''a'')]
     (NewWindowCorrelator \<lparr>cc_MaxFlows = 3, cc_TTL = 0\<rparr>)) = Some [demo_flow 6 ''a'']"
proof -
  have "spec_correlate (10 - 8) ''ns/a''
       (last_n (nat (cc_MaxFlows (withDefaults \<lparr>cc_MaxFlows = 3, cc_TTL = 0\<rparr>))) (map (\<lambda>(t, f). \<lparr>tf_flow = f, tf_ingestedAt = t\<rparr>)
     [(1, demo_flow 1 ''a''), (3, demo_flow 3 ''a''), (4, demo_flow 4 ''b''), (5, demo_flow 1 ''a''), (6, demo_flow 6 ''a'')])) = [demo_flow 6 ''a'']"
    by (simp add: spec_correlate_def last_n_def withDefaults_def pod_match_def demo_flow_def podKey_def no_endpoint_def in_window_def)
  then show ?thesis by (subst correlate_refines) simp_all
qed

text \<open>The configured time to live is not read by any operation: only the window of a query and the capacity bound what is found.\<close>

lemma ttl_unused:
  assumes "0 < n"
  shows "Correlate now key window (fold (\<lambda>(t, f). Ingest t f) es (NewWindowCorrelator \<lparr>cc_MaxFlows = n, cc_TTL = d\<rparr>)) =
         Correlate now key window (fold (\<lambda>(t, f). Ingest t f) es (NewWindowCorrelator \<lparr>cc_MaxFlows = n, cc_TTL = d'\<rparr>))"
proof (cases "key = []")
  case False
  let ?c = "\<lambda>d. fold (\<lambda>(t, f). Ingest t f) es (NewWindowCorrelator \<lparr>cc_MaxFlows = n, cc_TTL = d\<rparr>)"
  have "flows_of (?c d) = flows_of (?c d')" using assms by (simp add: flows_after withDefaults_def Let_def)
  moreover have "correlator_ok (?c d)" "correlator_ok (?c d')" by (rule flow_log.valid_fold [OF ok_NewWindowCorrelator])+
  ultimately show ?thesis using False by (simp add: Correlate_spec)
qed (simp add: Correlate_def)

end
