(* ===== verification/Float64.thy ===== *)
theory Float64
  imports Complex_Main "HOL-Library.Log_Nat"
begin

text \<open>
  IEEE 754 binary64, the type \<^verbatim>\<open>float64\<close> of Go, as the billing code uses it: every amount of
  money, every price and every discount of the program is a \<^verbatim>\<open>float64\<close>.

  A value is a NaN, an infinity or a finite rational number.  The two zeros are one value
  here: Go's comparisons do not tell them apart and no modelled code divides by a zero
  whose sign matters.  Each arithmetic operation computes the exact rational result and
  rounds it (\<open>rnd\<close>) to the nearest multiple of the unit in the last place, ties to even;
  a rounded result of magnitude \<open>2 ^ 1024\<close> or more is an infinity.  The comparisons are
  those of Go: every ordered comparison with a NaN is false.

  The lemmas are the ones the components need: rounding is monotone, odd, keeps signs, and
  is the identity on the dyadic grid \<open>m * 2 powi k\<close> with \<open>\<bar>m\<bar> \<le> 2 ^ 53\<close>.
\<close>

section \<open>Values and rounding\<close>

datatype f64 = NaN | PInf | NInf | Fin rat

text \<open>The binary exponent of a positive rational: \<open>2 powi ilog2 x \<le> x < 2 powi (ilog2 x + 1)\<close>.\<close>

definition ilog2 :: "rat \<Rightarrow> int" where
  "ilog2 x =
     (let (p, q) = quotient_of x; k = bitlen p - bitlen q
      in if 2 powi k \<le> x then k else k - 1)"

text \<open>Round half to even.\<close>

definition rhe :: "rat \<Rightarrow> int" where
  "rhe x =
     (let n = \<lfloor>x\<rfloor>; d = x - of_int n
      in if d < 1 / 2 then n else if 1 / 2 < d then n + 1 else if even n then n else n + 1)"

text \<open>The exponent of the unit in the last place: 53 significant bits, subnormals below.\<close>

definition expo :: "rat \<Rightarrow> int" where
  "expo x = max (ilog2 \<bar>x\<bar> - 52) (- 1074)"

definition rnd :: "rat \<Rightarrow> rat" where
  "rnd x = (if x = 0 then 0 else of_int (rhe (x / 2 powi expo x)) * 2 powi expo x)"

definition f64_lim :: rat where
  "f64_lim = 2 ^ 1024"

definition mk :: "rat \<Rightarrow> f64" where
  "mk x =
     (let y = rnd x
      in if f64_lim \<le> y then PInf else if y \<le> - f64_lim then NInf else Fin y)"

section \<open>Go's operations on \<open>float64\<close>\<close>

instantiation f64 :: "{zero, one, plus, minus, uminus, times, inverse, ord}"
begin

definition zero_f64 :: f64 where
  "0 = Fin 0"

definition one_f64 :: f64 where
  "1 = Fin 1"

fun uminus_f64 :: "f64 \<Rightarrow> f64" where
  "- NaN = NaN"
| "- PInf = NInf"
| "- NInf = PInf"
| "- Fin a = Fin (- a)"

fun plus_f64 :: "f64 \<Rightarrow> f64 \<Rightarrow> f64" where
  "NaN + _ = NaN"
| "_ + NaN = NaN"
| "PInf + NInf = NaN"
| "NInf + PInf = NaN"
| "PInf + _ = PInf"
| "_ + PInf = PInf"
| "NInf + _ = NInf"
| "_ + NInf = NInf"
| "Fin a + Fin b = mk (a + b)"

definition minus_f64 :: "f64 \<Rightarrow> f64 \<Rightarrow> f64" where
  "x - y = x + (- y :: f64)"

fun times_f64 :: "f64 \<Rightarrow> f64 \<Rightarrow> f64" where
  "NaN * _ = NaN"
| "_ * NaN = NaN"
| "PInf * PInf = PInf"
| "PInf * NInf = NInf"
| "NInf * PInf = NInf"
| "NInf * NInf = PInf"
| "PInf * Fin a = (if a = 0 then NaN else if 0 < a then PInf else NInf)"
| "Fin a * PInf = (if a = 0 then NaN else if 0 < a then PInf else NInf)"
| "NInf * Fin a = (if a = 0 then NaN else if 0 < a then NInf else PInf)"
| "Fin a * NInf = (if a = 0 then NaN else if 0 < a then NInf else PInf)"
| "Fin a * Fin b = mk (a * b)"

fun divide_f64 :: "f64 \<Rightarrow> f64 \<Rightarrow> f64" where
  "divide_f64 NaN _ = NaN"
| "divide_f64 _ NaN = NaN"
| "divide_f64 (Fin a) (Fin b) =
     (if b = 0 then (if a = 0 then NaN else if 0 < a then PInf else NInf) else mk (a / b))"
| "divide_f64 (Fin _) _ = Fin 0"
| "divide_f64 PInf (Fin b) = (if b < 0 then NInf else PInf)"
| "divide_f64 NInf (Fin b) = (if b < 0 then PInf else NInf)"
| "divide_f64 _ _ = NaN"

definition inverse_f64 :: "f64 \<Rightarrow> f64" where
  "inverse x = divide (1 :: f64) x"

fun less_eq_f64 :: "f64 \<Rightarrow> f64 \<Rightarrow> bool" where
  "NaN \<le> _ \<longleftrightarrow> False"
| "_ \<le> NaN \<longleftrightarrow> False"
| "NInf \<le> _ \<longleftrightarrow> True"
| "_ \<le> PInf \<longleftrightarrow> True"
| "Fin a \<le> Fin b \<longleftrightarrow> a \<le> b"
| "_ \<le> (_ :: f64) \<longleftrightarrow> False"

fun less_f64 :: "f64 \<Rightarrow> f64 \<Rightarrow> bool" where
  "NaN < _ \<longleftrightarrow> False"
| "_ < NaN \<longleftrightarrow> False"
| "NInf < PInf \<longleftrightarrow> True"
| "NInf < Fin _ \<longleftrightarrow> True"
| "Fin _ < PInf \<longleftrightarrow> True"
| "Fin a < Fin b \<longleftrightarrow> a < b"
| "_ < (_ :: f64) \<longleftrightarrow> False"

instance ..

end

text \<open>Go's \<^verbatim>\<open>==\<close>: a NaN equals nothing, itself included.\<close>

definition feq :: "f64 \<Rightarrow> f64 \<Rightarrow> bool" where
  "feq x y \<longleftrightarrow> x \<noteq> NaN \<and> y \<noteq> NaN \<and> x = y"

definition is_nan :: "f64 \<Rightarrow> bool" where
  "is_nan x \<longleftrightarrow> x = NaN"

definition is_inf :: "f64 \<Rightarrow> bool" where
  "is_inf x \<longleftrightarrow> x = PInf \<or> x = NInf"

text \<open>The builtin \<^verbatim>\<open>min\<close> and \<^verbatim>\<open>math.Max\<close>: a NaN operand gives a NaN
  (\<^verbatim>\<open>math.Max\<close> returns +Inf before it looks for one).\<close>

definition fmin :: "f64 \<Rightarrow> f64 \<Rightarrow> f64" where
  "fmin x y = (if x = NaN \<or> y = NaN then NaN else if y < x then y else x)"

definition fmax :: "f64 \<Rightarrow> f64 \<Rightarrow> f64" where
  "fmax x y =
     (if x = PInf \<or> y = PInf then PInf else if x = NaN \<or> y = NaN then NaN
      else if x < y then y else x)"

fun fabs :: "f64 \<Rightarrow> f64" where
  "fabs NaN = NaN"
| "fabs PInf = PInf"
| "fabs NInf = PInf"
| "fabs (Fin a) = Fin \<bar>a\<bar>"

text \<open>\<^verbatim>\<open>math.Round\<close> rounds half away from zero, \<^verbatim>\<open>math.Ceil\<close> up.\<close>

definition round_away :: "rat \<Rightarrow> int" where
  "round_away a = (if 0 \<le> a then \<lfloor>a + 1 / 2\<rfloor> else - \<lfloor>- a + 1 / 2\<rfloor>)"

fun fround :: "f64 \<Rightarrow> f64" where
  "fround (Fin a) = Fin (of_int (round_away a))"
| "fround x = x"

fun fceil :: "f64 \<Rightarrow> f64" where
  "fceil (Fin a) = Fin (of_int \<lceil>a\<rceil>)"
| "fceil x = x"

text \<open>
  The conversion \<^verbatim>\<open>float64(n)\<close> of an integer rounds; \<^verbatim>\<open>int64(x)\<close> truncates towards
  zero.  Outside of the range of \<^verbatim>\<open>int64\<close> (and for NaN) the Go specification leaves the
  result to the implementation; the value here is the one of amd64.
\<close>

definition of_i64 :: "int \<Rightarrow> f64" where
  "of_i64 n = mk (of_int n)"

definition trunc_rat :: "rat \<Rightarrow> int" where
  "trunc_rat a = (if 0 \<le> a then \<lfloor>a\<rfloor> else - \<lfloor>- a\<rfloor>)"

fun to_i64 :: "f64 \<Rightarrow> int" where
  "to_i64 (Fin a) =
     (let n = trunc_rat a in if - (2 ^ 63) \<le> n \<and> n < 2 ^ 63 then n else - (2 ^ 63))"
| "to_i64 _ = - (2 ^ 63)"

section \<open>Rounding: powers of two, monotonicity, exactness\<close>

lemma pow2_pos [simp]: "0 < (2 :: rat) powi k"
  by (simp add: zero_less_power_int)

lemma pow2_Suc: "(2 :: rat) powi (k + 1) = 2 * 2 powi k"
  by (simp add: power_int_add_1')

lemma pow2_le_iff: "(2 :: rat) powi a \<le> 2 powi b \<longleftrightarrow> a \<le> b"
  by (metis linorder_not_less one_le_numeral one_less_numeral_iff power_int_increasing
      power_int_strict_increasing semiring_norm(76))

lemma pow2_less_iff: "(2 :: rat) powi a < 2 powi b \<longleftrightarrow> a < b"
  by (simp add: linorder_not_le [symmetric] pow2_le_iff)

lemma pow2_nat: "0 \<le> k \<Longrightarrow> (2 :: rat) ^ nat k = 2 powi k"
  by (simp add: power_int_def)

lemma bitlen_rat:
  assumes "0 < (p :: int)"
  shows "2 powi (bitlen p - 1) \<le> (of_int p :: rat)" and "(of_int p :: rat) < 2 powi bitlen p"
proof -
  have "1 \<le> bitlen p"
    using assms bitlen_le_iff_power [of p 0] by simp
  moreover have "(of_int (2 ^ nat (bitlen p - 1)) :: rat) \<le> of_int p"
    and "(of_int p :: rat) < of_int (2 ^ nat (bitlen p))"
    using bitlen_bounds [OF assms] by (simp_all only: of_int_le_iff of_int_less_iff)
  ultimately show "2 powi (bitlen p - 1) \<le> (of_int p :: rat)" "(of_int p :: rat) < 2 powi bitlen p"
    by (simp_all add: pow2_nat)
qed

lemma ilog2_bounds:
  assumes "0 < x"
  shows "2 powi ilog2 x \<le> x" and "x < 2 powi (ilog2 x + 1)"
proof -
  obtain p q where pq: "quotient_of x = (p, q)" by fastforce
  have q: "0 < q" using quotient_of_denom_pos [OF pq] .
  have x: "x = of_int p / of_int q" using quotient_of_div [OF pq] .
  with assms q have p: "0 < p" by (simp add: zero_less_divide_iff)
  define k where "k = bitlen p - bitlen q"
  have "x < 2 powi bitlen p / 2 powi (bitlen q - 1)"
    unfolding x by (rule frac_less) (use p q bitlen_rat in auto)
  also have "\<dots> = 2 powi (k + 1)"
    by (simp add: k_def algebra_simps flip: power_int_diff)
  finally have up: "x < 2 powi (k + 1)" .
  have "2 powi (k - 1) = (2 :: rat) powi (bitlen p - 1) / 2 powi bitlen q"
    by (simp add: k_def algebra_simps flip: power_int_diff)
  also have "\<dots> \<le> x"
    unfolding x by (rule frac_le) (use p q bitlen_rat in \<open>auto intro: less_imp_le\<close>)
  finally have lo: "2 powi (k - 1) \<le> x" .
  have il: "ilog2 x = (if 2 powi k \<le> x then k else k - 1)"
    by (simp add: ilog2_def pq k_def)
  show "2 powi ilog2 x \<le> x" "x < 2 powi (ilog2 x + 1)"
    using up lo by (auto simp: il)
qed

lemma ilog2_eqI:
  assumes "2 powi k \<le> x" and "x < 2 powi (k + 1)"
  shows "ilog2 x = k"
proof -
  have x: "0 < x" using assms(1) pow2_pos [of k] by linarith
  from ilog2_bounds [OF x] assms have "2 powi ilog2 x < (2 :: rat) powi (k + 1)"
    and "2 powi k < (2 :: rat) powi (ilog2 x + 1)" by linarith+
  then show ?thesis by (simp add: pow2_less_iff)
qed

lemma ilog2_mono: "0 < x \<Longrightarrow> x \<le> y \<Longrightarrow> ilog2 x \<le> ilog2 y"
proof -
  assume "0 < x" "x \<le> y"
  with ilog2_bounds [of x] ilog2_bounds [of y]
  have "2 powi ilog2 x < (2 :: rat) powi (ilog2 y + 1)" by linarith
  then show ?thesis by (simp add: pow2_less_iff)
qed

lemma rhe_of_int [simp]: "rhe (of_int n) = n"
  by (simp add: rhe_def)

lemma rhe_bounds: "\<lfloor>x\<rfloor> \<le> rhe x" "rhe x \<le> \<lfloor>x\<rfloor> + 1"
  by (auto simp: rhe_def Let_def)

lemma rhe_error: "\<bar>of_int (rhe x) - x\<bar> \<le> 1 / 2"
proof -
  have "of_int \<lfloor>x\<rfloor> \<le> x" and "x < of_int \<lfloor>x\<rfloor> + 1" by linarith+
  then show ?thesis by (auto simp: rhe_def Let_def)
qed

lemma rhe_mono: "x \<le> y \<Longrightarrow> rhe x \<le> rhe y"
proof -
  assume le: "x \<le> y"
  then have fl: "\<lfloor>x\<rfloor> \<le> \<lfloor>y\<rfloor>" by (rule floor_mono)
  show ?thesis
  proof (cases "\<lfloor>x\<rfloor> = \<lfloor>y\<rfloor>")
    case True
    with le show ?thesis by (auto simp: rhe_def Let_def)
  next
    case False
    with fl rhe_bounds [of x] rhe_bounds [of y] show ?thesis by linarith
  qed
qed

lemma rhe_eqI: "\<bar>x - of_int n\<bar> < 1 / 2 \<Longrightarrow> rhe x = n"
proof -
  assume "\<bar>x - of_int n\<bar> < 1 / 2"
  with rhe_error [of x] have "\<bar>of_int (rhe x) - (of_int n :: rat)\<bar> < 1" by linarith
  then show ?thesis by linarith
qed

lemma rhe_minus: "rhe (- x) = - rhe x"
proof (cases "x = of_int \<lfloor>x\<rfloor>")
  case True
  then have "rhe (- x) = rhe (of_int (- \<lfloor>x\<rfloor>))" by simp
  also have "\<dots> = - rhe (of_int \<lfloor>x\<rfloor>)" by (simp only: rhe_of_int)
  finally show ?thesis using True by simp
next
  case False
  then have "\<lfloor>- x\<rfloor> = - \<lfloor>x\<rfloor> - 1" by linarith
  then show ?thesis by (auto simp: rhe_def Let_def)
qed

lemma expo_minus [simp]: "expo (- x) = expo x"
  by (simp add: expo_def)

lemma expo_mono: "0 < x \<Longrightarrow> x \<le> y \<Longrightarrow> expo x \<le> expo y"
  using ilog2_mono [of x y] by (simp add: expo_def)

lemma rnd_0 [simp]: "rnd 0 = 0"
  by (simp add: rnd_def)

lemma rnd_minus: "rnd (- x) = - rnd x"
  by (simp add: rnd_def rhe_minus)

lemma rnd_nonneg: "0 \<le> x \<Longrightarrow> 0 \<le> rnd x"
proof -
  assume "0 \<le> x"
  then have "rhe 0 \<le> rhe (x / 2 powi expo x)"
    by (intro rhe_mono) (simp add: less_imp_le)
  moreover have "rhe 0 = 0" using rhe_of_int [of 0] by simp
  ultimately show ?thesis by (simp add: rnd_def less_imp_le)
qed

lemma rnd_pos_bounds:
  assumes "0 < x"
  shows "rnd x \<le> 2 powi (expo x + 53)"
    and "- 1074 < expo x \<Longrightarrow> 2 powi (expo x + 52) \<le> rnd x"
proof -
  define e where "e = expo x"
  have pe: "0 < (2 :: rat) powi e" by simp
  have "ilog2 x + 1 \<le> e + 53" using assms by (simp add: e_def expo_def)
  then have "x < 2 powi (e + 53)"
    using ilog2_bounds(2) [OF assms] pow2_le_iff [of "ilog2 x + 1" "e + 53"] by linarith
  also have "\<dots> = of_int (2 ^ 53) * 2 powi e"
    by (simp add: power_int_add)
  finally have "x / 2 powi e \<le> of_int (2 ^ 53)"
    using pe by (simp add: divide_le_eq less_imp_le)
  from rhe_mono [OF this] have "rhe (x / 2 powi e) \<le> 2 ^ 53"
    by (simp only: rhe_of_int)
  then have "(of_int (rhe (x / 2 powi e)) :: rat) \<le> of_int (2 ^ 53)" by (simp only: of_int_le_iff)
  then have "of_int (rhe (x / 2 powi e)) * 2 powi e \<le> (of_int (2 ^ 53) :: rat) * 2 powi e"
    using pe by (intro mult_right_mono) simp_all
  then show "rnd x \<le> 2 powi (expo x + 53)"
    using assms by (simp add: rnd_def power_int_add flip: e_def)
next
  assume gt: "- 1074 < expo x"
  define e where "e = expo x"
  have pe: "0 < (2 :: rat) powi e" by simp
  have "ilog2 x = e + 52" using gt assms by (auto simp: e_def expo_def)
  then have "of_int (2 ^ 52) * 2 powi e \<le> x"
    using ilog2_bounds(1) [OF assms] by (simp add: power_int_add)
  then have "of_int (2 ^ 52) \<le> x / 2 powi e"
    using pe by (simp add: le_divide_eq)
  from rhe_mono [OF this] have "2 ^ 52 \<le> rhe (x / 2 powi e)"
    by (simp only: rhe_of_int)
  then have "(of_int (2 ^ 52) :: rat) \<le> of_int (rhe (x / 2 powi e))" by (simp only: of_int_le_iff)
  then have "(of_int (2 ^ 52) :: rat) * 2 powi e \<le> of_int (rhe (x / 2 powi e)) * 2 powi e"
    using pe by (intro mult_right_mono) simp_all
  then show "2 powi (expo x + 52) \<le> rnd x"
    using assms by (simp add: rnd_def power_int_add flip: e_def)
qed

lemma rnd_mono_pos:
  assumes "0 < x" and "x \<le> y"
  shows "rnd x \<le> rnd y"
proof (cases "expo x = expo y")
  case True
  have "x / 2 powi expo y \<le> y / 2 powi expo y"
    using assms by (simp add: divide_right_mono less_imp_le)
  from rhe_mono [OF this] assms True show ?thesis
    by (simp add: rnd_def mult_right_mono less_imp_le)
next
  case False
  with expo_mono [OF assms] have lt: "expo x + 1 \<le> expo y" by simp
  moreover have "- 1074 \<le> expo x" by (simp add: expo_def)
  ultimately have "2 powi (expo y + 52) \<le> rnd y"
    using rnd_pos_bounds(2) [of y] assms by simp
  moreover have "rnd x \<le> 2 powi (expo x + 53)" using rnd_pos_bounds(1) assms(1) by blast
  moreover have "(2 :: rat) powi (expo x + 53) \<le> 2 powi (expo y + 52)"
    using lt by (simp add: pow2_le_iff)
  ultimately show ?thesis by linarith
qed

lemma rnd_mono: "x \<le> y \<Longrightarrow> rnd x \<le> rnd y"
proof -
  assume le: "x \<le> y"
  consider "0 < x" | "x \<le> 0" "0 \<le> y" | "y < 0" using le by linarith
  then show ?thesis
  proof cases
    case 1
    then show ?thesis using le by (rule rnd_mono_pos)
  next
    case 2
    then have "0 \<le> rnd (- x)" and "0 \<le> rnd y" by (simp_all add: rnd_nonneg)
    then show ?thesis by (simp add: rnd_minus)
  next
    case 3
    then have "rnd (- y) \<le> rnd (- x)" using le by (intro rnd_mono_pos) simp_all
    then show ?thesis by (simp add: rnd_minus)
  qed
qed

lemma rnd_nonpos: "x \<le> 0 \<Longrightarrow> rnd x \<le> 0"
  using rnd_mono [of x 0] by simp

text \<open>The dyadic grid: multiples of \<open>2 powi k\<close> with at most 53 significant bits are exact.\<close>

lemma rnd_scaled:
  assumes "x = of_int m * 2 powi k" and "expo x \<le> k"
  shows "rnd x = x"
proof (cases "x = 0")
  case False
  have "x / 2 powi expo x = of_int m * 2 powi (k - expo x)"
    using assms(1) by (simp add: power_int_diff)
  also have "\<dots> = of_int (m * 2 ^ nat (k - expo x))"
    using assms(2) by (simp add: pow2_nat)
  finally have "of_int (rhe (x / 2 powi expo x)) = x / 2 powi expo x"
    by (simp only: rhe_of_int)
  then show ?thesis using False by (simp add: rnd_def)
qed simp

lemma rnd_grid:
  assumes "\<bar>m\<bar> \<le> 2 ^ 53" and "- 1074 \<le> k"
  shows "rnd (of_int m * 2 powi k) = of_int m * 2 powi k"
proof (cases "m = 0 \<or> expo (of_int m * 2 powi k) \<le> k")
  case True
  then show ?thesis using rnd_scaled by force
next
  case False
  let ?x = "of_int m * 2 powi k :: rat"
  have "k + 53 \<le> ilog2 \<bar>?x\<bar>" using False assms(2) by (simp add: expo_def split: if_splits)
  then have "2 powi (k + 53) \<le> (2 :: rat) powi ilog2 \<bar>?x\<bar>" by (simp add: pow2_le_iff)
  also have "\<dots> \<le> \<bar>?x\<bar>" using False by (intro ilog2_bounds) simp
  finally have "(of_int (2 ^ 53) :: rat) * 2 powi k \<le> of_int \<bar>m\<bar> * 2 powi k"
    by (simp add: power_int_add abs_mult)
  then have "2 ^ 53 \<le> \<bar>m\<bar>"
    by (simp only: mult_le_cancel_right_pos pow2_pos of_int_le_iff)
  with assms(1) have m: "\<bar>m\<bar> = 2 ^ 53" by simp
  have x: "?x = of_int (sgn m * 2 ^ 52) * 2 powi (k + 1)"
  proof (cases "0 \<le> m")
    case True
    with m have "m = 2 ^ 53" by simp
    then show ?thesis by (simp add: power_int_add)
  next
    case False
    with m have "m = - (2 ^ 53)" by simp
    then show ?thesis by (simp add: power_int_add)
  qed
  have "\<bar>?x\<bar> = 2 powi (k + 53)" using m by (simp add: abs_mult power_int_add flip: of_int_abs)
  then have "expo ?x \<le> k + 1"
    using assms(2) ilog2_eqI [of "k + 53" "\<bar>?x\<bar>"] by (simp add: expo_def pow2_less_iff)
  then show ?thesis by (rule rnd_scaled [OF x])
qed

text \<open>A closed value is rounded by exhibiting its unit in the last place and its nearest multiple.\<close>

lemma rnd_eqI:
  assumes "2 powi (e + 52) \<le> \<bar>x\<bar>" and "\<bar>x\<bar> < 2 powi (e + 53)" and "- 1074 \<le> e"
    and "\<bar>x / 2 powi e - of_int n\<bar> < 1 / 2"
  shows "rnd x = of_int n * 2 powi e"
proof -
  have x: "0 < \<bar>x\<bar>" using assms(1) pow2_pos [of "e + 52"] by linarith
  have "ilog2 \<bar>x\<bar> = e + 52" using assms(1,2) by (intro ilog2_eqI) (simp_all add: algebra_simps)
  then have "expo x = e" using assms(3) by (simp add: expo_def)
  then show ?thesis using x rhe_eqI [OF assms(4)] by (simp add: rnd_def)
qed

lemma rnd_rel:
  assumes "2 powi k \<le> \<bar>x\<bar>" and "- 1022 \<le> k"
  shows "\<bar>rnd x - x\<bar> \<le> \<bar>x\<bar> * 2 powi (- 53)"
proof -
  have x: "0 < \<bar>x\<bar>" using assms(1) pow2_pos [of k] by linarith
  with assms(1) ilog2_bounds [OF x] have "2 powi k < (2 :: rat) powi (ilog2 \<bar>x\<bar> + 1)"
    by linarith
  then have e: "expo x = ilog2 \<bar>x\<bar> - 52" using assms(2) by (simp add: pow2_less_iff expo_def)
  define p where "p = (2 :: rat) powi expo x"
  have p: "0 < p" by (simp add: p_def)
  have "\<bar>rnd x - x\<bar> = \<bar>of_int (rhe (x / p)) - x / p\<bar> * p"
    using x p by (simp add: rnd_def p_def abs_mult flip: abs_mult_pos) (simp add: field_simps)
  also have "\<dots> \<le> 1 / 2 * p" using rhe_error p by (intro mult_right_mono) simp_all
  also have "\<dots> = 2 powi ilog2 \<bar>x\<bar> * 2 powi (- 53)"
    by (simp add: p_def e power_int_diff power_int_minus)
  also have "\<dots> \<le> \<bar>x\<bar> * 2 powi (- 53)"
    using ilog2_bounds(1) [OF x] by (intro mult_right_mono) simp_all
  finally show ?thesis .
qed

lemma rnd_of_int: "\<bar>n\<bar> \<le> 2 ^ 53 \<Longrightarrow> rnd (of_int n) = of_int n"
  using rnd_grid [of n 0] by simp

lemma rnd_pow2: "- 1074 \<le> k \<Longrightarrow> rnd (2 powi k) = 2 powi k"
  using rnd_grid [of 1 k] by simp

section \<open>Properties of the operations\<close>

lemma le_rnd_bound: "x \<le> 2 ^ n \<Longrightarrow> rnd x \<le> 2 ^ n"
  using rnd_mono [of x "2 ^ n"] rnd_pow2 [of "int n"] by simp

lemma f64_lim_pos: "0 < f64_lim"
  unfolding f64_lim_def by (rule zero_less_power) simp

lemma mk_cases:
  obtains (PInf) "mk x = PInf" "0 < x" | (NInf) "mk x = NInf" "x < 0" | (Fin) "mk x = Fin (rnd x)"
proof -
  have "\<not> 0 < x \<Longrightarrow> rnd x < f64_lim"
    using rnd_nonpos [of x] f64_lim_pos by linarith
  moreover have "\<not> x < 0 \<Longrightarrow> - f64_lim < rnd x"
    using rnd_nonneg [of x] f64_lim_pos by linarith
  ultimately show ?thesis
    using that by (cases "f64_lim \<le> rnd x"; cases "rnd x \<le> - f64_lim") (auto simp: mk_def Let_def)
qed

lemma mk_Fin:
  assumes "\<bar>x\<bar> \<le> 2 ^ n" and "n < 1024"
  shows "mk x = Fin (rnd x)"
proof -
  have "rnd x \<le> 2 ^ n" and "rnd (- x) \<le> 2 ^ n"
    using assms(1) by (intro le_rnd_bound; linarith)+
  moreover have "(2 :: rat) ^ n < f64_lim"
    unfolding f64_lim_def using assms(2) by (intro power_strict_increasing) simp_all
  ultimately show ?thesis by (simp add: mk_def Let_def rnd_minus)
qed

lemma mk_grid:
  assumes "\<bar>m\<bar> \<le> 2 ^ 53" and "- 1074 \<le> k" and "k \<le> int n" and "n < 971"
  shows "mk (of_int m * 2 powi k) = Fin (of_int m * 2 powi k)"
proof -
  have "\<bar>of_int m :: rat\<bar> \<le> of_int (2 ^ 53)" using assms(1) by (metis of_int_abs of_int_le_iff)
  moreover have "(2 :: rat) powi k \<le> 2 powi int n" using assms(3) by (simp only: pow2_le_iff)
  ultimately have "\<bar>of_int m\<bar> * 2 powi k \<le> of_int (2 ^ 53) * (2 :: rat) powi int n"
    by (intro mult_mono) simp_all
  also have "\<dots> = 2 ^ (53 + n)" by (simp add: power_add)
  finally have "\<bar>of_int m * 2 powi k\<bar> \<le> (2 :: rat) ^ (53 + n)" by (simp add: abs_mult)
  then show ?thesis using rnd_grid [OF assms(1,2)] assms(4) by (simp add: mk_Fin)
qed

lemma mk_of_int: "\<bar>n\<bar> \<le> 2 ^ 53 \<Longrightarrow> mk (of_int n) = Fin (of_int n)"
  using mk_grid [of n 0 0] by simp

lemma mk_0 [simp]: "mk 0 = Fin 0"
  using mk_of_int [of 0] by simp

lemma mk_nonneg: "0 \<le> x \<Longrightarrow> Fin 0 \<le> mk x"
  by (cases x rule: mk_cases) (simp_all add: rnd_nonneg)

lemma mk_mono: "x \<le> y \<Longrightarrow> mk x \<le> mk y"
proof -
  assume "x \<le> y"
  then have "rnd x \<le> rnd y" by (rule rnd_mono)
  then show ?thesis by (auto simp: mk_def Let_def)
qed

lemma mk_minus: "mk (- x) = - mk x"
proof -
  have "\<not> (f64_lim \<le> rnd x \<and> rnd x \<le> - f64_lim)" using f64_lim_pos by linarith
  then show ?thesis by (auto simp: mk_def Let_def rnd_minus)
qed

text \<open>The order of the values that are not NaN is linear; \<^verbatim>\<open>less_eq\<close> and \<^verbatim>\<open>less\<close> agree.\<close>

lemma f64_le_NaN [simp]: "\<not> x \<le> NaN" "\<not> x < NaN" "\<not> NaN \<le> x" "\<not> NaN < x"
  by (cases x; simp)+

lemma f64_le_refl: "x \<noteq> NaN \<Longrightarrow> x \<le> (x :: f64)"
  by (cases x) simp_all

lemma f64_less_imp_le: "x < y \<Longrightarrow> x \<le> (y :: f64)"
  by (cases x; cases y) simp_all

lemma f64_le_trans [trans]: "x \<le> y \<Longrightarrow> y \<le> z \<Longrightarrow> x \<le> (z :: f64)"
  by (cases x; cases y; cases z) simp_all

lemma f64_le_less_trans [trans]: "x \<le> y \<Longrightarrow> y < z \<Longrightarrow> x < (z :: f64)"
  by (cases x; cases y; cases z) simp_all

lemma f64_less_le_trans [trans]: "x < y \<Longrightarrow> y \<le> z \<Longrightarrow> x < (z :: f64)"
  by (cases x; cases y; cases z) simp_all

lemma f64_not_le: "x \<noteq> NaN \<Longrightarrow> y \<noteq> NaN \<Longrightarrow> \<not> x \<le> y \<longleftrightarrow> y < (x :: f64)"
  by (cases x; cases y) auto

lemma f64_not_less: "x \<noteq> NaN \<Longrightarrow> y \<noteq> NaN \<Longrightarrow> \<not> x < y \<longleftrightarrow> y \<le> (x :: f64)"
  by (cases x; cases y) auto

lemma f64_less_irrefl: "\<not> x < (x :: f64)"
  by (cases x) simp_all

lemma f64_less_asym: "x < y \<Longrightarrow> \<not> y \<le> (x :: f64)"
  by (cases x; cases y) simp_all

lemma f64_antisym: "x \<le> y \<Longrightarrow> y \<le> x \<Longrightarrow> x = (y :: f64)"
  by (cases x; cases y) simp_all

lemma mk_not_NaN [simp]: "mk x \<noteq> NaN" "NaN \<noteq> mk x"
  by (simp_all add: mk_def Let_def)

lemma feq_0: "feq x 0 \<longleftrightarrow> x = Fin 0" "feq x (Fin 0) \<longleftrightarrow> x = Fin 0"
  by (auto simp: feq_def zero_f64_def)

lemma f64_add_NaN [simp]: "x + NaN = NaN"
  by (cases x) simp_all

lemma f64_add_commute: "x + y = y + (x :: f64)"
  by (cases x; cases y) (simp_all add: add.commute)

lemma f64_add_nonneg: "0 \<le> x \<Longrightarrow> 0 \<le> y \<Longrightarrow> 0 \<le> x + (y :: f64)"
  by (cases x; cases y) (simp_all add: zero_f64_def mk_nonneg)

lemma f64_add_left_mono: "y \<le> z \<Longrightarrow> x + y \<noteq> NaN \<Longrightarrow> x + z \<noteq> NaN \<Longrightarrow> x + y \<le> x + (z :: f64)"
proof (cases x; cases y; cases z)
  fix a b assume "x = Fin a" "y = Fin b" "z = PInf"
  then show "x + y \<le> x + z" by (cases "a + b" rule: mk_cases) simp_all
next
  fix a b assume "x = Fin a" "y = NInf" "z = Fin b"
  then show "x + y \<le> x + z" by (cases "a + b" rule: mk_cases) simp_all
qed (auto intro: mk_mono)

lemma f64_add_ge:
  assumes "rnd a = a" and "\<bar>a\<bar> < f64_lim" and "0 \<le> y"
  shows "Fin a \<le> Fin a + y"
proof -
  have "mk a = Fin a" using assms(1,2) by (auto simp: mk_def Let_def)
  moreover have "y = Fin b \<Longrightarrow> mk a \<le> mk (a + b)" for b
    using assms(3) by (intro mk_mono) (simp add: zero_f64_def)
  ultimately show ?thesis using assms(3) by (cases y) (simp_all add: zero_f64_def)
qed

lemma f64_mult_nonneg: "0 \<le> x \<Longrightarrow> 0 \<le> y \<Longrightarrow> x * y \<noteq> NaN \<Longrightarrow> 0 \<le> x * (y :: f64)"
  by (cases x; cases y) (auto simp: zero_f64_def mk_nonneg split: if_splits)

lemma f64_diff_Fin: "Fin a - Fin b = mk (a - b)"
  by (simp add: minus_f64_def)

lemma f64_div_Fin: "b \<noteq> 0 \<Longrightarrow> Fin a / Fin b = mk (a / b)"
  by simp

section \<open>Representable values\<close>

text \<open>The rationals that are \<^verbatim>\<open>float64\<close> values; every operation returns one.\<close>

lemma rnd_idem_pos: "0 < x \<Longrightarrow> rnd (rnd x) = rnd x"
proof -
  assume x: "0 < x"
  define m where "m = rhe (x / 2 powi expo x)"
  have r: "rnd x = of_int m * 2 powi expo x" using x by (simp add: rnd_def m_def)
  have "of_int m * 2 powi expo x \<le> 2 powi 53 * (2 :: rat) powi expo x"
    using rnd_pos_bounds(1) [OF x] by (simp add: r power_int_add mult.commute)
  then have "(of_int m :: rat) \<le> 2 powi 53" by (simp add: mult_le_cancel_right not_less less_imp_le)
  then have "(of_int m :: rat) \<le> of_int (2 ^ 53)" by simp
  then have "m \<le> 2 ^ 53" by (simp only: of_int_le_iff)
  moreover have "0 \<le> m"
    using rnd_nonneg [of x] x pow2_pos [of "expo x"] unfolding r by (auto simp: zero_le_mult_iff)
  moreover have "- 1074 \<le> expo x" by (simp add: expo_def)
  ultimately show ?thesis unfolding r by (intro rnd_grid) simp_all
qed

lemma rnd_idem [simp]: "rnd (rnd x) = rnd x"
  using rnd_idem_pos [of x] rnd_idem_pos [of "- x"] by (cases "0 < x"; cases "x = 0") (simp_all add: rnd_minus)

fun representable :: "f64 \<Rightarrow> bool" where
  "representable (Fin a) \<longleftrightarrow> rnd a = a \<and> \<bar>a\<bar> < f64_lim"
| "representable _ \<longleftrightarrow> True"

lemma representable_mk [simp]: "representable (mk x)"
  by (auto simp: mk_def Let_def)

lemma representable_0 [simp]: "representable 0" "representable (Fin 0)"
  by (simp_all add: zero_f64_def f64_lim_pos)

lemma representable_add [simp]: "representable (x + y)"
  by (cases x; cases y) simp_all

lemma representable_diff [simp]: "representable (x - y)"
  by (simp add: minus_f64_def)

lemma f64_le_add: "representable x \<Longrightarrow> 0 \<le> y \<Longrightarrow> x + y \<noteq> NaN \<Longrightarrow> x \<le> x + y"
proof (cases x)
  case (Fin a)
  assume "representable x" "0 \<le> y"
  then show ?thesis using Fin f64_add_ge [of a y] by simp
qed (cases y; simp)+

section \<open>The dollar grid\<close>

text \<open>
  Amounts that are multiples of \<open>2 powi -32\<close> dollars (about a quarter of a nano-dollar) and of
  magnitude at most \<open>2 ^ 21\<close> dollars are added and subtracted without rounding.
\<close>

definition on_grid :: "rat \<Rightarrow> bool" where
  "on_grid a \<longleftrightarrow> a * 2 ^ 32 \<in> \<int>"

lemma on_grid_add [simp, intro]: "on_grid a \<Longrightarrow> on_grid b \<Longrightarrow> on_grid (a + b)"
  by (simp add: on_grid_def distrib_right)

lemma on_grid_diff [simp, intro]: "on_grid a \<Longrightarrow> on_grid b \<Longrightarrow> on_grid (a - b)"
  by (simp add: on_grid_def left_diff_distrib)

lemma on_grid_0 [simp]: "on_grid 0"
  by (simp add: on_grid_def)

lemma on_grid_min [simp, intro]: "on_grid a \<Longrightarrow> on_grid b \<Longrightarrow> on_grid (min a b)"
  by (simp add: min_def)

lemma on_grid_max [simp, intro]: "on_grid a \<Longrightarrow> on_grid b \<Longrightarrow> on_grid (max a b)"
  by (simp add: max_def)

lemma on_grid_sum_list [simp, intro]: "(\<And>a. a \<in> set as \<Longrightarrow> on_grid a) \<Longrightarrow> on_grid (sum_list as)"
  by (induction as) auto

lemma mk_on_grid:
  assumes "on_grid a" and "\<bar>a\<bar> \<le> 2 ^ 21"
  shows "mk a = Fin a"
proof -
  from assms(1) obtain m where m: "a * 2 ^ 32 = of_int m"
    unfolding on_grid_def by (auto elim: Ints_cases)
  have "\<bar>a * 2 ^ 32\<bar> \<le> 2 ^ 21 * 2 ^ 32"
    using assms(2) by (simp add: abs_mult)
  then have "\<bar>m\<bar> \<le> 2 ^ 53" unfolding m by (simp flip: of_int_abs)
  then have "mk (of_int m * 2 powi (- 32)) = Fin (of_int m * 2 powi (- 32))"
    using mk_grid [of m "- 32" 0] by simp
  moreover have "of_int m * 2 powi (- 32) = a" using m by (simp add: field_simps)
  ultimately show ?thesis by (simp only:)
qed

lemma grid_add: "on_grid a \<Longrightarrow> on_grid b \<Longrightarrow> \<bar>a + b\<bar> \<le> 2 ^ 21 \<Longrightarrow> Fin a + Fin b = Fin (a + b)"
  using mk_on_grid [of "a + b"] by simp

lemma grid_diff: "on_grid a \<Longrightarrow> on_grid b \<Longrightarrow> \<bar>a - b\<bar> \<le> 2 ^ 21 \<Longrightarrow> Fin a - Fin b = Fin (a - b)"
  using mk_on_grid [of "a - b"] by (simp add: f64_diff_Fin)

end
