(* ===== verification/GoTime.thy ===== *)
theory GoTime
  imports Prelude "HOL-Library.List_Lexorder"
begin

text \<open>
  Dates and their text: the layouts of \<^verbatim>\<open>time.Time.Format\<close> the sources use.  The calendar is
  the proleptic Gregorian one, for the years 0 to 9999 that these layouts print with four
  digits.

  The offset of a \<^verbatim>\<open>time.Location\<close> from UTC, in nanoseconds, comes from the time zone
  database: it is a parameter \<open>loc\<close>, a function of the instant.

  Text columns of SQLite are compared byte by byte, which is the lexicographic order of
  \<^verbatim>\<open>HOL-Library.List_Lexorder\<close> on \<^typ>\<open>string\<close>.  The last lemmas compare that order with the
  order of the instants for the two timestamp layouts of the repository.
\<close>

section \<open>Calendar\<close>

definition day_ns :: int where
  "day_ns = 86400000000000"

definition day_of :: "gotime \<Rightarrow> int" where
  "day_of t = t div day_ns"

text \<open>Year, month and day of a day number; day 0 is 0001-01-01, a Monday.\<close>

definition civil :: "int \<Rightarrow> int \<times> int \<times> int" where
  "civil n =
     (let z = n + 306; era = z div 146097; doe = z mod 146097;
          yoe = (doe - doe div 1460 + doe div 36524 - doe div 146096) div 365;
          doy = doe - (365 * yoe + yoe div 4 - yoe div 100);
          mp = (5 * doy + 2) div 153;
          d = doy - (153 * mp + 2) div 5 + 1;
          m = (if mp < 10 then mp + 3 else mp - 9)
      in (yoe + era * 400 + (if m \<le> 2 then 1 else 0), m, d))"

definition year_start :: "int \<Rightarrow> int" where
  "year_start y = 365 * (y - 1) + (y - 1) div 4 - (y - 1) div 100 + (y - 1) div 400"

text \<open>\<^verbatim>\<open>t.ISOWeek()\<close>: the year and the week of the Thursday of the day's week.\<close>

definition iso_week :: "int \<Rightarrow> int \<times> int" where
  "iso_week n =
     (let th = n - n mod 7 + 3; y = fst (civil th) in (y, (th - year_start y) div 7 + 1))"

section \<open>Layouts\<close>

fun digits :: "nat \<Rightarrow> int \<Rightarrow> string" where
  "digits 0 _ = []"
| "digits (Suc k) n = digits k (n div 10) @ [char_of (nat (48 + n mod 10))]"

lemma length_digits [simp]: "length (digits k n) = k"
  by (induction k arbitrary: n) simp_all

definition fmt_day :: "int \<Rightarrow> string" where
  "fmt_day n = (case civil n of (y, m, d) \<Rightarrow> digits 4 y @ ''-'' @ digits 2 m @ ''-'' @ digits 2 d)"

definition fmt_month :: "int \<Rightarrow> string" where
  "fmt_month n = (case civil n of (y, m, d) \<Rightarrow> digits 4 y @ ''-'' @ digits 2 m)"

definition fmt_week :: "int \<Rightarrow> string" where
  "fmt_week n = (case iso_week n of (y, w) \<Rightarrow> digits 4 y @ ''-W'' @ digits 2 w)"

text \<open>\<^verbatim>\<open>2006-01-02\<close>, \<^verbatim>\<open>2006-01-02T15:04\<close> and \<^verbatim>\<open>2006-01-02T15:04:05\<close>.\<close>

definition fmt_minute :: "gotime \<Rightarrow> string" where
  "fmt_minute t =
     (let s = (t mod day_ns) div 1000000000
      in fmt_day (day_of t) @ ''T'' @ digits 2 (s div 3600) @ '':'' @ digits 2 (s div 60 mod 60))"

definition fmt_second :: "gotime \<Rightarrow> string" where
  "fmt_second t = fmt_minute t @ '':'' @ digits 2 ((t mod day_ns) div 1000000000 mod 60)"

text \<open>\<^verbatim>\<open>time.RFC3339Nano\<close> drops the trailing zeros of the fraction, and the point with the last one.\<close>

definition frac_nano :: "gotime \<Rightarrow> string" where
  "frac_nano t =
     (let fs = rev (dropWhile (\<lambda>c. c = CHR ''0'') (rev (digits 9 (t mod 1000000000))))
      in if fs = [] then [] else CHR ''.'' # fs)"

definition rfc3339nano :: "gotime \<Rightarrow> string" where
  "rfc3339nano t = fmt_second t @ frac_nano t @ ''Z''"

text \<open>The layout of \<^verbatim>\<open>pkg/proxy/spendoutbox\<close> keeps all nine digits.\<close>

definition sqlite_time :: "gotime \<Rightarrow> string" where
  "sqlite_time t = fmt_second t @ ''.'' @ digits 9 (t mod 1000000000) @ ''Z''"

section \<open>Text order and time order\<close>

lemma less_append_eqlen:
  fixes a b x y :: string
  assumes "length a = length b"
  shows "a @ x < b @ y \<longleftrightarrow> a < b \<or> a = b \<and> x < y"
  using assms by (induction a b rule: list_induct2) auto

lemma digit_char_less:
  "0 \<le> d \<Longrightarrow> d < 10 \<Longrightarrow> 0 \<le> e \<Longrightarrow> e < 10 \<Longrightarrow>
     (char_of (nat (48 + d)) :: char) < char_of (nat (48 + e)) \<longleftrightarrow> d < (e :: int)"
  by (simp add: less_char_def nat_mono_iff)

text \<open>Quotients and remainders order like digits: hours, minutes, seconds, nanoseconds.\<close>

lemma div_mod_less:
  fixes x y b :: int
  assumes "0 < b"
  shows "x < y \<longleftrightarrow> x div b < y div b \<or> x div b = y div b \<and> x mod b < y mod b"
proof -
  have lt: "x < y" if "x div b < y div b" for x y
    using that assms zdiv_mono1 [of y x b] by linarith
  show ?thesis
  proof (cases "x div b = y div b")
    case True
    then show ?thesis by (metis add_less_cancel_left div_mult_mod_eq less_irrefl)
  next
    case False
    then show ?thesis using lt [of x y] lt [of y x] by linarith
  qed
qed

lemma div_mod_eq:
  fixes x y b :: int
  shows "x = y \<longleftrightarrow> x div b = y div b \<and> x mod b = y mod b"
  by (metis div_mult_mod_eq)

lemma digits_inj_less:
  "0 \<le> m \<Longrightarrow> m < 10 ^ k \<Longrightarrow> 0 \<le> n \<Longrightarrow> n < 10 ^ k \<Longrightarrow>
     (digits k m = digits k n \<longleftrightarrow> m = n) \<and> (digits k m < digits k n \<longleftrightarrow> m < n)"
proof (induction k arbitrary: m n)
  case (Suc k)
  have "m div 10 < 10 ^ k" "n div 10 < 10 ^ k" using Suc.prems by simp_all
  then have IH: "(digits k (m div 10) = digits k (n div 10) \<longleftrightarrow> m div 10 = n div 10)"
    "(digits k (m div 10) < digits k (n div 10) \<longleftrightarrow> m div 10 < n div 10)"
    using Suc.IH [of "m div 10" "n div 10"] Suc.prems by simp_all
  have lt: "(char_of (nat (48 + m mod 10)) :: char) < char_of (nat (48 + n mod 10)) \<longleftrightarrow> m mod 10 < n mod 10"
    by (rule digit_char_less) simp_all
  have gt: "(char_of (nat (48 + n mod 10)) :: char) < char_of (nat (48 + m mod 10)) \<longleftrightarrow> n mod 10 < m mod 10"
    by (rule digit_char_less) simp_all
  have eq: "(char_of (nat (48 + m mod 10)) :: char) = char_of (nat (48 + n mod 10)) \<longleftrightarrow> m mod 10 = n mod 10"
    using lt gt by (metis less_irrefl linorder_neqE)
  have "m = n \<longleftrightarrow> m div 10 = n div 10 \<and> m mod 10 = n mod 10"
    by (rule div_mod_eq)
  moreover have "m < n \<longleftrightarrow> m div 10 < n div 10 \<or> m div 10 = n div 10 \<and> m mod 10 < n mod 10"
    by (rule div_mod_less) simp
  ultimately show ?case using IH eq lt by (simp add: less_append_eqlen)
qed simp

lemma digits_eq_iff: "0 \<le> m \<Longrightarrow> m < 10 ^ k \<Longrightarrow> 0 \<le> n \<Longrightarrow> n < 10 ^ k \<Longrightarrow> digits k m = digits k n \<longleftrightarrow> m = n"
  using digits_inj_less by blast

lemma digits_less_iff: "0 \<le> m \<Longrightarrow> m < 10 ^ k \<Longrightarrow> 0 \<le> n \<Longrightarrow> n < 10 ^ k \<Longrightarrow> digits k m < digits k n \<longleftrightarrow> m < n"
  using digits_inj_less by blast

lemma div_3600: "s div 3600 = s div 60 div (60 :: int)"
  by (simp flip: zdiv_zmult2_eq)

lemma fmt_second_clock:
  "fmt_second t =
     (let s = (t mod day_ns) div 1000000000
      in fmt_day (day_of t) @ ''T'' @ digits 2 (s div 60 div 60) @ '':'' @ digits 2 (s div 60 mod 60)
           @ '':'' @ digits 2 (s mod 60))"
  by (simp add: fmt_second_def fmt_minute_def Let_def div_3600)

lemma clock_text_order:
  fixes h m c h' m' c' :: int
  assumes "h \<in> {0..<100}" "h' \<in> {0..<100}" "m \<in> {0..<60}" "m' \<in> {0..<60}" "c \<in> {0..<60}" "c' \<in> {0..<60}"
  shows "p @ ''T'' @ digits 2 h @ '':'' @ digits 2 m @ '':'' @ digits 2 c <
           p @ ''T'' @ digits 2 h' @ '':'' @ digits 2 m' @ '':'' @ digits 2 c' \<longleftrightarrow>
         h < h' \<or> h = h' \<and> (m < m' \<or> m = m' \<and> c < c')"
    and "p @ ''T'' @ digits 2 h @ '':'' @ digits 2 m @ '':'' @ digits 2 c =
           p @ ''T'' @ digits 2 h' @ '':'' @ digits 2 m' @ '':'' @ digits 2 c' \<longleftrightarrow>
         h = h' \<and> m = m' \<and> c = c'"
  using assms by (simp_all add: less_append_eqlen digits_eq_iff digits_less_iff)

lemma fmt_second_order:
  assumes "day_of t = day_of u"
  defines "s \<equiv> (t mod day_ns) div 1000000000" and "s' \<equiv> (u mod day_ns) div 1000000000"
  shows "fmt_second t < fmt_second u \<longleftrightarrow> s < s'" and "fmt_second t = fmt_second u \<longleftrightarrow> s = s'"
proof -
  have b: "0 \<le> s" "s < 86400" "0 \<le> s'" "s' < 86400"
    by (simp_all add: s_def s'_def day_ns_def)
  then have h: "s div 60 div 60 \<in> {0..<100}" "s' div 60 div 60 \<in> {0..<100}"
    by (auto simp flip: zdiv_zmult2_eq)
  have m: "x mod 60 \<in> {0..<60}" for x :: int by simp
  note order = clock_text_order [OF h m m m m]
  have lt: "s < s' \<longleftrightarrow> s div 60 div 60 < s' div 60 div 60 \<or> s div 60 div 60 = s' div 60 div 60 \<and>
      (s div 60 mod 60 < s' div 60 mod 60 \<or> s div 60 mod 60 = s' div 60 mod 60 \<and> s mod 60 < s' mod 60)"
    using div_mod_less [of 60 s s', OF zero_less_numeral]
      div_mod_less [of 60 "s div 60" "s' div 60", OF zero_less_numeral]
      div_mod_eq [of "s div 60" "s' div 60" 60] by blast
  have eq: "s = s' \<longleftrightarrow> s div 60 div 60 = s' div 60 div 60 \<and> s div 60 mod 60 = s' div 60 mod 60 \<and> s mod 60 = s' mod 60"
    using div_mod_eq [of s s' 60] div_mod_eq [of "s div 60" "s' div 60" 60] by blast
  show "fmt_second t < fmt_second u \<longleftrightarrow> s < s'"
    unfolding fmt_second_clock Let_def s_def [symmetric] s'_def [symmetric] assms(1) lt by (rule order(1))
  show "fmt_second t = fmt_second u \<longleftrightarrow> s = s'"
    unfolding fmt_second_clock Let_def s_def [symmetric] s'_def [symmetric] assms(1) eq by (rule order(2))
qed

lemma ns_parts: "t = day_of t * day_ns + (t mod day_ns) div 1000000000 * 1000000000 + t mod 1000000000"
proof -
  have "t mod day_ns mod 1000000000 = t mod 1000000000"
    by (rule mod_mod_cancel) (simp add: day_ns_def)
  then show ?thesis
    using div_mult_mod_eq [of t day_ns] div_mult_mod_eq [of "t mod day_ns" 1000000000]
    unfolding day_of_def by linarith
qed

lemma sqlite_time_order:
  assumes "day_of t = day_of u"
  shows "sqlite_time t < sqlite_time u \<longleftrightarrow> t < u"
proof -
  define s where "s = (t mod day_ns) div 1000000000"
  define s' where "s' = (u mod day_ns) div 1000000000"
  have ns: "digits 9 (t mod 1000000000) < digits 9 (u mod 1000000000) \<longleftrightarrow> t mod 1000000000 < u mod 1000000000"
    by (rule digits_less_iff) simp_all
  have "length (fmt_second t) = length (fmt_second u)"
    using assms by (simp add: fmt_second_def fmt_minute_def Let_def)
  then have "sqlite_time t < sqlite_time u \<longleftrightarrow> s < s' \<or> s = s' \<and> t mod 1000000000 < u mod 1000000000"
    using fmt_second_order [OF assms] ns
    by (simp add: sqlite_time_def less_append_eqlen s_def s'_def)
  also have "\<dots> \<longleftrightarrow> t < u"
    using ns_parts [of t] ns_parts [of u] assms
      pos_mod_bound [of 1000000000 t] pos_mod_bound [of 1000000000 u]
      pos_mod_sign [of 1000000000 t] pos_mod_sign [of 1000000000 u]
    unfolding s_def [symmetric] s'_def [symmetric] by auto
  finally show ?thesis .
qed

text \<open>
  \<^verbatim>\<open>RFC3339Nano\<close> does not keep the order: within a second, the instant with no fraction has
  the greatest text, because \<^verbatim>\<open>Z\<close> is above the point.
\<close>

lemma same_second:
  assumes "t mod 1000000000 = 0" and "0 \<le> d" and "d < 1000000000"
  shows "day_of (t + d) = day_of t" and "((t + d) mod day_ns) div 1000000000 = (t mod day_ns) div 1000000000"
    and "(t + d) mod 1000000000 = d"
proof -
  obtain k where k: "t = 1000000000 * k" using assms(1) by (auto simp: mod_eq_0_iff_dvd)
  have m: "t mod day_ns = 1000000000 * (k mod 86400)"
    by (simp add: k day_ns_def mod_mult_mult1 [of 1000000000 k 86400, symmetric] flip: mult.assoc)
  have "k mod 86400 < 86400" "0 \<le> k mod 86400" by simp_all
  then have "t mod day_ns + d < day_ns" "0 \<le> t mod day_ns + d"
    using assms m by (simp_all add: day_ns_def)
  then have dm: "(t + d) mod day_ns = t mod day_ns + d" "(t + d) div day_ns = t div day_ns"
    using int_mod_pos_eq [of "t + d" day_ns "t div day_ns" "t mod day_ns + d"]
      int_div_pos_eq [of "t + d" day_ns "t div day_ns" "t mod day_ns + d"] by simp_all
  then show "day_of (t + d) = day_of t" by (simp add: day_of_def)
  show "((t + d) mod day_ns) div 1000000000 = (t mod day_ns) div 1000000000"
    using assms by (simp add: dm m)
  show "(t + d) mod 1000000000 = d" using assms k by simp
qed

lemma digits_0: "digits k 0 = replicate k (CHR ''0'')"
proof (induction k)
  case (Suc k)
  have "(of_char (CHR ''0'') :: nat) = 48" by simp
  then have "(char_of (48 :: nat) :: char) = CHR ''0''" by (metis char_of_char)
  with Suc show ?case by (simp add: replicate_append_same)
qed simp

lemma dropWhile_replicate: "dropWhile (\<lambda>c. c = x) (replicate k x) = []"
  by (induction k) simp_all

lemma frac_nano_0: "t mod 1000000000 = 0 \<Longrightarrow> frac_nano t = []"
  by (simp add: frac_nano_def digits_0 dropWhile_replicate)

lemma frac_nano_pos: "t mod 1000000000 \<noteq> 0 \<Longrightarrow> \<exists>fs. frac_nano t = CHR ''.'' # fs"
proof -
  assume "t mod 1000000000 \<noteq> 0"
  then have ne: "digits 9 (t mod 1000000000) \<noteq> digits 9 0"
    by (subst digits_eq_iff) simp_all
  have "dropWhile (\<lambda>c. c = CHR ''0'') (rev (digits 9 (t mod 1000000000))) \<noteq> []"
  proof
    assume "dropWhile (\<lambda>c. c = CHR ''0'') (rev (digits 9 (t mod 1000000000))) = []"
    then have "\<forall>c \<in> set (digits 9 (t mod 1000000000)). c = CHR ''0''" by (simp add: dropWhile_eq_Nil_conv)
    then have "digits 9 (t mod 1000000000) = replicate 9 (CHR ''0'')"
      by (simp add: list_eq_iff_nth_eq)
    with ne show False by (simp add: digits_0)
  qed
  then show ?thesis by (simp add: frac_nano_def Let_def)
qed

lemma rfc3339nano_misorders:
  assumes "t mod 1000000000 = 0" and "0 < d" and "d < 1000000000"
  shows "rfc3339nano (t + d) < rfc3339nano t"
proof -
  have "fmt_second (t + d) = fmt_second t"
    using same_second [OF assms(1) _ assms(3)] assms(2) fmt_second_order(2) [of "t + d" t] by simp
  moreover have "frac_nano t = []" using assms(1) by (rule frac_nano_0)
  moreover obtain fs where "frac_nano (t + d) = CHR ''.'' # fs"
    using frac_nano_pos [of "t + d"] same_second(3) [OF assms(1) _ assms(3)] assms(2) by auto
  ultimately show ?thesis
    by (simp add: rfc3339nano_def less_append_eqlen less_char_def)
qed

text \<open>Across seconds of a day the order is kept.\<close>

lemma rfc3339nano_later_second:
  assumes "day_of t = day_of u" and "(t mod day_ns) div 1000000000 < (u mod day_ns) div 1000000000"
  shows "rfc3339nano t < rfc3339nano u"
proof -
  have "length (fmt_second t) = length (fmt_second u)"
    using assms by (simp add: fmt_second_def fmt_minute_def Let_def)
  then show ?thesis
    using fmt_second_order(1) [OF assms(1)] assms(2) by (simp add: rfc3339nano_def less_append_eqlen)
qed

end
