(* ===== verification/UserStore.thy ===== *)
theory UserStore
  imports Billing GoTime
begin

text \<open>
  The SQLite user store, \<^verbatim>\<open>pkg/storage/sqlite/user_store.go\<close>: users, recurring budgets,
  grants, model limits, task budgets and rate limits.

  A table is a list of rows in insertion order or an association list over its primary key.
  A statement acts on the table as SQL says: \<^verbatim>\<open>ON CONFLICT DO UPDATE\<close> is an update of the
  association list, \<^verbatim>\<open>ORDER BY\<close> a stable sort, \<^verbatim>\<open>WHERE\<close> a filter.  A timestamp column holds
  the text \<open>formatTime t\<close>; reading it back gives \<open>t\<close> (\<^verbatim>\<open>time.Parse\<close> inverts
  \<^verbatim>\<open>time.Format\<close>), so the model keeps \<open>t\<close> and writes \<open>formatTime\<close> where a statement compares the
  text.  SQLite stores a NaN as NULL, which the \<^verbatim>\<open>NOT NULL\<close> columns reject; foreign keys are
  on (\<^verbatim>\<open>NewUserStore\<close>).

  The clock is an argument \<open>now\<close>, the time zone an argument \<open>loc\<close>.  Any statement may fail:
  the argument \<open>flt\<close> says which ones do.  Every operation returns its error or result and the
  new state.
\<close>

section \<open>Tables\<close>

record UserRecord =
  u_ID :: string
  u_Email :: string
  u_DisplayName :: "string option"
  u_Role :: string
  u_Status :: string
  u_AccessTags :: "string list option"
  u_CreatedAt :: gotime
  u_LastSeenAt :: gotime
  u_LastActiveAt :: gotime
  u_RateLimit :: "int option"

record config_row =
  c_limit_usd :: f64
  c_period_type :: string
  c_soft_blocked :: bool
  c_soft_blocked_at :: gotime
  c_updated_at :: gotime

record period_row =
  p_limit_usd :: f64
  p_spent_usd :: f64
  p_tokens_used :: int
  p_all_tokens_used :: int
  p_period_type :: string
  p_updated_at :: gotime

record AuditRecord =
  a_ID :: string
  a_UserID :: string
  a_ActorEmail :: string
  a_Action :: string
  a_Details :: string
  a_Timestamp :: gotime

record store =
  users :: "UserRecord list"
  budget_configs :: "(string \<times> config_row) list"
  user_budgets :: "((string \<times> string) \<times> period_row) list"
  user_grants :: "GrantRecord list"
  user_model_limits :: "((string \<times> string) \<times> ModelLimitRecord) list"
  task_budgets :: "(string \<times> TaskBudget) list"
  rate_limits :: "(string \<times> int) list"
  user_audit_log :: "AuditRecord list"
  global_audit_log :: "AuditRecord list"

datatype store_error =
    EmailRequired | UserExists string | ErrNotFound | UserIDRequired | ModelPrefixRequired
  | InvalidTaskBudget validate_error | TaskExists string | TaskIDMissing | NoTaskBudget string
  | NegativeCost f64 | DBError

type_synonym 'a outcome = "(store_error + 'a) \<times> store"

definition empty_store :: store where
  "empty_store =
     \<lparr>users = [], budget_configs = [], user_budgets = [], user_grants = [],
      user_model_limits = [], task_budgets = [], rate_limits = [],
      user_audit_log = [], global_audit_log = []\<rparr>"

section \<open>Helpers\<close>

definition formatTime :: "gotime \<Rightarrow> string" where
  "formatTime t = (if t = 0 then [] else rfc3339nano t)"

definition normalizeID :: "string \<Rightarrow> string" where
  "normalizeID i = ToLower (TrimSpace i)"

lemma normalizeID_idem [simp]: "normalizeID (normalizeID i) = normalizeID i"
  by (simp add: normalizeID_def TrimSpace_ToLower)

definition currentPeriodKey :: "string \<Rightarrow> (gotime \<Rightarrow> int) \<Rightarrow> gotime \<Rightarrow> string" where
  "currentPeriodKey periodType loc now =
     (let d = day_of (now + loc now)
      in if periodType = ''monthly'' then fmt_month d
         else if periodType = ''weekly'' then fmt_week d
         else fmt_day d)"

definition or_daily :: "string \<Rightarrow> string" where
  "or_daily pt = (if pt = [] then ''daily'' else pt)"

definition has_user :: "store \<Rightarrow> string \<Rightarrow> bool" where
  "has_user st i \<longleftrightarrow> (\<exists>u \<in> set (users st). u_ID u = i)"

section \<open>Users\<close>

definition CreateUser :: "(nat \<Rightarrow> bool) \<Rightarrow> gotime \<Rightarrow> UserRecord \<Rightarrow> store \<Rightarrow> unit outcome" where
  "CreateUser flt now user st =
     (if TrimSpace (u_Email user) = [] then (Inl EmailRequired, st)
      else
        let email = normalizeID (u_Email user);
            uid = (if u_ID user = [] then email else normalizeID (u_ID user));
            row = user\<lparr>u_ID := uid, u_Email := email,
              u_CreatedAt := (if u_CreatedAt user = 0 then now else u_CreatedAt user),
              u_Status := (if u_Status user = [] then ''provisioned'' else u_Status user),
              u_Role := (if u_Role user = [] then ''developer'' else u_Role user)\<rparr>
        in if flt 0 then (Inl DBError, st)
           else if \<exists>u \<in> set (users st). u_ID u = uid \<or> u_Email u = email then (Inl (UserExists uid), st)
           else (Inr (), st\<lparr>users := users st @ [row]\<rparr>))"

text \<open>A row as the queries return it: \<^verbatim>\<open>null\<close> tags are read as the empty slice.\<close>

definition scan_user :: "UserRecord \<Rightarrow> UserRecord" where
  "scan_user u = u\<lparr>u_AccessTags := Some (case u_AccessTags u of None \<Rightarrow> [] | Some ts \<Rightarrow> ts)\<rparr>"

definition GetUser :: "bool \<Rightarrow> string \<Rightarrow> store \<Rightarrow> store_error + UserRecord" where
  "GetUser fails i st =
     (if fails then Inl DBError
      else case find (\<lambda>u. u_ID u = normalizeID i \<or> u_Email u = normalizeID i) (users st) of
        None \<Rightarrow> Inl ErrNotFound
      | Some u \<Rightarrow> Inr (scan_user u))"

definition GetUsers :: "bool \<Rightarrow> string list \<Rightarrow> store \<Rightarrow> store_error + (string \<times> UserRecord) list" where
  "GetUsers fails ids st =
     (if ids = [] then Inr []
      else if fails then Inl DBError
      else Inr (map (\<lambda>u. (u_ID u, scan_user u)) (filter (\<lambda>u. u_ID u \<in> set (map normalizeID ids)) (users st))))"

definition ListUsers :: "(nat \<Rightarrow> bool) \<Rightarrow> string \<Rightarrow> int \<Rightarrow> int \<Rightarrow> store \<Rightarrow> store_error + UserRecord list \<times> int" where
  "ListUsers flt statusFilter limit offset st =
     (let lim = (if limit \<le> 0 then 50 else limit);
          off = (if offset < 0 then 0 else offset);
          rows = (if statusFilter \<noteq> [] then filter (\<lambda>u. u_Status u = statusFilter) (users st) else users st)
      in if flt 0 \<or> flt 1 then Inl DBError
         else Inr (map scan_user (take (nat lim) (drop (nat off) (sort_key u_ID rows))), int (length rows)))"

text \<open>\<^verbatim>\<open>UPDATE users SET ... WHERE id = ?\<close> changes the row with that key; it reports the rows it met.\<close>

definition update_users :: "string \<Rightarrow> (UserRecord \<Rightarrow> UserRecord) \<Rightarrow> store \<Rightarrow> store" where
  "update_users i f st = st\<lparr>users := map (\<lambda>u. if u_ID u = i then f u else u) (users st)\<rparr>"

definition UpdateUser :: "bool \<Rightarrow> UserRecord \<Rightarrow> store \<Rightarrow> unit outcome" where
  "UpdateUser fails user st =
     (if u_ID user = [] then (Inl UserIDRequired, st)
      else
        let i = normalizeID (u_ID user)
        in if u_DisplayName user = None \<and> u_Role user = [] \<and> u_Status user = [] \<and> u_RateLimit user = None
              \<and> u_LastSeenAt user = 0 \<and> u_AccessTags user = None then (Inr (), st)
           else if fails then (Inl DBError, st)
           else if \<not> has_user st i then (Inl ErrNotFound, st)
           else (Inr (), update_users i (\<lambda>u. u
                  \<lparr>u_DisplayName := (if u_DisplayName user \<noteq> None then u_DisplayName user else u_DisplayName u),
                   u_Role := (if u_Role user \<noteq> [] then u_Role user else u_Role u),
                   u_Status := (if u_Status user \<noteq> [] then u_Status user else u_Status u),
                   u_RateLimit := (if u_RateLimit user \<noteq> None then u_RateLimit user else u_RateLimit u),
                   u_LastSeenAt := (if u_LastSeenAt user \<noteq> 0 then u_LastSeenAt user else u_LastSeenAt u),
                   u_AccessTags := (if u_AccessTags user \<noteq> None then u_AccessTags user else u_AccessTags u)\<rparr>) st))"

definition TouchLastSeen :: "bool \<Rightarrow> gotime \<Rightarrow> string \<Rightarrow> store \<Rightarrow> unit outcome" where
  "TouchLastSeen fails now i st =
     (if fails then (Inl DBError, st)
      else (Inr (), update_users (normalizeID i) (\<lambda>u. u\<lparr>u_LastSeenAt := now, u_Status := ''active''\<rparr>) st))"

definition TouchLastActive :: "bool \<Rightarrow> gotime \<Rightarrow> string \<Rightarrow> store \<Rightarrow> unit outcome" where
  "TouchLastActive fails now i st =
     (if fails then (Inl DBError, st)
      else (Inr (), update_users (normalizeID i) (\<lambda>u. u\<lparr>u_LastActiveAt := now\<rparr>) st))"

text \<open>\<^verbatim>\<open>ON DELETE CASCADE\<close> removes the rows of the tables that reference the user.\<close>

definition DeleteUser :: "bool \<Rightarrow> string \<Rightarrow> store \<Rightarrow> unit outcome" where
  "DeleteUser fails uid st =
     (if fails then (Inl DBError, st)
      else let i = normalizeID uid
           in (Inr (), st\<lparr>users := filter (\<lambda>u. u_ID u \<noteq> i) (users st),
                budget_configs := filter (\<lambda>(k, _). k \<noteq> i) (budget_configs st),
                user_budgets := filter (\<lambda>((k, _), _). k \<noteq> i) (user_budgets st),
                user_grants := filter (\<lambda>g. g_UserID g \<noteq> i) (user_grants st),
                user_model_limits := filter (\<lambda>((k, _), _). k \<noteq> i) (user_model_limits st),
                user_audit_log := filter (\<lambda>a. a_UserID a \<noteq> i) (user_audit_log st)\<rparr>))"

section \<open>Budgets\<close>

definition SetBudget :: "(nat \<Rightarrow> bool) \<Rightarrow> (gotime \<Rightarrow> int) \<Rightarrow> gotime \<Rightarrow> BudgetRecord \<Rightarrow> store \<Rightarrow> unit outcome" where
  "SetBudget flt loc now budget st =
     (if b_UserID budget = [] then (Inl UserIDRequired, st)
      else
        let uid = normalizeID (b_UserID budget);
            pt = or_daily (b_PeriodType budget);
            key = currentPeriodKey pt loc now;
            limit = b_LimitUSD budget;
            cfg = (case map_of (budget_configs st) uid of
                     None \<Rightarrow> \<lparr>c_limit_usd = limit, c_period_type = pt, c_soft_blocked = False,
                              c_soft_blocked_at = 0, c_updated_at = now\<rparr>
                   | Some c \<Rightarrow> c\<lparr>c_limit_usd := limit, c_period_type := pt, c_updated_at := now\<rparr>);
            per = (case map_of (user_budgets st) (uid, key) of
                     None \<Rightarrow> \<lparr>p_limit_usd = limit, p_spent_usd = 0, p_tokens_used = 0, p_all_tokens_used = 0,
                              p_period_type = pt, p_updated_at = now\<rparr>
                   | Some p \<Rightarrow> p\<lparr>p_limit_usd := limit, p_updated_at := now\<rparr>)
        in if flt 0 \<or> is_nan limit \<or> \<not> has_user st uid then (Inl DBError, st)
           else
             let st1 = st\<lparr>budget_configs := AList.update uid cfg (budget_configs st)\<rparr>
             in if flt 1 then (Inl DBError, st1)
                else (Inr (), st1\<lparr>user_budgets := AList.update (uid, key) per (user_budgets st1)\<rparr>))"

definition GetBudget ::
  "(nat \<Rightarrow> bool) \<Rightarrow> (gotime \<Rightarrow> int) \<Rightarrow> gotime \<Rightarrow> string \<Rightarrow> store \<Rightarrow> store_error + BudgetRecord option" where
  "GetBudget flt loc now userID st =
     (let uid = normalizeID userID
      in if flt 0 then Inl DBError
         else case map_of (budget_configs st) uid of
           None \<Rightarrow> Inr None
         | Some c \<Rightarrow>
             let pt = or_daily (c_period_type c); key = currentPeriodKey pt loc now
             in if flt 1 then Inl DBError
                else case map_of (user_budgets st) (uid, key) of
                  None \<Rightarrow> Inr (Some \<lparr>b_UserID = uid, b_LimitUSD = c_limit_usd c, b_SpentUSD = 0, b_TokensUsed = 0,
                      b_AllTokensUsed = 0, b_PeriodType = pt, b_PeriodKey = key, b_PeriodStart = 0, b_PeriodEnd = 0\<rparr>)
                | Some p \<Rightarrow> Inr (Some \<lparr>b_UserID = uid, b_LimitUSD = p_limit_usd p, b_SpentUSD = p_spent_usd p,
                      b_TokensUsed = p_tokens_used p, b_AllTokensUsed = p_all_tokens_used p,
                      b_PeriodType = pt, b_PeriodKey = key, b_PeriodStart = 0, b_PeriodEnd = 0\<rparr>))"

text \<open>The read of the period type and the clearing of the flag ignore their errors.\<close>

definition ResetSpend :: "(nat \<Rightarrow> bool) \<Rightarrow> (gotime \<Rightarrow> int) \<Rightarrow> gotime \<Rightarrow> string \<Rightarrow> store \<Rightarrow> unit outcome" where
  "ResetSpend flt loc now userID st =
     (let uid = normalizeID userID;
          pt = or_daily (if flt 0 then [] else case map_of (budget_configs st) uid of None \<Rightarrow> [] | Some c \<Rightarrow> c_period_type c);
          key = currentPeriodKey pt loc now
      in if flt 1 then (Inl DBError, st)
         else
           let st1 = st\<lparr>user_budgets := AList.map_entry (uid, key)
                 (\<lambda>p. p\<lparr>p_spent_usd := 0, p_tokens_used := 0, p_updated_at := now\<rparr>) (user_budgets st)\<rparr>
           in (Inr (), if flt 2 then st1
                       else st1\<lparr>budget_configs := AList.map_entry uid
                         (\<lambda>c. c\<lparr>c_soft_blocked := False, c_soft_blocked_at := 0, c_updated_at := now\<rparr>)
                         (budget_configs st1)\<rparr>))"

record DailySpendRecord =
  d_Date :: string
  d_SpendUSD :: f64
  d_TokenCount :: int

definition GetSpendHistory ::
  "bool \<Rightarrow> (gotime \<Rightarrow> int) \<Rightarrow> gotime \<Rightarrow> string \<Rightarrow> int \<Rightarrow> store \<Rightarrow> store_error + DailySpendRecord list" where
  "GetSpendHistory fails loc now userID days st =
     (let uid = normalizeID userID;
          d = day_of (now + loc now);
          today = fmt_day d;
          startDate = fmt_day (d - days);
          rows = filter (\<lambda>((u, k), p). u = uid \<and> k < today \<and> startDate \<le> k
                   \<and> (0 < p_spent_usd p \<or> 0 < p_all_tokens_used p)) (user_budgets st)
      in if fails then Inl DBError
         else Inr (map (\<lambda>((u, k), p). \<lparr>d_Date = k, d_SpendUSD = p_spent_usd p, d_TokenCount = p_all_tokens_used p\<rparr>)
                (sort_key (\<lambda>r. snd (fst r)) rows)))"

section \<open>Grants\<close>

text \<open>\<open>newid\<close> is the identifier \<^verbatim>\<open>uuid.New()\<close> returns.\<close>

definition CreateGrant :: "bool \<Rightarrow> string \<Rightarrow> gotime \<Rightarrow> GrantRecord \<Rightarrow> store \<Rightarrow> unit outcome" where
  "CreateGrant fails newid now grant st =
     (if g_UserID grant = [] then (Inl UserIDRequired, st)
      else
        let g = grant\<lparr>g_ID := (if g_ID grant = [] then newid else g_ID grant),
                g_CreatedAt := (if g_CreatedAt grant = 0 then now else g_CreatedAt grant),
                g_UserID := normalizeID (g_UserID grant)\<rparr>
        in if fails \<or> is_nan (g_AmountUSD g) \<or> is_nan (g_SpentUSD g) \<or> \<not> has_user st (g_UserID g)
              \<or> (\<exists>h \<in> set (user_grants st). g_ID h = g_ID g) then (Inl DBError, st)
           else (Inr (), st\<lparr>user_grants := user_grants st @ [g]\<rparr>))"

text \<open>
  The active grants, as \<^verbatim>\<open>ListGrants\<close> and \<^verbatim>\<open>DeductSpend\<close> both read them: the query compares
  the text of \<^verbatim>\<open>expires_at\<close> and sorts by it, the loop over its rows drops the grants that have
  not started.
\<close>

definition active_grants :: "gotime \<Rightarrow> string \<Rightarrow> store \<Rightarrow> GrantRecord list" where
  "active_grants now uid st =
     filter (\<lambda>g. g_StartsAt g = 0 \<or> \<not> now < g_StartsAt g)
       (sort_key (\<lambda>g. formatTime (g_ExpiresAt g))
         (filter (\<lambda>g. g_UserID g = uid \<and> formatTime now < formatTime (g_ExpiresAt g) \<and> g_SpentUSD g < g_AmountUSD g)
           (user_grants st)))"

definition ListGrants :: "bool \<Rightarrow> gotime \<Rightarrow> string \<Rightarrow> bool \<Rightarrow> store \<Rightarrow> store_error + GrantRecord list" where
  "ListGrants fails now userID activeOnly st =
     (let uid = normalizeID userID
      in if fails then Inl DBError
         else if activeOnly then Inr (active_grants now uid st)
         else Inr (rev (sort_key (\<lambda>g. formatTime (g_CreatedAt g))
                (rev (filter (\<lambda>g. g_UserID g = uid) (user_grants st))))))"

definition RevokeGrant :: "bool \<Rightarrow> gotime \<Rightarrow> string \<Rightarrow> string \<Rightarrow> store \<Rightarrow> unit outcome" where
  "RevokeGrant fails now userID grantID st =
     (let uid = normalizeID userID
      in if fails then (Inl DBError, st)
         else (Inr (), st\<lparr>user_grants :=
                map (\<lambda>g. if g_UserID g = uid \<and> g_ID g = grantID then g\<lparr>g_ExpiresAt := now\<rparr> else g) (user_grants st)\<rparr>))"

definition GetGrant :: "bool \<Rightarrow> string \<Rightarrow> string \<Rightarrow> store \<Rightarrow> store_error + GrantRecord" where
  "GetGrant fails userID grantID st =
     (let uid = normalizeID userID
      in if fails then Inl DBError
         else case find (\<lambda>g. g_UserID g = uid \<and> g_ID g = grantID) (user_grants st) of
           None \<Rightarrow> Inl ErrNotFound
         | Some g \<Rightarrow> Inr g)"

section \<open>Model limits\<close>

definition SetModelLimit :: "bool \<Rightarrow> gotime \<Rightarrow> ModelLimitRecord \<Rightarrow> store \<Rightarrow> unit outcome" where
  "SetModelLimit fails now limit st =
     (if ml_UserID limit = [] \<or> ml_ModelPrefix limit = [] then (Inl ModelPrefixRequired, st)
      else
        let uid = normalizeID (ml_UserID limit);
            k = (uid, ml_ModelPrefix limit);
            row = (case map_of (user_model_limits st) k of
                     None \<Rightarrow> limit\<lparr>ml_UserID := uid, ml_UpdatedAt := now,
                       ml_CreatedAt := (if ml_CreatedAt limit = 0 then now else ml_CreatedAt limit)\<rparr>
                   | Some l \<Rightarrow> l\<lparr>ml_MaxDailyUSD := ml_MaxDailyUSD limit, ml_UpdatedAt := now\<rparr>)
        in if fails \<or> is_nan (ml_MaxDailyUSD limit) \<or> \<not> has_user st uid then (Inl DBError, st)
           else (Inr (), st\<lparr>user_model_limits := AList.update k row (user_model_limits st)\<rparr>))"

definition GetModelLimits :: "bool \<Rightarrow> string \<Rightarrow> store \<Rightarrow> store_error + ModelLimitRecord list" where
  "GetModelLimits fails userID st =
     (let uid = normalizeID userID
      in if fails then Inl DBError
         else Inr (map snd (sort_key (\<lambda>r. snd (fst r)) (filter (\<lambda>r. fst (fst r) = uid) (user_model_limits st)))))"

definition DeleteModelLimit :: "bool \<Rightarrow> string \<Rightarrow> string \<Rightarrow> store \<Rightarrow> unit outcome" where
  "DeleteModelLimit fails userID modelPrefix st =
     (if fails then (Inl DBError, st)
      else (Inr (), st\<lparr>user_model_limits := AList.delete (normalizeID userID, modelPrefix) (user_model_limits st)\<rparr>))"

section \<open>Budget enforcement\<close>

datatype check_stmt = CheckUser | CheckSoft | CheckGrants | CheckConfig | CheckPeriod

definition denied :: "Reason \<Rightarrow> f64 \<Rightarrow> BudgetCheckResult" where
  "denied reason est =
     \<lparr>r_Allowed = False, r_Reason = reason, r_RemainingUSD = 0, r_GrantsUSD = 0, r_BudgetUSD = 0, r_EstimatedCost = est\<rparr>"

text \<open>Steps 3 and 4 and the verdict of \<^verbatim>\<open>CheckBudget\<close>.\<close>

definition CheckBalance ::
  "(check_stmt \<Rightarrow> bool) \<Rightarrow> (gotime \<Rightarrow> int) \<Rightarrow> gotime \<Rightarrow> string \<Rightarrow> f64 \<Rightarrow> bool \<Rightarrow> store \<Rightarrow> store_error + BudgetCheckResult" where
  "CheckBalance flt loc now uid est softBlocked st =
     (if softBlocked then Inr (denied ReasonSoftBlocked est)
      else case ListGrants (flt CheckGrants) now uid True st of
        Inl e \<Rightarrow> Inl e
      | Inr grants \<Rightarrow>
          let grantsRemaining = foldl (\<lambda>acc g. acc + Grant_Remaining g) 0 grants
          in case GetBudget (\<lambda>i. flt (if i = 0 then CheckConfig else CheckPeriod)) loc now uid st of
               Inl e \<Rightarrow> Inl e
             | Inr budget \<Rightarrow>
                 let budgetRemaining = (case budget of None \<Rightarrow> 0
                       | Some b \<Rightarrow> let r = b_LimitUSD b - b_SpentUSD b in if r < 0 then 0 else r);
                     totalRemaining = grantsRemaining + budgetRemaining;
                     allowed = (est \<le> totalRemaining);
                     reason = (if allowed then ReasonAllowed
                       else if budget = None \<and> feq grantsRemaining 0 then ReasonNoBudget else ReasonBudgetExhausted)
                 in Inr \<lparr>r_Allowed = allowed, r_Reason = reason, r_RemainingUSD = totalRemaining,
                      r_GrantsUSD = grantsRemaining, r_BudgetUSD = budgetRemaining, r_EstimatedCost = est\<rparr>)"

definition CheckBudget ::
  "(check_stmt \<Rightarrow> bool) \<Rightarrow> (gotime \<Rightarrow> int) \<Rightarrow> gotime \<Rightarrow> string \<Rightarrow> f64 \<Rightarrow> store \<Rightarrow> store_error + BudgetCheckResult" where
  "CheckBudget flt loc now userID estimatedCostUSD st =
     (let uid = normalizeID userID;
          user = GetUser (flt CheckUser) uid st;
          softBlocked = (if flt CheckSoft then False
             else case map_of (budget_configs st) uid of None \<Rightarrow> False | Some c \<Rightarrow> c_soft_blocked c)
      in case user of
           Inl e \<Rightarrow> if e \<noteq> ErrNotFound then Inl e else CheckBalance flt loc now uid estimatedCostUSD softBlocked st
         | Inr u \<Rightarrow> if u_Status u = ''inactive'' then Inr (denied ReasonNoBudget estimatedCostUSD)
                    else CheckBalance flt loc now uid estimatedCostUSD softBlocked st)"

text \<open>
  \<^verbatim>\<open>DeductSpend\<close>, one transaction.  The statements that may fail are named; a failure of the
  update that soft-blocks is ignored by the code.  \<open>charge_grants\<close> is the loop over the grants,
  on the table; it returns \<open>None\<close> when an update fails.
\<close>

datatype deduct_stmt =
    BeginTx | ReadConfig | ReadGrants | ReadPeriod | WritePeriod | WriteGrant string | SoftBlock | Commit

definition grant_coverage :: "GrantRecord list \<Rightarrow> f64" where
  "grant_coverage gs =
     foldl (\<lambda>acc g. let rem = g_AmountUSD g - g_SpentUSD g in if 0 < rem then acc + rem else acc) 0 gs"

definition budget_charge :: "f64 \<Rightarrow> f64 \<Rightarrow> f64 \<Rightarrow> GrantRecord list \<Rightarrow> f64" where
  "budget_charge limitUSD currentSpentUSD costUSD gs =
     (let avail = limitUSD - currentSpentUSD;
          budgetAvailable = (if avail < 0 then 0 else avail);
          budgetDeduct = fmin costUSD budgetAvailable;
          overflow = fmax 0 (costUSD - budgetDeduct);
          unabsorbed = fmax 0 (overflow - grant_coverage gs)
      in budgetDeduct + unabsorbed)"

definition budget_tokens :: "f64 \<Rightarrow> f64 \<Rightarrow> i64 \<Rightarrow> i64" where
  "budget_tokens costUSD charge tokens =
     (if 0 < costUSD \<and> charge < costUSD
      then to_i64 (fround (of_i64 tokens * (charge / costUSD))) else tokens)"

definition add_grant_spent :: "string \<Rightarrow> f64 \<Rightarrow> GrantRecord list \<Rightarrow> GrantRecord list option" where
  "add_grant_spent i d tbl =
     (if \<exists>g \<in> set tbl. g_ID g = i \<and> is_nan (g_SpentUSD g + d) then None
      else Some (map (\<lambda>g. if g_ID g = i then g\<lparr>g_SpentUSD := g_SpentUSD g + d\<rparr> else g) tbl))"

fun charge_grants ::
  "(string \<Rightarrow> bool) \<Rightarrow> GrantRecord list \<Rightarrow> f64 \<Rightarrow> GrantRecord list \<Rightarrow> (GrantRecord list \<times> f64) option" where
  "charge_grants flt [] remaining tbl = Some (tbl, remaining)"
| "charge_grants flt (g # gs) remaining tbl =
     (if remaining \<le> 0 then Some (tbl, remaining)
      else let available = g_AmountUSD g - g_SpentUSD g
           in if available \<le> 0 then charge_grants flt gs remaining tbl
              else let deduct = fmin remaining available
                   in if flt (g_ID g) then None
                      else case add_grant_spent (g_ID g) deduct tbl of
                        None \<Rightarrow> None
                      | Some tbl' \<Rightarrow> charge_grants flt gs (remaining - deduct) tbl')"

text \<open>Write 1: the row of the current period is inserted or updated.\<close>

definition charge_period ::
  "gotime \<Rightarrow> string \<Rightarrow> string \<Rightarrow> string \<Rightarrow> f64 \<Rightarrow> f64 \<Rightarrow> i64 \<Rightarrow> i64 \<Rightarrow> store \<Rightarrow> store option" where
  "charge_period now uid key pt limitUSD charge bt tokens st =
     (case map_of (user_budgets st) (uid, key) of
        None \<Rightarrow>
          if is_nan limitUSD \<or> is_nan charge \<or> \<not> has_user st uid then None
          else Some (st\<lparr>user_budgets := AList.update (uid, key)
            \<lparr>p_limit_usd = limitUSD, p_spent_usd = charge, p_tokens_used = bt, p_all_tokens_used = tokens,
             p_period_type = pt, p_updated_at = now\<rparr> (user_budgets st)\<rparr>)
      | Some p \<Rightarrow>
          if is_nan (p_spent_usd p + charge) then None
          else Some (st\<lparr>user_budgets := AList.update (uid, key)
            (p\<lparr>p_spent_usd := p_spent_usd p + charge, p_tokens_used := p_tokens_used p + bt,
               p_all_tokens_used := p_all_tokens_used p + tokens, p_updated_at := now\<rparr>) (user_budgets st)\<rparr>))"

definition soft_block :: "gotime \<Rightarrow> string \<Rightarrow> store \<Rightarrow> store" where
  "soft_block now uid st = st\<lparr>budget_configs := AList.map_entry uid
     (\<lambda>c. c\<lparr>c_soft_blocked := True, c_soft_blocked_at := now, c_updated_at := now\<rparr>) (budget_configs st)\<rparr>"

definition overdraft_eps :: f64 where
  "overdraft_eps = mk (1 / 10 ^ 6)"

text \<open>
  The reads and write 1: with a configuration or a row of the current period the recurring
  budget is charged; the result is the new state and the part of the cost that remains.
\<close>

definition charge_budget ::
  "(deduct_stmt \<Rightarrow> bool) \<Rightarrow> (gotime \<Rightarrow> int) \<Rightarrow> gotime \<Rightarrow> string \<Rightarrow> f64 \<Rightarrow> i64 \<Rightarrow> GrantRecord list \<Rightarrow> store \<Rightarrow> (store \<times> f64) option" where
  "charge_budget flt loc now uid costUSD tokens grants st =
     (let config = map_of (budget_configs st) uid;
          limitUSD = (case config of None \<Rightarrow> 0 | Some c \<Rightarrow> c_limit_usd c);
          pt = or_daily (case config of None \<Rightarrow> [] | Some c \<Rightarrow> c_period_type c);
          key = currentPeriodKey pt loc now;
          period = map_of (user_budgets st) (uid, key);
          currentSpentUSD = (case period of None \<Rightarrow> 0 | Some p \<Rightarrow> p_spent_usd p)
      in if config = None \<and> period = None then Some (st, costUSD)
         else let charge = budget_charge limitUSD currentSpentUSD costUSD grants
              in if flt WritePeriod then None
                 else map_option (\<lambda>st1. (st1, costUSD - charge))
                   (charge_period now uid key pt limitUSD charge (budget_tokens costUSD charge tokens) tokens st))"

text \<open>The body of the transaction, from the reads to the commit; \<open>None\<close> is an error and a rollback.\<close>

definition deduct_tx ::
  "(deduct_stmt \<Rightarrow> bool) \<Rightarrow> (gotime \<Rightarrow> int) \<Rightarrow> gotime \<Rightarrow> string \<Rightarrow> f64 \<Rightarrow> i64 \<Rightarrow> store \<Rightarrow> store option" where
  "deduct_tx flt loc now uid costUSD tokens st =
     (if flt BeginTx \<or> flt ReadConfig \<or> flt ReadGrants \<or> flt ReadPeriod then None
      else
        let grants = active_grants now uid st
        in case charge_budget flt loc now uid costUSD tokens grants st of
             None \<Rightarrow> None
           | Some (st1, remaining) \<Rightarrow>
               (case charge_grants (\<lambda>i. flt (WriteGrant i)) grants remaining (user_grants st1) of
                  None \<Rightarrow> None
                | Some (tbl, remaining') \<Rightarrow>
                    let st2 = st1\<lparr>user_grants := tbl\<rparr>;
                        st3 = (if overdraft_eps < remaining' \<and> \<not> flt SoftBlock then soft_block now uid st2 else st2)
                    in if flt Commit then None else Some st3))"

definition DeductSpend ::
  "(deduct_stmt \<Rightarrow> bool) \<Rightarrow> (gotime \<Rightarrow> int) \<Rightarrow> gotime \<Rightarrow> string \<Rightarrow> f64 \<Rightarrow> i64 \<Rightarrow> store \<Rightarrow> unit outcome" where
  "DeductSpend flt loc now userID costUSD tokens st =
     (if costUSD < 0 then (Inl (NegativeCost costUSD), st)
      else if feq costUSD 0 \<and> tokens = 0 then (Inr (), st)
      else case deduct_tx flt loc now (normalizeID userID) costUSD tokens st of
        None \<Rightarrow> (Inl DBError, st)
      | Some st' \<Rightarrow> (Inr (), st'))"

section \<open>Task budgets\<close>

definition CreateTaskBudget :: "bool \<Rightarrow> gotime \<Rightarrow> TaskBudget \<Rightarrow> store \<Rightarrow> unit outcome" where
  "CreateTaskBudget fails now budget st =
     (case Task_Validate budget of
        Some e \<Rightarrow> (Inl (InvalidTaskBudget e), st)
      | None \<Rightarrow>
          let row = budget\<lparr>t_UserID := normalizeID (t_UserID budget), t_SpentUSD := 0,
                t_CreatedAt := (if t_CreatedAt budget = 0 then now else t_CreatedAt budget)\<rparr>
          in if fails \<or> is_nan (t_LimitUSD budget) then (Inl DBError, st)
             else if map_of (task_budgets st) (t_TaskID budget) \<noteq> None then (Inl (TaskExists (t_TaskID budget)), st)
             else (Inr (), st\<lparr>task_budgets := AList.update (t_TaskID budget) row (task_budgets st)\<rparr>))"

definition GetTaskBudget :: "bool \<Rightarrow> string \<Rightarrow> store \<Rightarrow> store_error + TaskBudget" where
  "GetTaskBudget fails taskID st =
     (if taskID = [] then Inl TaskIDMissing
      else if fails then Inl DBError
      else case map_of (task_budgets st) taskID of None \<Rightarrow> Inl ErrNotFound | Some b \<Rightarrow> Inr b)"

definition DeleteTaskBudget :: "bool \<Rightarrow> string \<Rightarrow> store \<Rightarrow> unit outcome" where
  "DeleteTaskBudget fails taskID st =
     (if taskID = [] then (Inl TaskIDMissing, st)
      else if fails then (Inl DBError, st)
      else (Inr (), st\<lparr>task_budgets := AList.delete taskID (task_budgets st)\<rparr>))"

definition CheckTaskBudget :: "bool \<Rightarrow> gotime \<Rightarrow> string \<Rightarrow> f64 \<Rightarrow> store \<Rightarrow> store_error + TaskBudgetCheckResult" where
  "CheckTaskBudget fails now taskID est st =
     (case GetTaskBudget fails taskID st of
        Inl e \<Rightarrow> Inl e
      | Inr b \<Rightarrow>
          if Task_IsExpired now b
          then Inr \<lparr>tr_Allowed = False, tr_Reason = ReasonTaskBudgetExpired, tr_RemainingUSD = 0,
                    tr_LimitUSD = t_LimitUSD b, tr_SpentUSD = t_SpentUSD b\<rparr>
          else if Task_Remaining b < est
          then Inr \<lparr>tr_Allowed = False, tr_Reason = ReasonTaskBudgetExhausted, tr_RemainingUSD = Task_Remaining b,
                    tr_LimitUSD = t_LimitUSD b, tr_SpentUSD = t_SpentUSD b\<rparr>
          else Inr \<lparr>tr_Allowed = True, tr_Reason = TaskNoReason, tr_RemainingUSD = Task_Remaining b,
                    tr_LimitUSD = t_LimitUSD b, tr_SpentUSD = t_SpentUSD b\<rparr>)"

definition DeductTaskSpend :: "bool \<Rightarrow> string \<Rightarrow> f64 \<Rightarrow> store \<Rightarrow> unit outcome" where
  "DeductTaskSpend fails taskID costUSD st =
     (if taskID = [] then (Inl TaskIDMissing, st)
      else if costUSD < 0 then (Inl (NegativeCost costUSD), st)
      else if feq costUSD 0 then (Inr (), st)
      else if fails then (Inl DBError, st)
      else case map_of (task_budgets st) taskID of
        None \<Rightarrow> (Inl (NoTaskBudget taskID), st)
      | Some b \<Rightarrow>
          if is_nan (t_SpentUSD b + costUSD) then (Inl DBError, st)
          else (Inr (), st\<lparr>task_budgets :=
                 AList.update taskID (b\<lparr>t_SpentUSD := t_SpentUSD b + costUSD\<rparr>) (task_budgets st)\<rparr>))"

section \<open>Rate limits and the audit log\<close>

definition defaultRateLimit :: int where
  "defaultRateLimit = 60"

definition user_rate_limit :: "bool \<Rightarrow> string \<Rightarrow> store \<Rightarrow> int" where
  "user_rate_limit fails uid st =
     (case GetUser fails uid st of
        Inl _ \<Rightarrow> defaultRateLimit
      | Inr u \<Rightarrow> (case u_RateLimit u of None \<Rightarrow> defaultRateLimit | Some l \<Rightarrow> if 0 < l then l else defaultRateLimit))"

definition CheckRateLimit :: "(nat \<Rightarrow> bool) \<Rightarrow> gotime \<Rightarrow> string \<Rightarrow> store \<Rightarrow> (bool \<times> int \<times> int) outcome" where
  "CheckRateLimit flt now userID st =
     (let uid = normalizeID userID;
          limit = user_rate_limit (flt 0) uid st;
          k = uid @ '':'' @ fmt_minute now
      in if flt 1 then (Inl DBError, st)
         else let count = (case map_of (rate_limits st) k of None \<Rightarrow> 1 | Some n \<Rightarrow> n + 1)
              in (Inr (count \<le> limit, count, limit), st\<lparr>rate_limits := AList.update k count (rate_limits st)\<rparr>))"

definition audit_row :: "string \<Rightarrow> gotime \<Rightarrow> AuditRecord \<Rightarrow> AuditRecord" where
  "audit_row newid now entry = entry\<lparr>a_ID := (if a_ID entry = [] then newid else a_ID entry),
     a_UserID := normalizeID (a_UserID entry),
     a_Timestamp := (if a_Timestamp entry = 0 then now else a_Timestamp entry)\<rparr>"

definition LogAction :: "bool \<Rightarrow> string \<Rightarrow> gotime \<Rightarrow> AuditRecord \<Rightarrow> store \<Rightarrow> unit outcome" where
  "LogAction fails newid now entry st =
     (let a = audit_row newid now entry
      in if fails \<or> \<not> has_user st (a_UserID a) \<or> (\<exists>b \<in> set (user_audit_log st). a_ID b = a_ID a) then (Inl DBError, st)
         else (Inr (), st\<lparr>user_audit_log := user_audit_log st @ [a]\<rparr>))"

definition LogGlobalAction :: "bool \<Rightarrow> string \<Rightarrow> gotime \<Rightarrow> AuditRecord \<Rightarrow> store \<Rightarrow> unit outcome" where
  "LogGlobalAction fails newid now entry st =
     (let a = audit_row newid now entry
      in if fails \<or> (\<exists>b \<in> set (global_audit_log st). a_ID b = a_ID a) then (Inl DBError, st)
         else (Inr (), st\<lparr>global_audit_log := global_audit_log st @ [a]\<rparr>))"

definition ListAuditLog :: "bool \<Rightarrow> string \<Rightarrow> int \<Rightarrow> store \<Rightarrow> store_error + AuditRecord list" where
  "ListAuditLog fails userID limit st =
     (let lim = (if limit \<le> 0 then 50 else limit); uid = normalizeID userID
      in if fails then Inl DBError
         else Inr (take (nat lim) (rev (sort_key (\<lambda>a. formatTime (a_Timestamp a))
                (rev (filter (\<lambda>a. a_UserID a = uid) (user_audit_log st)))))))"

end
