(* ===== verification/StoreInvariant.thy ===== *)
theory StoreInvariant
  imports UserStore
begin

text \<open>
  The integrity of the SQLite user store as an invariant of its operations.  \<open>store_ok\<close> says
  that primary keys and e-mail addresses are unique, that every row that references a user
  references an existing one, and that no money column holds a NaN.  \<open>store_step\<close> has one rule
  per operation that writes; the invariant holds in every state it reaches from the empty store.
\<close>

section \<open>The invariant\<close>

definition keys_ok :: "store \<Rightarrow> bool" where
  "keys_ok st \<longleftrightarrow>
     distinct (map u_ID (users st)) \<and> distinct (map u_Email (users st)) \<and>
     distinct (keys_of (budget_configs st)) \<and> distinct (keys_of (user_budgets st)) \<and>
     distinct (map g_ID (user_grants st)) \<and> distinct (keys_of (user_model_limits st)) \<and>
     distinct (keys_of (task_budgets st)) \<and> distinct (keys_of (rate_limits st)) \<and>
     distinct (map a_ID (user_audit_log st)) \<and> distinct (map a_ID (global_audit_log st))"

definition referenced :: "store \<Rightarrow> string set" where
  "referenced st =
     set (keys_of (budget_configs st)) \<union> fst ` set (keys_of (user_budgets st)) \<union>
     g_UserID ` set (user_grants st) \<union> fst ` set (keys_of (user_model_limits st)) \<union>
     a_UserID ` set (user_audit_log st)"

definition refs_ok :: "store \<Rightarrow> bool" where
  "refs_ok st \<longleftrightarrow> referenced st \<subseteq> u_ID ` set (users st)"

definition period_real :: "period_row \<Rightarrow> bool" where
  "period_real p \<longleftrightarrow> p_limit_usd p \<noteq> NaN \<and> p_spent_usd p \<noteq> NaN"

definition grant_real :: "GrantRecord \<Rightarrow> bool" where
  "grant_real g \<longleftrightarrow> g_AmountUSD g \<noteq> NaN \<and> g_SpentUSD g \<noteq> NaN"

definition task_real :: "TaskBudget \<Rightarrow> bool" where
  "task_real b \<longleftrightarrow> t_LimitUSD b \<noteq> NaN \<and> t_SpentUSD b \<noteq> NaN"

definition reals_ok :: "store \<Rightarrow> bool" where
  "reals_ok st \<longleftrightarrow>
     rows_all (\<lambda>c. c_limit_usd c \<noteq> NaN) (budget_configs st) \<and>
     rows_all period_real (user_budgets st) \<and>
     (\<forall>g \<in> set (user_grants st). grant_real g) \<and>
     rows_all (\<lambda>l. ml_MaxDailyUSD l \<noteq> NaN) (user_model_limits st) \<and>
     rows_all task_real (task_budgets st)"

definition store_ok :: "store \<Rightarrow> bool" where
  "store_ok st \<longleftrightarrow> keys_ok st \<and> refs_ok st \<and> reals_ok st"

inductive store_step :: "store \<Rightarrow> store \<Rightarrow> bool" where
  CreateUser: "store_step st (snd (CreateUser flt now u st))"
| UpdateUser: "store_step st (snd (UpdateUser fails u st))"
| TouchLastSeen: "store_step st (snd (TouchLastSeen fails now i st))"
| TouchLastActive: "store_step st (snd (TouchLastActive fails now i st))"
| DeleteUser: "store_step st (snd (DeleteUser fails i st))"
| SetBudget: "store_step st (snd (SetBudget flt loc now b st))"
| ResetSpend: "store_step st (snd (ResetSpend flt loc now i st))"
| CreateGrant: "store_step st (snd (CreateGrant fails newid now g st))"
| RevokeGrant: "store_step st (snd (RevokeGrant fails now i gid st))"
| SetModelLimit: "store_step st (snd (SetModelLimit fails now l st))"
| DeleteModelLimit: "store_step st (snd (DeleteModelLimit fails i mp st))"
| DeductSpend: "store_step st (snd (DeductSpend dflt loc now i cost tokens st))"
| CreateTaskBudget: "store_step st (snd (CreateTaskBudget fails now tb st))"
| DeleteTaskBudget: "store_step st (snd (DeleteTaskBudget fails tid st))"
| DeductTaskSpend: "store_step st (snd (DeductTaskSpend fails tid cost st))"
| CheckRateLimit: "store_step st (snd (CheckRateLimit flt now i st))"
| LogAction: "store_step st (snd (LogAction fails newid now a st))"
| LogGlobalAction: "store_step st (snd (LogGlobalAction fails newid now a st))"

section \<open>Tables under updates\<close>

lemma has_user_iff: "has_user st i \<longleftrightarrow> i \<in> u_ID ` set (users st)"
  by (auto simp: has_user_def)

lemma map_col_if: "(\<And>x. P x \<Longrightarrow> col (f x) = col x) \<Longrightarrow> map col (map (\<lambda>x. if P x then f x else x) xs) = map col xs"
  by (induction xs) auto

lemmas ok_defs = store_ok_def keys_ok_def refs_ok_def reals_ok_def referenced_def

section \<open>Every operation keeps it\<close>

lemma update_users_ok:
  assumes "store_ok st" and "\<And>u. u_ID (f u) = u_ID u" and "\<And>u. u_Email (f u) = u_Email u"
  shows "store_ok (update_users i f st)"
proof -
  have ids: "map u_ID (users (update_users i f st)) = map u_ID (users st)"
    and mails: "map u_Email (users (update_users i f st)) = map u_Email (users st)"
    by (simp_all add: update_users_def assms(2,3) map_col_if del: map_map)
  have "u_ID ` set (users (update_users i f st)) = u_ID ` set (users st)"
    by (metis ids set_map)
  then show ?thesis using assms(1) ids mails
    by (simp add: ok_defs) (simp add: update_users_def)
qed

lemma refs_ok_grow: "refs_ok st \<Longrightarrow> referenced st' \<subseteq> referenced st \<Longrightarrow> u_ID ` set (users st) \<subseteq> u_ID ` set (users st') \<Longrightarrow> refs_ok st'"
  unfolding refs_ok_def by blast

lemma CreateUser_ok [inv_intros]: "store_ok st \<Longrightarrow> store_ok (snd (CreateUser flt now u st))"
proof -
  assume ok: "store_ok st"
  let ?st' = "snd (CreateUser flt now u st)"
  have "refs_ok st" using ok by (simp add: store_ok_def)
  then have "refs_ok ?st'"
    by (rule refs_ok_grow) (auto simp: CreateUser_def Let_def referenced_def)
  moreover have "keys_ok ?st'" using ok by (auto simp: CreateUser_def Let_def store_ok_def keys_ok_def)
  moreover have "reals_ok ?st'" using ok by (auto simp: CreateUser_def Let_def store_ok_def reals_ok_def)
  ultimately show ?thesis by (simp add: store_ok_def)
qed

lemma UpdateUser_ok [inv_intros]: "store_ok st \<Longrightarrow> store_ok (snd (UpdateUser fails u st))"
  by (simp add: UpdateUser_def Let_def update_users_ok)

lemma Touch_ok [inv_intros]:
  "store_ok st \<Longrightarrow> store_ok (snd (TouchLastSeen fails now i st))"
  "store_ok st \<Longrightarrow> store_ok (snd (TouchLastActive fails now i st))"
  by (simp_all add: TouchLastSeen_def TouchLastActive_def update_users_ok)

lemma DeleteUser_refs: "referenced (snd (DeleteUser False i st)) \<subseteq> referenced st - {normalizeID i}"
  by (auto simp: DeleteUser_def Let_def referenced_def intro: rev_image_eqI)

lemma DeleteUser_ok [inv_intros]: "store_ok st \<Longrightarrow> store_ok (snd (DeleteUser fails i st))"
proof (cases fails)
  case False
  assume ok: "store_ok st"
  let ?st' = "snd (DeleteUser False i st)"
  have "u_ID ` set (users ?st') = u_ID ` set (users st) - {normalizeID i}"
    by (auto simp: DeleteUser_def Let_def)
  then have "refs_ok ?st'" using ok DeleteUser_refs [of i st] by (auto simp: store_ok_def refs_ok_def)
  moreover have "keys_ok ?st'" using ok
    by (simp add: DeleteUser_def Let_def store_ok_def keys_ok_def distinct_map_filter)
  moreover have "reals_ok ?st'" using ok by (auto simp: DeleteUser_def Let_def store_ok_def reals_ok_def)
  ultimately show ?thesis using False by (simp add: store_ok_def)
qed (simp add: DeleteUser_def)

text \<open>The write of one table, given what the new table keeps.\<close>

lemma write_configs:
  assumes "store_ok st" and "distinct (keys_of m)" and "set (keys_of m) \<subseteq> u_ID ` set (users st)"
    and "rows_all (\<lambda>c. c_limit_usd c \<noteq> NaN) m"
  shows "store_ok (st\<lparr>budget_configs := m\<rparr>)"
  using assms by (simp add: ok_defs)

lemma write_budgets:
  assumes "store_ok st" and "distinct (keys_of m)" and "fst ` set (keys_of m) \<subseteq> u_ID ` set (users st)"
    and "rows_all period_real m"
  shows "store_ok (st\<lparr>user_budgets := m\<rparr>)"
  using assms by (simp add: ok_defs)

lemma write_grants:
  assumes "store_ok st" and "distinct (map g_ID gs)" and "g_UserID ` set gs \<subseteq> u_ID ` set (users st)"
    and "\<And>g. g \<in> set gs \<Longrightarrow> grant_real g"
  shows "store_ok (st\<lparr>user_grants := gs\<rparr>)"
  using assms by (simp add: ok_defs)

lemma write_limits:
  assumes "store_ok st" and "distinct (keys_of m)" and "fst ` set (keys_of m) \<subseteq> u_ID ` set (users st)"
    and "rows_all (\<lambda>l. ml_MaxDailyUSD l \<noteq> NaN) m"
  shows "store_ok (st\<lparr>user_model_limits := m\<rparr>)"
  using assms by (simp add: ok_defs)

lemma write_tasks:
  assumes "store_ok st" and "distinct (keys_of m)" and "rows_all task_real m"
  shows "store_ok (st\<lparr>task_budgets := m\<rparr>)"
  using assms by (simp add: ok_defs)

lemma store_okD:
  assumes "store_ok st"
  shows "distinct (keys_of (budget_configs st))" "set (keys_of (budget_configs st)) \<subseteq> u_ID ` set (users st)"
    "rows_all (\<lambda>c. c_limit_usd c \<noteq> NaN) (budget_configs st)"
    "distinct (keys_of (user_budgets st))" "fst ` set (keys_of (user_budgets st)) \<subseteq> u_ID ` set (users st)"
    "rows_all period_real (user_budgets st)"
    "distinct (map g_ID (user_grants st))" "g_UserID ` set (user_grants st) \<subseteq> u_ID ` set (users st)"
    "\<And>g. g \<in> set (user_grants st) \<Longrightarrow> grant_real g"
    "distinct (keys_of (user_model_limits st))" "fst ` set (keys_of (user_model_limits st)) \<subseteq> u_ID ` set (users st)"
    "rows_all (\<lambda>l. ml_MaxDailyUSD l \<noteq> NaN) (user_model_limits st)"
    "distinct (keys_of (task_budgets st))" "rows_all task_real (task_budgets st)"
  using assms by (simp_all add: ok_defs)

text \<open>An upsert of one row, and an update of the rows with a key.\<close>

lemma upsert_config:
  "store_ok st \<Longrightarrow> has_user st k \<Longrightarrow> c_limit_usd c \<noteq> NaN \<Longrightarrow> store_ok (st\<lparr>budget_configs := AList.update k c (budget_configs st)\<rparr>)"
  using store_okD(1-3) [of st] by (intro write_configs) (simp_all add: has_user_iff)

lemma upsert_budget:
  "store_ok st \<Longrightarrow> has_user st (fst k) \<Longrightarrow> period_real p \<Longrightarrow> store_ok (st\<lparr>user_budgets := AList.update k p (user_budgets st)\<rparr>)"
  using store_okD(4-6) [of st] by (intro write_budgets) (simp_all add: has_user_iff)

lemma upsert_limit:
  "store_ok st \<Longrightarrow> has_user st (fst k) \<Longrightarrow> ml_MaxDailyUSD l \<noteq> NaN \<Longrightarrow>
     store_ok (st\<lparr>user_model_limits := AList.update k l (user_model_limits st)\<rparr>)"
  using store_okD(10-12) [of st] by (intro write_limits) (simp_all add: has_user_iff)

lemma upsert_task:
  "store_ok st \<Longrightarrow> task_real b \<Longrightarrow> store_ok (st\<lparr>task_budgets := AList.update k b (task_budgets st)\<rparr>)"
  using store_okD(13,14) [of st] by (intro write_tasks) simp_all

lemma modify_config:
  "store_ok st \<Longrightarrow> (\<And>c. c_limit_usd (f c) = c_limit_usd c) \<Longrightarrow>
     store_ok (st\<lparr>budget_configs := AList.map_entry k f (budget_configs st)\<rparr>)"
  using store_okD(1-3) [of st] by (intro write_configs) (simp_all add: rows_all_map_entry)

lemma modify_budget:
  "store_ok st \<Longrightarrow> (\<And>p. period_real p \<Longrightarrow> period_real (f p)) \<Longrightarrow>
     store_ok (st\<lparr>user_budgets := AList.map_entry k f (user_budgets st)\<rparr>)"
  using store_okD(4-6) [of st] by (intro write_budgets) (simp_all add: rows_all_map_entry)

lemma SetBudget_ok [inv_intros]: "store_ok st \<Longrightarrow> store_ok (snd (SetBudget flt loc now b st))"
proof -
  assume ok: "store_ok st"
  have per: "period_real p" if "map_of (user_budgets st) k = Some p" for k p
    using store_okD(6) [OF ok] that by (rule rows_all_lookup)
  show ?thesis
  proof (cases "b_UserID b = [] \<or> flt 0 \<or> is_nan (b_LimitUSD b) \<or> \<not> has_user st (normalizeID (b_UserID b))")
    case True
    then show ?thesis using ok by (auto simp: SetBudget_def Let_def)
  next
    case False
    define cfg where "cfg = (case map_of (budget_configs st) (normalizeID (b_UserID b)) of
        None \<Rightarrow> \<lparr>c_limit_usd = b_LimitUSD b, c_period_type = or_daily (b_PeriodType b), c_soft_blocked = False,
                 c_soft_blocked_at = 0, c_updated_at = now\<rparr>
      | Some c \<Rightarrow> c\<lparr>c_limit_usd := b_LimitUSD b, c_period_type := or_daily (b_PeriodType b), c_updated_at := now\<rparr>)"
    define st1 where "st1 = st\<lparr>budget_configs := AList.update (normalizeID (b_UserID b)) cfg (budget_configs st)\<rparr>"
    have "c_limit_usd cfg = b_LimitUSD b" by (simp add: cfg_def split: option.split)
    then have st1: "store_ok st1" "has_user st1 = has_user st" "user_budgets st1 = user_budgets st"
      using False ok by (simp_all add: st1_def upsert_config is_nan_def has_user_def fun_eq_iff)
    show ?thesis
      unfolding SetBudget_def Let_def cfg_def [symmetric] st1_def [symmetric]
      using False st1 ok per
      by (auto intro!: upsert_budget simp flip: st1(3) simp: period_real_def is_nan_def zero_f64_def split: option.split)
  qed
qed

lemma ResetSpend_ok [inv_intros]: "store_ok st \<Longrightarrow> store_ok (snd (ResetSpend flt loc now i st))"
proof -
  assume ok: "store_ok st"
  have "store_ok (st\<lparr>user_budgets := AList.map_entry k
      (\<lambda>p. p\<lparr>p_spent_usd := 0, p_tokens_used := 0, p_updated_at := now\<rparr>) (user_budgets st)\<rparr>)" for k
    by (rule modify_budget [OF ok]) (simp add: period_real_def zero_f64_def)
  note st1 = this
  have "store_ok (st\<lparr>user_budgets := AList.map_entry k
      (\<lambda>p. p\<lparr>p_spent_usd := 0, p_tokens_used := 0, p_updated_at := now\<rparr>) (user_budgets st),
      budget_configs := AList.map_entry k'
        (\<lambda>c. c\<lparr>c_soft_blocked := False, c_soft_blocked_at := 0, c_updated_at := now\<rparr>) (budget_configs st)\<rparr>)" for k k'
    using modify_config [OF st1 [of k], of "\<lambda>c. c\<lparr>c_soft_blocked := False, c_soft_blocked_at := 0, c_updated_at := now\<rparr>" k']
    by simp
  with st1 ok show ?thesis by (simp add: ResetSpend_def Let_def)
qed

lemma append_grant:
  "store_ok st \<Longrightarrow> has_user st (g_UserID g) \<Longrightarrow> g_ID g \<notin> g_ID ` set (user_grants st) \<Longrightarrow> grant_real g \<Longrightarrow>
     store_ok (st\<lparr>user_grants := user_grants st @ [g]\<rparr>)"
  using store_okD(7-9) [of st] by (intro write_grants) (auto simp: has_user_iff)

lemma map_grants:
  assumes "store_ok st"
    and f: "\<And>g. g \<in> set (user_grants st) \<Longrightarrow> g_ID (f g) = g_ID g \<and> g_UserID (f g) = g_UserID g \<and> grant_real (f g)"
  shows "store_ok (st\<lparr>user_grants := map f (user_grants st)\<rparr>)"
proof (rule write_grants [OF assms(1)])
  have "map g_ID (map f (user_grants st)) = map g_ID (user_grants st)" using f by simp
  then show "distinct (map g_ID (map f (user_grants st)))" using store_okD(7) [OF assms(1)] by metis
  show "g_UserID ` set (map f (user_grants st)) \<subseteq> u_ID ` set (users st)"
    using store_okD(8) [OF assms(1)] f by auto
qed (use f in auto)

lemma Grant_ok [inv_intros]:
  assumes ok: "store_ok st"
  shows "store_ok (snd (CreateGrant fails newid now g st))" "store_ok (snd (RevokeGrant fails now i gid st))"
proof -
  show "store_ok (snd (CreateGrant fails newid now g st))"
    using ok by (auto simp: CreateGrant_def Let_def grant_real_def is_nan_def intro!: append_grant)
  show "store_ok (snd (RevokeGrant fails now i gid st))"
    using ok store_okD(9) [OF ok] by (auto simp: RevokeGrant_def Let_def grant_real_def intro!: map_grants)
qed

lemma ModelLimit_ok [inv_intros]:
  assumes ok: "store_ok st"
  shows "store_ok (snd (SetModelLimit fails now l st))" "store_ok (snd (DeleteModelLimit fails i mp st))"
proof -
  show "store_ok (snd (SetModelLimit fails now l st))"
    using ok by (auto simp: SetModelLimit_def Let_def is_nan_def intro!: upsert_limit split: option.split)
  let ?m = "AList.delete (normalizeID i, mp) (user_model_limits st)"
  have "store_ok (st\<lparr>user_model_limits := ?m\<rparr>)"
  proof (rule write_limits [OF ok])
    show "fst ` set (keys_of ?m) \<subseteq> u_ID ` set (users st)"
      using store_okD(11) [OF ok] set_delete_subset [of "(normalizeID i, mp)" "user_model_limits st"]
      unfolding set_map by (meson image_mono order_trans)
  qed (use store_okD(10,12) [OF ok] in \<open>simp_all add: distinct_delete\<close>)
  then show "store_ok (snd (DeleteModelLimit fails i mp st))"
    using ok by (simp add: DeleteModelLimit_def)
qed

lemma Task_ok [inv_intros]:
  assumes ok: "store_ok st"
  shows "store_ok (snd (CreateTaskBudget fails now tb st))" "store_ok (snd (DeleteTaskBudget fails tid st))"
    "store_ok (snd (DeductTaskSpend fails tid cost st))"
proof -
  show "store_ok (snd (CreateTaskBudget fails now tb st))"
    using ok by (auto simp: CreateTaskBudget_def Let_def is_nan_def task_real_def zero_f64_def intro!: upsert_task split: option.split)
  show "store_ok (snd (DeleteTaskBudget fails tid st))"
    using ok store_okD(13,14) [OF ok] by (auto simp: DeleteTaskBudget_def distinct_delete intro!: write_tasks)
  have "task_real b" if "map_of (task_budgets st) k = Some b" for k b
    using store_okD(14) [OF ok] that by (rule rows_all_lookup)
  then show "store_ok (snd (DeductTaskSpend fails tid cost st))"
    using ok by (auto simp: DeductTaskSpend_def is_nan_def task_real_def intro!: upsert_task split: option.split)
qed

lemma upsert_rate: "store_ok st \<Longrightarrow> store_ok (st\<lparr>rate_limits := AList.update k n (rate_limits st)\<rparr>)"
  by (simp add: ok_defs)

lemma append_audit:
  "store_ok st \<Longrightarrow> has_user st (a_UserID a) \<Longrightarrow> a_ID a \<notin> a_ID ` set (user_audit_log st) \<Longrightarrow>
     store_ok (st\<lparr>user_audit_log := user_audit_log st @ [a]\<rparr>)"
  by (simp add: ok_defs has_user_iff)

lemma append_global: "store_ok st \<Longrightarrow> a_ID a \<notin> a_ID ` set (global_audit_log st) \<Longrightarrow> store_ok (st\<lparr>global_audit_log := global_audit_log st @ [a]\<rparr>)"
  by (simp add: ok_defs)

lemma CheckRateLimit_ok [inv_intros]: "store_ok st \<Longrightarrow> store_ok (snd (CheckRateLimit flt now i st))"
  by (simp add: CheckRateLimit_def Let_def upsert_rate)

lemma Log_ok [inv_intros]:
  assumes ok: "store_ok st"
  shows "store_ok (snd (LogAction fails newid now a st))" "store_ok (snd (LogGlobalAction fails newid now a st))"
  using ok by (auto simp: LogAction_def LogGlobalAction_def Let_def intro!: append_audit append_global)

text \<open>The transaction of \<^verbatim>\<open>DeductSpend\<close>.\<close>

lemma add_grant_spent_ok:
  assumes "store_ok (st\<lparr>user_grants := tbl\<rparr>)" and "add_grant_spent i d tbl = Some tbl'"
  shows "store_ok (st\<lparr>user_grants := tbl'\<rparr>)"
proof -
  have "tbl' = map (\<lambda>g. if g_ID g = i then g\<lparr>g_SpentUSD := g_SpentUSD g + d\<rparr> else g) tbl"
    and "\<And>g. g \<in> set tbl \<Longrightarrow> g_ID g = i \<Longrightarrow> g_SpentUSD g + d \<noteq> NaN"
    using assms(2) by (auto simp: add_grant_spent_def is_nan_def split: if_splits)
  moreover from this have "store_ok (st\<lparr>user_grants := tbl, user_grants := map (\<lambda>g. if g_ID g = i then g\<lparr>g_SpentUSD := g_SpentUSD g + d\<rparr> else g) tbl\<rparr>)"
    using map_grants [OF assms(1), of "\<lambda>g. if g_ID g = i then g\<lparr>g_SpentUSD := g_SpentUSD g + d\<rparr> else g"]
      store_okD(9) [OF assms(1)] by (simp add: grant_real_def)
  ultimately show ?thesis by simp
qed

lemma charge_grants_ok:
  "charge_grants flt gs r tbl = Some (tbl', r') \<Longrightarrow> store_ok (st\<lparr>user_grants := tbl\<rparr>) \<Longrightarrow> store_ok (st\<lparr>user_grants := tbl'\<rparr>)"
proof (induction flt gs r tbl rule: charge_grants.induct)
  case (2 flt g gs r tbl)
  then show ?case by (auto simp: Let_def add_grant_spent_ok split: if_splits option.splits)
qed simp

lemma charge_period_ok:
  assumes "store_ok st" and "charge_period now uid key pt l c bt tk st = Some st'"
  shows "store_ok st'" and "user_grants st' = user_grants st" and "budget_configs st' = budget_configs st" and "users st' = users st"
proof -
  have p: "period_real p" "has_user st uid" if "map_of (user_budgets st) (uid, key) = Some p" for p
    using rows_all_lookup [OF store_okD(6) [OF assms(1)] that] store_okD(5) [OF assms(1)] keys_lookup [OF that]
    by (force simp: has_user_iff)+
  show "store_ok st'"
    using assms p by (auto simp: charge_period_def is_nan_def period_real_def intro!: upsert_budget split: option.splits if_splits)
qed (use assms(2) in \<open>auto simp: charge_period_def split: option.splits if_splits\<close>)

lemma charge_budget_ok:
  assumes "store_ok st" and "charge_budget flt loc now uid cost tokens gs st = Some (st1, r)"
  shows "store_ok st1" and "user_grants st1 = user_grants st" and "budget_configs st1 = budget_configs st" and "users st1 = users st"
  using assms charge_period_ok [OF assms(1)] by (auto simp: charge_budget_def Let_def split: if_splits)

lemma deduct_txE:
  assumes "deduct_tx flt loc now uid cost tokens st = Some st'"
  obtains st1 r tbl r' where
    "charge_budget flt loc now uid cost tokens (active_grants now uid st) st = Some (st1, r)"
    "charge_grants (\<lambda>i. flt (WriteGrant i)) (active_grants now uid st) r (user_grants st1) = Some (tbl, r')"
    "st' = (if overdraft_eps < r' \<and> \<not> flt SoftBlock then soft_block now uid (st1\<lparr>user_grants := tbl\<rparr>) else st1\<lparr>user_grants := tbl\<rparr>)"
  using assms unfolding deduct_tx_def Let_def by (auto split: if_splits option.splits prod.splits)

lemma deduct_tx_ok:
  assumes ok: "store_ok st" and tx: "deduct_tx flt loc now uid cost tokens st = Some st'"
  shows "store_ok st'"
  using tx
proof (rule deduct_txE)
  fix st1 r tbl r'
  assume st1: "charge_budget flt loc now uid cost tokens (active_grants now uid st) st = Some (st1, r)"
    and tbl: "charge_grants (\<lambda>i. flt (WriteGrant i)) (active_grants now uid st) r (user_grants st1) = Some (tbl, r')"
    and st': "st' = (if overdraft_eps < r' \<and> \<not> flt SoftBlock then soft_block now uid (st1\<lparr>user_grants := tbl\<rparr>) else st1\<lparr>user_grants := tbl\<rparr>)"
  have "store_ok (st1\<lparr>user_grants := tbl\<rparr>)"
    by (rule charge_grants_ok [OF tbl]) (simp add: charge_budget_ok(1) [OF ok st1])
  then show ?thesis using st' modify_config [of "st1\<lparr>user_grants := tbl\<rparr>"] by (simp add: soft_block_def)
qed

lemma DeductSpend_ok [inv_intros]: "store_ok st \<Longrightarrow> store_ok (snd (DeductSpend flt loc now i cost tokens st))"
  by (auto simp: DeductSpend_def deduct_tx_ok split: option.split)

section \<open>Reachable states\<close>

lemma empty_store_ok: "store_ok empty_store"
  by (simp add: ok_defs empty_store_def)

lemma store_step_ok: "store_step st st' \<Longrightarrow> store_ok st \<Longrightarrow> store_ok st'"
  by (induction rule: store_step.induct) (rule inv_intros, assumption)+

end
