(* ===== verification/Ledger.thy ===== *)
theory Ledger
  imports StoreInvariant
begin

text \<open>
  The contract of \<^verbatim>\<open>DeductSpend\<close> and \<^verbatim>\<open>CheckBudget\<close> over exact amounts, and that the code keeps it.

  The contract is a waterfall over rational dollars: the recurring budget pays up to what is
  left of its limit, the active grants pay the overflow in the order of their expiry, and what
  no grant covers is booked on the recurring budget.  Amounts on the dollar grid of \<^verbatim>\<open>Float64\<close>,
  with a total of at most \<open>2 ^ 20\<close> dollars, make every \<^verbatim>\<open>float64\<close> operation of the code exact; for
  these the refinement is an equation between the code's state and the contract's.
\<close>

section \<open>The contract\<close>

fun usd :: "f64 \<Rightarrow> rat" where
  "usd (Fin a) = a"
| "usd _ = 0"

text \<open>What each of the balances \<open>as\<close> pays of the amount \<open>r\<close>, in order.\<close>

fun pay :: "rat \<Rightarrow> rat list \<Rightarrow> rat list" where
  "pay r [] = []"
| "pay r (a # as) = min r a # pay (r - min r a) as"

definition budget_share :: "rat \<Rightarrow> rat \<Rightarrow> rat \<Rightarrow> rat list \<Rightarrow> rat" where
  "budget_share limit spent cost balances =
     (let b = min cost (max 0 (limit - spent)) in b + max 0 (cost - b - sum_list balances))"

definition balance :: "GrantRecord \<Rightarrow> rat" where
  "balance g = usd (g_AmountUSD g) - usd (g_SpentUSD g)"

definition credit :: "(string \<times> rat) list \<Rightarrow> GrantRecord \<Rightarrow> GrantRecord" where
  "credit ps g = (case map_of ps (g_ID g) of None \<Rightarrow> g | Some d \<Rightarrow> g\<lparr>g_SpentUSD := Fin (usd (g_SpentUSD g) + d)\<rparr>)"

definition exact :: "f64 list \<Rightarrow> bool" where
  "exact xs \<longleftrightarrow> (\<forall>x \<in> set xs. \<exists>a. x = Fin a \<and> on_grid a) \<and> (\<Sum>x\<leftarrow>xs. \<bar>usd x\<bar>) \<le> 2 ^ 20"

definition grant_amounts :: "GrantRecord list \<Rightarrow> f64 list" where
  "grant_amounts gs = concat (map (\<lambda>g. [g_AmountUSD g, g_SpentUSD g]) gs)"

text \<open>What a deduction for a user reads from the store.\<close>

definition limit_of :: "string \<Rightarrow> store \<Rightarrow> f64" where
  "limit_of uid st = (case map_of (budget_configs st) uid of None \<Rightarrow> 0 | Some c \<Rightarrow> c_limit_usd c)"

definition key_of :: "(gotime \<Rightarrow> int) \<Rightarrow> gotime \<Rightarrow> string \<Rightarrow> store \<Rightarrow> string" where
  "key_of loc now uid st =
     currentPeriodKey (or_daily (case map_of (budget_configs st) uid of None \<Rightarrow> [] | Some c \<Rightarrow> c_period_type c)) loc now"

definition spent_of :: "string \<Rightarrow> string \<Rightarrow> store \<Rightarrow> f64" where
  "spent_of uid key st = (case map_of (user_budgets st) (uid, key) of None \<Rightarrow> 0 | Some p \<Rightarrow> p_spent_usd p)"

definition has_budget :: "(gotime \<Rightarrow> int) \<Rightarrow> gotime \<Rightarrow> string \<Rightarrow> store \<Rightarrow> bool" where
  "has_budget loc now uid st \<longleftrightarrow>
     map_of (budget_configs st) uid \<noteq> None \<or> map_of (user_budgets st) (uid, key_of loc now uid st) \<noteq> None"

definition ledger_amounts :: "(gotime \<Rightarrow> int) \<Rightarrow> gotime \<Rightarrow> string \<Rightarrow> f64 \<Rightarrow> store \<Rightarrow> f64 list" where
  "ledger_amounts loc now uid cost st =
     limit_of uid st # spent_of uid (key_of loc now uid st) st # cost # grant_amounts (active_grants now uid st)"

text \<open>All that is booked for a user: on the current period and on the user's grants.\<close>

definition booked :: "string \<Rightarrow> string \<Rightarrow> store \<Rightarrow> rat" where
  "booked uid key st =
     usd (spent_of uid key st) + (\<Sum>g\<leftarrow>filter (\<lambda>g. g_UserID g = uid) (user_grants st). usd (g_SpentUSD g))"

section \<open>Facts about the contract\<close>

lemma sum_pay: "0 \<le> r \<Longrightarrow> (\<And>a. a \<in> set as \<Longrightarrow> 0 \<le> a) \<Longrightarrow> sum_list (pay r as) = min r (sum_list as)"
proof (induction as arbitrary: r)
  case (Cons a as)
  have "0 \<le> sum_list as" using Cons.prems by (simp add: sum_list_nonneg)
  then show ?case using Cons.IH [of "r - min r a"] Cons.prems by auto
qed simp

lemma length_pay [simp]: "length (pay r as) = length as"
  by (induction as arbitrary: r) auto

lemma pay_bounds:
  "0 \<le> r \<Longrightarrow> (\<And>a. a \<in> set as \<Longrightarrow> 0 \<le> a) \<Longrightarrow> i < length as \<Longrightarrow> 0 \<le> pay r as ! i \<and> pay r as ! i \<le> as ! i"
proof (induction as arbitrary: r i)
  case (Cons a as)
  then show ?case using Cons.IH [of "r - min r a" "i - 1"] by (cases i) auto
qed simp

text \<open>A later balance pays only when the earlier ones are used up.\<close>

lemma pay_order:
  "0 \<le> r \<Longrightarrow> (\<And>a. a \<in> set as \<Longrightarrow> 0 \<le> a) \<Longrightarrow> i < j \<Longrightarrow> j < length as \<Longrightarrow> 0 < pay r as ! j \<Longrightarrow> pay r as ! i = as ! i"
proof (induction as arbitrary: r i j)
  case (Cons a as)
  then obtain j' where j: "j = Suc j'" by (cases j) auto
  show ?case
  proof (cases i)
    case 0
    have "r - min r a > 0"
    proof (rule ccontr)
      assume "\<not> 0 < r - min r a"
      then have "r - min r a = 0" by simp
      moreover have "sum_list (pay 0 as) = 0"
        using sum_pay [of 0 as] Cons.prems sum_list_nonneg [of as] by simp
      moreover have "\<forall>x \<in> set (pay 0 as). 0 \<le> x"
        using pay_bounds [of 0 as] Cons.prems by (auto simp: in_set_conv_nth)
      ultimately have "pay (r - min r a) as ! j' = 0"
        using Cons.prems j by (simp add: sum_list_nonneg_eq_0_iff)
      with Cons.prems j show False by simp
    qed
    then show ?thesis using 0 by (auto simp: min_def split: if_splits)
  next
    case (Suc i')
    then show ?thesis using Cons.IH [of "r - min r a" i' j'] Cons.prems j by auto
  qed
qed simp

lemma exact_Cons: "exact (x # xs) \<Longrightarrow> exact xs"
  by (auto simp: exact_def)

lemma exact_append: "exact (xs @ ys) \<Longrightarrow> exact xs \<and> exact ys"
proof -
  assume e: "exact (xs @ ys)"
  have "0 \<le> (\<Sum>x\<leftarrow>xs. \<bar>usd x\<bar>)" "0 \<le> (\<Sum>x\<leftarrow>ys. \<bar>usd x\<bar>)" by (rule sum_list_nonneg, auto)+
  with e show ?thesis by (auto simp: exact_def)
qed

lemma exactD:
  assumes "exact xs" and "x \<in> set xs"
  obtains a where "x = Fin a" and "on_grid a" and "\<bar>a\<bar> \<le> 2 ^ 20"
proof -
  obtain a where a: "x = Fin a" "on_grid a" using assms by (auto simp: exact_def)
  have "\<bar>usd x\<bar> \<le> (\<Sum>x\<leftarrow>xs. \<bar>usd x\<bar>)" using assms(2) by (intro member_le_sum_list) auto
  with a assms show ?thesis by (intro that) (auto simp: exact_def)
qed

section \<open>The code on exact amounts\<close>

lemma active_grants_mem: "g \<in> set (active_grants now uid st) \<Longrightarrow> g \<in> set (user_grants st) \<and> g_UserID g = uid \<and> g_SpentUSD g < g_AmountUSD g"
  by (auto simp: active_grants_def)

lemma distinct_active_grants: "distinct (map g_ID (user_grants st)) \<Longrightarrow> distinct (map g_ID (active_grants now uid st))"
proof -
  assume d: "distinct (map g_ID (user_grants st))"
  have "inj_on g_ID (set (user_grants st))" "distinct (user_grants st)" using d by (simp_all add: distinct_map)
  then show ?thesis
    by (auto simp: distinct_map active_grants_def distinct_filter intro: inj_on_subset)
qed

lemma grid_le: "on_grid a \<Longrightarrow> on_grid b \<Longrightarrow> \<bar>a\<bar> \<le> 2 ^ 20 \<Longrightarrow> \<bar>b\<bar> \<le> 2 ^ 20 \<Longrightarrow> Fin a - Fin b = Fin (a - b) \<and> Fin a + Fin b = Fin (a + b)"
proof -
  assume g: "on_grid a" "on_grid b" and b: "\<bar>a\<bar> \<le> 2 ^ 20" "\<bar>b\<bar> \<le> 2 ^ 20"
  have "\<bar>a - b\<bar> \<le> 2 ^ 21" "\<bar>a + b\<bar> \<le> 2 ^ 21" using b by simp_all
  then show ?thesis using g by (simp add: grid_diff grid_add del: plus_f64.simps)
qed

text \<open>An exact grant: both amounts are on the grid and small, and something is left.\<close>

definition exact_grant :: "GrantRecord \<Rightarrow> bool" where
  "exact_grant g \<longleftrightarrow> (\<exists>a s. g_AmountUSD g = Fin a \<and> g_SpentUSD g = Fin s \<and> on_grid a \<and> on_grid s
     \<and> \<bar>a\<bar> \<le> 2 ^ 20 \<and> \<bar>s\<bar> \<le> 2 ^ 20 \<and> s < a)"

lemma exact_grant_diff:
  "exact_grant g \<Longrightarrow> g_AmountUSD g - g_SpentUSD g = Fin (balance g) \<and> on_grid (balance g) \<and> 0 < balance g"
  using grid_le by (auto simp: exact_grant_def balance_def)

lemma exact_grants:
  assumes "exact (grant_amounts gs)" and "\<And>g. g \<in> set gs \<Longrightarrow> g_SpentUSD g < g_AmountUSD g" and "g \<in> set gs"
  shows "exact_grant g"
proof -
  have "g_AmountUSD g \<in> set (grant_amounts gs)" "g_SpentUSD g \<in> set (grant_amounts gs)"
    using assms(3) by (auto simp: grant_amounts_def)
  then obtain a s where "g_AmountUSD g = Fin a" "on_grid a" "\<bar>a\<bar> \<le> 2 ^ 20" "g_SpentUSD g = Fin s" "on_grid s" "\<bar>s\<bar> \<le> 2 ^ 20"
    using exactD [OF assms(1)] by metis
  then show ?thesis using assms(2) [OF assms(3)] by (auto simp: exact_grant_def)
qed

lemma sum_balances: "(\<Sum>g\<leftarrow>gs. balance g) \<le> (\<Sum>x\<leftarrow>grant_amounts gs. \<bar>usd x\<bar>)"
  by (induction gs) (auto simp: grant_amounts_def balance_def)

lemma balances_le: "exact (grant_amounts gs) \<Longrightarrow> (\<Sum>g\<leftarrow>gs. balance g) \<le> 2 ^ 20"
  using sum_balances [of gs] by (simp add: exact_def)

lemma grant_coverage_exact:
  assumes "\<And>g. g \<in> set gs \<Longrightarrow> exact_grant g" and "(\<Sum>g\<leftarrow>gs. balance g) \<le> 2 ^ 20"
  shows "grant_coverage gs = Fin (\<Sum>g\<leftarrow>gs. balance g) \<and> on_grid (\<Sum>g\<leftarrow>gs. balance g)"
proof -
  have "foldl (\<lambda>acc g. let rem = g_AmountUSD g - g_SpentUSD g in if 0 < rem then acc + rem else acc) (Fin x) gs
          = Fin (x + (\<Sum>g\<leftarrow>gs. balance g)) \<and> on_grid (x + (\<Sum>g\<leftarrow>gs. balance g))"
    if "on_grid x" "0 \<le> x" "x + (\<Sum>g\<leftarrow>gs. balance g) \<le> 2 ^ 20" "\<forall>g \<in> set gs. exact_grant g" for x gs
    using that
  proof (induction gs arbitrary: x)
    case (Cons g gs)
    have d: "g_AmountUSD g - g_SpentUSD g = Fin (balance g)" "on_grid (balance g)" "0 < balance g"
      using exact_grant_diff Cons.prems by auto
    have "0 \<le> (\<Sum>g\<leftarrow>gs. balance g)"
      using Cons.prems exact_grant_diff by (intro sum_list_nonneg) (auto simp: less_imp_le)
    then have "Fin x + Fin (balance g) = Fin (x + balance g)"
      using Cons.prems d by (intro grid_add) auto
    then show ?case using Cons.IH [of "x + balance g"] Cons.prems d
      by (simp add: add.assoc zero_f64_def del: plus_f64.simps)
  qed simp
  from this [of 0 gs] show ?thesis using assms by (simp add: grant_coverage_def zero_f64_def)
qed

lemma fmin_Fin [simp]: "fmin (Fin a) (Fin b) = Fin (min a b)"
  by (simp add: fmin_def min_def)

lemma fmax_Fin [simp]: "fmax (Fin a) (Fin b) = Fin (max a b)"
  by (simp add: fmax_def max_def)

text \<open>The charge of the recurring budget is the contract's.\<close>

lemma budget_charge_exact:
  assumes "\<And>g. g \<in> set gs \<Longrightarrow> exact_grant g" and "(\<Sum>g\<leftarrow>gs. balance g) \<le> 2 ^ 20"
    and g: "on_grid L" "on_grid S" "on_grid c" and b: "\<bar>L\<bar> \<le> 2 ^ 20" "\<bar>S\<bar> \<le> 2 ^ 20" "0 \<le> c" "c \<le> 2 ^ 20"
  defines "B \<equiv> budget_share L S c (map balance gs)"
  shows "budget_charge (Fin L) (Fin S) (Fin c) gs = Fin B" and "on_grid B" and "0 \<le> B" and "B \<le> c"
    and "c - B \<le> (\<Sum>g\<leftarrow>gs. balance g)"
proof -
  define V where "V = (\<Sum>g\<leftarrow>gs. balance g)"
  have V: "grant_coverage gs = Fin V" "on_grid V" "V \<le> 2 ^ 20" "0 \<le> V"
    using grant_coverage_exact [OF assms(1,2)] assms(1,2) exact_grant_diff
    by (auto simp: V_def less_imp_le intro!: sum_list_nonneg)
  define d where "d = min c (max 0 (L - S))"
  have d: "on_grid d" "0 \<le> d" "d \<le> c" using g b by (auto simp: d_def)
  define o' where "o' = c - d"
  have o': "on_grid o'" "0 \<le> o'" "o' \<le> 2 ^ 20" using g d b by (auto simp: o'_def)
  have 1: "Fin L - Fin S = Fin (L - S)" using grid_le g b by blast
  have 2: "Fin c - Fin d = Fin o'" unfolding o'_def using grid_le [of c d] g b d by auto
  have 3: "Fin o' - Fin V = Fin (o' - V)" using grid_le [of o' V] V o' by auto
  have 4: "Fin d + Fin (max 0 (o' - V)) = Fin (d + max 0 (o' - V))"
    using grid_le [of d "max 0 (o' - V)"] V o' d b by auto
  have B: "B = d + max 0 (o' - V)" by (simp add: B_def budget_share_def Let_def d_def o'_def V_def)
  have "fmin (Fin c) (if Fin (L - S) < 0 then 0 else Fin (L - S)) = Fin d"
    by (auto simp: d_def zero_f64_def max_def)
  then show "budget_charge (Fin L) (Fin S) (Fin c) gs = Fin B"
    using o' by (simp add: budget_charge_def Let_def 1 2 3 4 V(1) B zero_f64_def max_def [of 0 o'] del: plus_f64.simps)
  show "on_grid B" "0 \<le> B" "B \<le> c" "c - B \<le> (\<Sum>g\<leftarrow>gs. balance g)"
    using d V o' unfolding B by (auto simp: o'_def simp flip: V_def)
qed

text \<open>The loop over the grants pays as the contract does.\<close>

lemma same_grant: "distinct (map g_ID tbl) \<Longrightarrow> g \<in> set tbl \<Longrightarrow> h \<in> set tbl \<Longrightarrow> g_ID g = g_ID h \<Longrightarrow> g = h"
  by (simp add: distinct_map inj_on_def)

lemma add_grant_spent_exact:
  assumes "distinct (map g_ID tbl)" and "g \<in> set tbl" and "exact_grant g" and "on_grid d" and "0 \<le> d" and "d \<le> 2 ^ 20"
  shows "add_grant_spent (g_ID g) (Fin d) tbl = Some (map (credit [(g_ID g, d)]) tbl)"
proof -
  obtain s where s: "g_SpentUSD g = Fin s" "on_grid s" "\<bar>s\<bar> \<le> 2 ^ 20"
    using assms(3) by (auto simp: exact_grant_def)
  have sum: "Fin s + Fin d = Fin (s + d)" using grid_le [of s d] s assms by auto
  have row: "g_SpentUSD h = Fin s" if "h \<in> set tbl" "g_ID h = g_ID g" for h
    using same_grant [OF assms(1) that(1) assms(2) that(2)] s by simp
  have "\<not> (\<exists>h \<in> set tbl. g_ID h = g_ID g \<and> is_nan (g_SpentUSD h + Fin d))"
    using row sum by (auto simp: is_nan_def simp del: plus_f64.simps)
  then show ?thesis using row sum
    by (simp add: add_grant_spent_def credit_def del: plus_f64.simps)
qed

lemma pay_zero: "(\<And>a. a \<in> set as \<Longrightarrow> 0 \<le> a) \<Longrightarrow> pay 0 as = replicate (length as) 0"
  by (induction as) (auto simp: min_def)

lemma credit_zero:
  assumes "distinct (map g_ID tbl)" and "set gs \<subseteq> set tbl" and "\<And>g. g \<in> set gs \<Longrightarrow> exact_grant g"
  shows "map (credit (zip (map g_ID gs) (replicate (length gs) 0))) tbl = tbl"
proof (rule map_idI)
  fix h assume h: "h \<in> set tbl"
  show "credit (zip (map g_ID gs) (replicate (length gs) 0)) h = h"
  proof (cases "map_of (zip (map g_ID gs) (replicate (length gs) (0 :: rat))) (g_ID h)")
    case (Some d)
    then have m: "(g_ID h, d) \<in> set (zip (map g_ID gs) (replicate (length gs) 0))" by (rule map_of_SomeD)
    then have "d = 0" by (auto dest: set_zip_rightD)
    moreover obtain g where "g \<in> set gs" "g_ID g = g_ID h" using m by (auto dest!: set_zip_leftD)
    then have "h \<in> set gs" using same_grant [OF assms(1)] h assms(2) by (metis subsetD)
    then have "exact_grant h" by (rule assms(3))
    ultimately show ?thesis using Some by (auto simp: credit_def exact_grant_def)
  qed (simp only: credit_def option.case)
qed

lemma credit_Cons:
  "i \<notin> fst ` set ps \<Longrightarrow> credit ps (credit [(i, d)] g) = credit ((i, d) # ps) g"
proof -
  assume "i \<notin> fst ` set ps"
  then have "map_of ps i = None" by (simp add: map_of_eq_None_iff)
  then show ?thesis by (cases "g_ID g = i"; cases "map_of ps (g_ID g)") (simp_all add: credit_def)
qed

lemma credit_ID [simp]: "g_ID (credit ps g) = g_ID g" "g_UserID (credit ps g) = g_UserID g"
  "g_AmountUSD (credit ps g) = g_AmountUSD g"
  by (simp_all add: credit_def split: option.split)

lemma charge_grants_exact:
  assumes "\<And>g. g \<in> set gs \<Longrightarrow> exact_grant g" and "distinct (map g_ID gs)" and "set gs \<subseteq> set tbl"
    and "distinct (map g_ID tbl)" and "\<And>g. g \<in> set gs \<Longrightarrow> \<not> flt (g_ID g)" and "on_grid r" and "0 \<le> r" and "r \<le> 2 ^ 20"
  shows "charge_grants flt gs (Fin r) tbl =
    Some (map (credit (zip (map g_ID gs) (pay r (map balance gs)))) tbl, Fin (r - sum_list (pay r (map balance gs))))"
  using assms
proof (induction gs arbitrary: r tbl)
  case Nil
  then show ?case by (simp add: credit_def cong: map_cong)
next
  case (Cons g gs)
  have bal: "\<And>h. h \<in> set (g # gs) \<Longrightarrow> 0 < balance h" using exact_grant_diff Cons.prems(1) by blast
  show ?case
  proof (cases "r = 0")
    case True
    have p: "pay 0 (map balance (g # gs)) = replicate (length (g # gs)) 0"
      using pay_zero [of "map balance (g # gs)"] bal by (metis length_map less_imp_le image_iff list.set_map)
    have "map (credit (zip (map g_ID (g # gs)) (pay r (map balance (g # gs))))) tbl = tbl"
      unfolding True p by (rule credit_zero [OF Cons.prems(4,3,1)])
    moreover have "sum_list (pay r (map balance (g # gs))) = 0" unfolding True p by (simp add: sum_list_replicate)
    ultimately show ?thesis
      by (simp only: charge_grants.simps) (simp add: True zero_f64_def)
  next
    case False
    define d where "d = min r (balance g)"
    have g: "g_AmountUSD g - g_SpentUSD g = Fin (balance g)" "on_grid (balance g)" "0 < balance g"
      using exact_grant_diff [of g] Cons.prems(1) by auto
    have d: "on_grid d" "0 < d" "d \<le> r" using g Cons.prems False by (auto simp: d_def)
    define tbl1 where "tbl1 = map (credit [(g_ID g, d)]) tbl"
    have add: "add_grant_spent (g_ID g) (Fin d) tbl = Some tbl1"
      unfolding tbl1_def using Cons.prems d by (intro add_grant_spent_exact) auto
    have keep: "credit [(g_ID g, d)] h = h" if "g_ID h \<noteq> g_ID g" for h using that by (simp add: credit_def)
    have sub: "set gs \<subseteq> set tbl1"
    proof
      fix h assume h: "h \<in> set gs"
      then have "g_ID h \<in> g_ID ` set gs" by (rule imageI)
      moreover have "g_ID g \<notin> g_ID ` set gs" "h \<in> set tbl" using Cons.prems(2,3) h by auto
      ultimately have "g_ID h \<noteq> g_ID g" "h \<in> set tbl" by metis+
      then show "h \<in> set tbl1" using keep [of h] by (auto simp: tbl1_def intro: rev_image_eqI)
    qed
    have ids: "map g_ID tbl1 = map g_ID tbl" by (simp add: tbl1_def)
    have "Fin r - Fin d = Fin (r - d)" using grid_le [of r d] Cons.prems d by auto
    then have "charge_grants flt (g # gs) (Fin r) tbl = charge_grants flt gs (Fin (r - d)) tbl1"
      using Cons.prems False g add by (simp add: zero_f64_def Let_def flip: d_def)
    also have "\<dots> = Some (map (credit (zip (map g_ID gs) (pay (r - d) (map balance gs)))) tbl1,
        Fin (r - d - sum_list (pay (r - d) (map balance gs))))"
      using Cons.prems d sub ids by (intro Cons.IH) auto
    also have "map (credit (zip (map g_ID gs) (pay (r - d) (map balance gs)))) tbl1 =
        map (credit (zip (map g_ID (g # gs)) (pay r (map balance (g # gs))))) tbl"
      using Cons.prems(2) by (auto simp: tbl1_def d_def intro!: credit_Cons dest: set_zip_leftD)
    finally show ?thesis by (simp add: d_def algebra_simps)
  qed
qed

text \<open>Crediting the payments raises the total spent by their sum.\<close>

lemma sum_credit:
  assumes "distinct (map g_ID tbl)" and "distinct (map fst ps)" and "fst ` set ps \<subseteq> g_ID ` set tbl"
    and "\<And>g. g \<in> set tbl \<Longrightarrow> g_ID g \<in> fst ` set ps \<Longrightarrow> P g" and P: "\<And>ps g. P (credit ps g) = P g"
  shows "(\<Sum>g\<leftarrow>filter P (map (credit ps) tbl). usd (g_SpentUSD g)) = (\<Sum>g\<leftarrow>filter P tbl. usd (g_SpentUSD g)) + (\<Sum>p\<leftarrow>ps. snd p)"
proof -
  define pd where "pd (g :: GrantRecord) = (case map_of ps (g_ID g) of None \<Rightarrow> 0 | Some d \<Rightarrow> d)" for g
  have "usd (g_SpentUSD (credit ps g)) = usd (g_SpentUSD g) + pd g" for g
    by (simp add: credit_def pd_def split: option.split)
  then have "(\<Sum>g\<leftarrow>filter P (map (credit ps) tbl). usd (g_SpentUSD g)) = (\<Sum>g\<leftarrow>filter P tbl. usd (g_SpentUSD g)) + (\<Sum>g\<leftarrow>filter P tbl. pd g)"
    by (simp add: filter_map comp_def P sum_list_addf)
  moreover have "(\<Sum>g\<leftarrow>filter P tbl. pd g) = (\<Sum>p\<leftarrow>ps. snd p)"
  proof -
    have dt: "distinct (filter P tbl)" "distinct tbl" using assms(1) by (simp_all add: distinct_map)
    have inj: "inj_on g_ID (set tbl)" using assms(1) by (simp add: distinct_map)
    have img: "fst ` set ps = g_ID ` {g \<in> set tbl. g_ID g \<in> fst ` set ps}"
    proof -
      have "g_ID ` {g \<in> A. g_ID g \<in> B} = g_ID ` A \<inter> B" for A :: "GrantRecord set" and B by auto
      with assms(3) show ?thesis by (metis inf.absorb2)
    qed
    have "(\<Sum>g\<leftarrow>filter P tbl. pd g) = (\<Sum>g \<in> {g \<in> set tbl. P g}. pd g)"
      using dt by (simp add: sum_list_distinct_conv_sum_set)
    also have "\<dots> = (\<Sum>g \<in> {g \<in> set tbl. g_ID g \<in> fst ` set ps}. pd g)"
      using assms(4) by (intro sum.mono_neutral_right) (auto simp: pd_def dest: map_of_SomeD split: option.split intro: rev_image_eqI)
    also have "\<dots> = (\<Sum>k \<in> fst ` set ps. case map_of ps k of None \<Rightarrow> 0 | Some d \<Rightarrow> d)"
      using img inj by (intro sum.reindex_cong [of g_ID, symmetric]) (auto simp: pd_def inj_on_def)
    also have "\<dots> = (\<Sum>p \<in> set ps. case map_of ps (fst p) of None \<Rightarrow> 0 | Some d \<Rightarrow> d)"
      using assms(2) by (simp add: sum.reindex distinct_map)
    also have "\<dots> = (\<Sum>p \<in> set ps. snd p)"
    proof (rule sum.cong [OF refl])
      fix p assume "p \<in> set ps"
      then have "map_of ps (fst p) = Some (snd p)" using assms(2) by simp
      then show "(case map_of ps (fst p) of None \<Rightarrow> 0 | Some d \<Rightarrow> d) = snd p" by simp
    qed
    also have "\<dots> = (\<Sum>p\<leftarrow>ps. snd p)"
      using assms(2) by (simp add: sum_list_distinct_conv_sum_set distinct_map)
    finally show ?thesis .
  qed
  ultimately show ?thesis by simp
qed

section \<open>Refinement\<close>

lemma overdraft_eps_nonneg: "\<not> overdraft_eps < Fin 0"
proof -
  have "Fin 0 \<le> overdraft_eps" unfolding overdraft_eps_def by (rule mk_nonneg) simp
  then show ?thesis using f64_less_asym by blast
qed

lemma charge_period_exact:
  assumes "store_ok st" and "map_of (budget_configs st) uid \<noteq> None \<or> map_of (user_budgets st) (uid, key) \<noteq> None"
    and "l \<noteq> NaN" and "spent_of uid key st = Fin s" and "Fin s + Fin b = Fin (s + b)"
  shows "\<exists>st1. charge_period now uid key pt l (Fin b) bt tk st = Some st1 \<and> spent_of uid key st1 = Fin (s + b) \<and>
    user_grants st1 = user_grants st \<and> budget_configs st1 = budget_configs st"
proof (cases "map_of (user_budgets st) (uid, key)")
  case None
  then obtain cfg where "map_of (budget_configs st) uid = Some cfg" using assms(2) by auto
  then have "uid \<in> set (keys_of (budget_configs st))" by (rule keys_lookup)
  then have "has_user st uid" using store_okD(2) [OF assms(1)] unfolding has_user_iff by (rule rev_subsetD)
  then show ?thesis using None assms(3,4) by (simp add: charge_period_def is_nan_def spent_of_def zero_f64_def)
next
  case (Some p)
  then show ?thesis using assms(4,5) by (simp add: charge_period_def is_nan_def spent_of_def del: plus_f64.simps)
qed

text \<open>The amounts of an exact ledger.\<close>

lemma ledger_amountsD:
  assumes "exact (ledger_amounts loc now uid (Fin c) st)" and "0 \<le> c"
  obtains L S where "limit_of uid st = Fin L" "spent_of uid (key_of loc now uid st) st = Fin S"
    "on_grid L" "on_grid S" "on_grid c" "\<bar>L\<bar> \<le> 2 ^ 20" "\<bar>S\<bar> \<le> 2 ^ 20" "c \<le> 2 ^ 20"
    "\<And>g. g \<in> set (active_grants now uid st) \<Longrightarrow> exact_grant g"
    "(\<Sum>g\<leftarrow>active_grants now uid st. balance g) \<le> 2 ^ 20"
proof -
  let ?gs = "active_grants now uid st"
  have gs: "exact (grant_amounts ?gs)" using assms(1) by (auto simp: ledger_amounts_def dest!: exact_Cons)
  have mem: "limit_of uid st \<in> set (ledger_amounts loc now uid (Fin c) st)" "Fin c \<in> set (ledger_amounts loc now uid (Fin c) st)"
    "spent_of uid (key_of loc now uid st) st \<in> set (ledger_amounts loc now uid (Fin c) st)"
    by (simp_all add: ledger_amounts_def)
  obtain L where L: "limit_of uid st = Fin L" "on_grid L" "\<bar>L\<bar> \<le> 2 ^ 20" using exactD [OF assms(1) mem(1)] by blast
  obtain S where S: "spent_of uid (key_of loc now uid st) st = Fin S" "on_grid S" "\<bar>S\<bar> \<le> 2 ^ 20" using exactD [OF assms(1) mem(3)] by blast
  have "on_grid c" "\<bar>c\<bar> \<le> 2 ^ 20" using exactD [OF assms(1) mem(2)] by auto
  moreover have "exact_grant g" if "g \<in> set ?gs" for g
    using exact_grants [OF gs _ that] active_grants_mem by blast
  ultimately show ?thesis using L S balances_le [OF gs] by (intro that [of L S]) auto
qed

lemma paid_in_full:
  assumes "exact (ledger_amounts loc now uid (Fin c) st)" and "0 \<le> c"
  defines "gs \<equiv> active_grants now uid st"
  defines "B \<equiv> budget_share (usd (limit_of uid st)) (usd (spent_of uid (key_of loc now uid st) st)) c (map balance gs)"
  shows "sum_list (pay (c - B) (map balance gs)) = c - B"
proof -
  obtain L S where LS: "limit_of uid st = Fin L" "spent_of uid (key_of loc now uid st) st = Fin S" "on_grid L" "on_grid S" "on_grid c"
    "\<bar>L\<bar> \<le> 2 ^ 20" "\<bar>S\<bar> \<le> 2 ^ 20" "c \<le> 2 ^ 20" "\<And>g. g \<in> set gs \<Longrightarrow> exact_grant g" "(\<Sum>g\<leftarrow>gs. balance g) \<le> 2 ^ 20"
    using ledger_amountsD [OF assms(1,2)] unfolding gs_def by metis
  have "B = budget_share L S c (map balance gs)" by (simp add: B_def LS)
  note B = budget_charge_exact [OF LS(9,10,3,4,5,6,7) assms(2) LS(8), folded this]
  have "0 \<le> a" if "a \<in> set (map balance gs)" for a using that LS(9) exact_grant_diff by (auto simp: less_imp_le)
  then have "sum_list (pay (c - B) (map balance gs)) = min (c - B) (sum_list (map balance gs))"
    using B(4) by (intro sum_pay) auto
  then show ?thesis using B(5) by simp
qed

lemma share_le_cost:
  assumes "exact (ledger_amounts loc now uid (Fin c) st)" and "0 \<le> c"
  shows "0 \<le> c - budget_share (usd (limit_of uid st)) (usd (spent_of uid (key_of loc now uid st) st)) c
    (map balance (active_grants now uid st))"
proof -
  have "0 \<le> balance g" if "g \<in> set (active_grants now uid st)" for g
    using ledger_amountsD [OF assms] exact_grant_diff that by (metis less_imp_le)
  then have "0 \<le> (\<Sum>g\<leftarrow>active_grants now uid st. balance g)" by (intro sum_list_nonneg) auto
  then show ?thesis using assms(2) by (auto simp: budget_share_def Let_def)
qed

lemma deduct_tx_exact:
  assumes ok: "store_ok st" and ex: "exact (ledger_amounts loc now uid (Fin c) st)" and c: "0 \<le> c"
    and flt: "\<forall>s. \<not> flt s" and hb: "has_budget loc now uid st"
  defines "key \<equiv> key_of loc now uid st" and "gs \<equiv> active_grants now uid st"
  defines "B \<equiv> budget_share (usd (limit_of uid st)) (usd (spent_of uid key st)) c (map balance gs)"
  shows "\<exists>st'. deduct_tx flt loc now uid (Fin c) tokens st = Some st' \<and>
    spent_of uid key st' = Fin (usd (spent_of uid key st) + B) \<and>
    user_grants st' = map (credit (zip (map g_ID gs) (pay (c - B) (map balance gs)))) (user_grants st) \<and>
    budget_configs st' = budget_configs st"
proof -
  obtain L S where LS: "limit_of uid st = Fin L" "spent_of uid key st = Fin S" "on_grid L" "on_grid S" "on_grid c"
    "\<bar>L\<bar> \<le> 2 ^ 20" "\<bar>S\<bar> \<le> 2 ^ 20" "c \<le> 2 ^ 20" "\<And>g. g \<in> set gs \<Longrightarrow> exact_grant g" "(\<Sum>g\<leftarrow>gs. balance g) \<le> 2 ^ 20"
    using ledger_amountsD [OF ex c] unfolding key_def gs_def by metis
  have "B = budget_share L S c (map balance gs)" by (simp add: B_def LS)
  note B = budget_charge_exact [OF LS(9,10,3,4,5,6,7) c LS(8), folded this]
  have SB: "Fin S + Fin B = Fin (S + B)" using grid_le [of S B] LS B by auto
  have cB: "Fin c - Fin B = Fin (c - B)" using grid_le [of c B] LS B c by auto
  have nn: "map_of (budget_configs st) uid \<noteq> None \<or> map_of (user_budgets st) (uid, key) \<noteq> None"
    using hb by (simp add: has_budget_def key_def)
  define pt where "pt = or_daily (case map_of (budget_configs st) uid of None \<Rightarrow> [] | Some c \<Rightarrow> c_period_type c)"
  obtain st1 where st1: "charge_period now uid key pt (Fin L) (Fin B) (budget_tokens (Fin c) (Fin B) tokens) tokens st = Some st1"
    "spent_of uid key st1 = Fin (S + B)" "user_grants st1 = user_grants st" "budget_configs st1 = budget_configs st"
    using charge_period_exact [OF ok nn _ LS(2) SB, of "Fin L"] by blast
  have cb: "charge_budget flt loc now uid (Fin c) tokens gs st = Some (st1, Fin (c - B))"
    unfolding charge_budget_def Let_def pt_def [symmetric]
    using nn flt st1(1) LS(1,2) B(1) cB
    by (auto simp: limit_of_def spent_of_def key_def key_of_def pt_def [symmetric] split del: option.split)
  have V: "sum_list (pay (c - B) (map balance gs)) = c - B"
    unfolding B_def gs_def key_def by (rule paid_in_full [OF ex c])
  have cg: "charge_grants (\<lambda>i. flt (WriteGrant i)) gs (Fin (c - B)) (user_grants st1) =
      Some (map (credit (zip (map g_ID gs) (pay (c - B) (map balance gs)))) (user_grants st), Fin 0)"
    unfolding st1(3)
  proof -
    have "set gs \<subseteq> set (user_grants st)" using active_grants_mem unfolding gs_def by blast
    moreover have "distinct (map g_ID gs)" unfolding gs_def by (rule distinct_active_grants [OF store_okD(7) [OF ok]])
    moreover have "on_grid (c - B)" "0 \<le> c - B" "c - B \<le> 2 ^ 20" using LS B c by auto
    ultimately show "charge_grants (\<lambda>i. flt (WriteGrant i)) gs (Fin (c - B)) (user_grants st) =
        Some (map (credit (zip (map g_ID gs) (pay (c - B) (map balance gs)))) (user_grants st), Fin 0)"
      using charge_grants_exact [OF LS(9) _ _ store_okD(7) [OF ok], of gs "\<lambda>i. flt (WriteGrant i)" "c - B"] flt V by simp
  qed
  show ?thesis
    using flt cb cg st1 overdraft_eps_nonneg LS(2)
    by (simp add: deduct_tx_def Let_def gs_def spent_of_def)
qed

text \<open>Without a budget the grants pay alone; what they do not cover is not booked anywhere.\<close>

lemma map_entry_None: "map_of m k = None \<Longrightarrow> AList.map_entry k f m = m"
  by (induction m) (auto split: if_splits)

lemma deduct_tx_unbudgeted:
  assumes "\<not> has_budget loc now uid st" and "deduct_tx flt loc now uid cost tokens st = Some st'"
  shows "budget_configs st' = budget_configs st \<and> user_budgets st' = user_budgets st"
proof -
  have n: "map_of (budget_configs st) uid = None" "map_of (user_budgets st) (uid, currentPeriodKey (or_daily []) loc now) = None"
    using assms(1) by (auto simp: has_budget_def key_of_def)
  show ?thesis using assms(2)
    by (rule deduct_txE) (auto simp: charge_budget_def Let_def n soft_block_def map_entry_None)
qed

lemma booked_credit:
  assumes ok: "store_ok st" and "length ds = length (active_grants now uid st)"
  defines "gs \<equiv> active_grants now uid st"
  shows "(\<Sum>g\<leftarrow>filter (\<lambda>g. g_UserID g = uid) (map (credit (zip (map g_ID gs) ds)) (user_grants st)). usd (g_SpentUSD g)) =
    (\<Sum>g\<leftarrow>filter (\<lambda>g. g_UserID g = uid) (user_grants st). usd (g_SpentUSD g)) + sum_list ds"
proof -
  have len: "length ds = length (map g_ID gs)" using assms(2) by (simp add: gs_def)
  have fst: "map fst (zip (map g_ID gs) ds) = map g_ID gs" and snd: "map snd (zip (map g_ID gs) ds) = ds"
    using len by (simp_all add: map_fst_zip map_snd_zip)
  have fs: "fst ` set (zip (map g_ID gs) ds) = g_ID ` set gs" by (metis fst set_map)
  have d: "distinct (map g_ID (user_grants st))" by (rule store_okD(7) [OF ok])
  have mem: "set gs \<subseteq> set (user_grants st)" "\<And>g. g \<in> set gs \<Longrightarrow> g_UserID g = uid"
    using active_grants_mem unfolding gs_def by blast+
  have "g_UserID g = uid" if "g \<in> set (user_grants st)" "g_ID g \<in> g_ID ` set gs" for g
    using that mem same_grant [OF d] by (metis imageE subsetD)
  then show ?thesis
    using sum_credit [OF d, of "zip (map g_ID gs) ds" "\<lambda>g. g_UserID g = uid"] mem(1) distinct_active_grants [OF d, of now uid]
    unfolding fst fs snd by (auto simp: gs_def [symmetric] image_mono)
qed

section \<open>Never a credit, whatever the amounts\<close>

lemma budget_charge_nonneg:
  assumes "\<not> cost < 0" and "budget_charge l s cost gs \<noteq> NaN"
  shows "0 \<le> budget_charge l s cost gs"
proof -
  define a where "a = (if l - s < 0 then 0 else l - s)"
  define d where "d = fmin cost a"
  define u where "u = fmax 0 (fmax 0 (cost - d) - grant_coverage gs)"
  have B: "budget_charge l s cost gs = d + u" by (simp add: budget_charge_def Let_def a_def d_def u_def)
  have nn: "d \<noteq> NaN" "u \<noteq> NaN" using assms(2) B by auto
  have "0 \<le> x" if "\<not> x < 0" "x \<noteq> NaN" for x :: f64
    using that f64_not_less [of x 0] by (simp add: zero_f64_def)
  moreover have "\<not> a < 0" by (simp add: a_def f64_less_irrefl)
  then have "\<not> d < 0" using assms(1) by (simp add: d_def fmin_def)
  moreover have "\<not> u < 0"
    by (cases "fmax 0 (cost - d) - grant_coverage gs") (auto simp: u_def fmax_def zero_f64_def)
  ultimately have "0 \<le> d" "0 \<le> u" using nn by blast+
  then show ?thesis unfolding B by (rule f64_add_nonneg)
qed

definition raised :: "GrantRecord \<Rightarrow> GrantRecord \<Rightarrow> bool" where
  "raised g h \<longleftrightarrow> h = g \<or> (\<exists>s. h = g\<lparr>g_SpentUSD := s\<rparr> \<and> g_SpentUSD g \<le> s)"

lemma raised_trans: "raised g h \<Longrightarrow> raised h k \<Longrightarrow> raised g k"
  by (fastforce simp: raised_def intro: f64_le_trans)

lemma raised_list_trans: "list_all2 raised a b \<Longrightarrow> list_all2 raised b c \<Longrightarrow> list_all2 raised a c"
proof (rule list_all2_trans)
  show "raised g h \<Longrightarrow> raised h k \<Longrightarrow> raised g k" for g h k by (rule raised_trans)
qed

lemma charge_grants_raised:
  "charge_grants flt gs r tbl = Some (tbl', r') \<Longrightarrow> \<forall>g \<in> set tbl. representable (g_SpentUSD g) \<Longrightarrow>
     list_all2 raised tbl tbl'"
proof (induction flt gs r tbl rule: charge_grants.induct)
  case (1 flt r tbl)
  then show ?case by (simp add: raised_def list_all2_same)
next
  case (2 flt g gs r tbl)
  show ?case
  proof (cases "r \<le> 0 \<or> g_AmountUSD g - g_SpentUSD g \<le> 0")
    case True
    then show ?thesis using 2 by (auto simp: raised_def list_all2_same split: if_splits)
  next
    case False
    define d where "d = fmin r (g_AmountUSD g - g_SpentUSD g)"
    obtain tbl1 where t1: "add_grant_spent (g_ID g) d tbl = Some tbl1" "\<not> flt (g_ID g)"
      and rest: "charge_grants flt gs (r - d) tbl1 = Some (tbl', r')"
      using False 2(3) by (auto simp: Let_def d_def split: if_splits option.splits)
    have map1: "tbl1 = map (\<lambda>h. if g_ID h = g_ID g then h\<lparr>g_SpentUSD := g_SpentUSD h + d\<rparr> else h) tbl"
      and nan: "\<And>h. h \<in> set tbl \<Longrightarrow> g_ID h = g_ID g \<Longrightarrow> g_SpentUSD h + d \<noteq> NaN"
      using t1(1) by (auto simp: add_grant_spent_def is_nan_def split: if_splits)
    have "0 \<le> d" if "h \<in> set tbl" "g_ID h = g_ID g" for h
      using False nan [OF that] f64_not_le [of r 0] f64_not_le [of "g_AmountUSD g - g_SpentUSD g" 0]
      by (auto simp: d_def fmin_def zero_f64_def f64_less_imp_le split: if_splits)
    then have "raised h (h\<lparr>g_SpentUSD := g_SpentUSD h + d\<rparr>)" if "h \<in> set tbl" "g_ID h = g_ID g" for h
      unfolding raised_def using that nan 2(4) f64_le_add by blast
    moreover have "raised h h" for h by (simp add: raised_def)
    ultimately have "list_all2 raised tbl tbl1"
      unfolding map1 by (auto simp: list_all2_conv_all_nth)
    moreover have "list_all2 raised tbl1 tbl'"
      by (rule 2(2) [OF _ refl _ d_def t1(2) t1(1) rest]) (use False 2(4) in \<open>auto simp: map1\<close>)
    ultimately show ?thesis by (rule raised_list_trans)
  qed
qed

lemma charge_period_raised:
  assumes "store_ok st" and "\<forall>p \<in> snd ` set (user_budgets st). representable (p_spent_usd p)"
    and "charge_period now uid key pt l c bt tk st = Some st1" and "c \<noteq> NaN \<Longrightarrow> 0 \<le> c"
    and "map_of (user_budgets st) k = Some p"
  shows "\<exists>p'. map_of (user_budgets st1) k = Some p' \<and> p_spent_usd p \<le> p_spent_usd p'"
proof -
  have rep: "representable (p_spent_usd p)" using assms(2,5) by (force dest: map_of_SomeD)
  have nn: "p_spent_usd p \<noteq> NaN"
    using rows_all_lookup [OF store_okD(6) [OF assms(1)] assms(5)] by (simp add: period_real_def)
  show ?thesis
  proof (cases "k = (uid, key)")
    case True
    with assms(3,5) have sum: "p_spent_usd p + c \<noteq> NaN"
      and st1: "map_of (user_budgets st1) k = Some (p\<lparr>p_spent_usd := p_spent_usd p + c, p_tokens_used := p_tokens_used p + bt,
               p_all_tokens_used := p_all_tokens_used p + tk, p_updated_at := now\<rparr>)"
      by (auto simp: charge_period_def is_nan_def split: if_splits)
    have "c \<noteq> NaN" using sum by auto
    then have "0 \<le> c" by (rule assms(4))
    then show ?thesis using st1 f64_le_add [OF rep _ sum] by simp
  next
    case False
    then show ?thesis using assms(3,5) nn f64_le_refl
      by (auto simp: charge_period_def split: option.splits if_splits)
  qed
qed

lemma DeductSpend_cases:
  obtains "snd (DeductSpend flt loc now i cost tokens st) = st"
  | st' where "deduct_tx flt loc now (normalizeID i) cost tokens st = Some st'" "\<not> cost < 0"
      "DeductSpend flt loc now i cost tokens st = (Inr (), st')"
proof (cases "cost < 0 \<or> feq cost 0 \<and> tokens = 0 \<or> deduct_tx flt loc now (normalizeID i) cost tokens st = None")
  case True
  then show ?thesis by (intro that(1)) (auto simp: DeductSpend_def)
next
  case False
  then obtain st' where "deduct_tx flt loc now (normalizeID i) cost tokens st = Some st'" by auto
  with False show ?thesis by (intro that(2)) (auto simp: DeductSpend_def)
qed

lemma charge_budgetE:
  assumes "charge_budget flt loc now uid cost tokens gs st = Some (st1, r)"
  obtains "st1 = st"
  | key pt l s bt where "charge_period now uid key pt l (budget_charge l s cost gs) bt tokens st = Some st1"
  using assms unfolding charge_budget_def Let_def by (auto split: if_splits)

lemma deduct_tx_raised:
  assumes ok: "store_ok st" and rep: "\<forall>p \<in> snd ` set (user_budgets st). representable (p_spent_usd p)"
    "\<forall>g \<in> set (user_grants st). representable (g_SpentUSD g)"
    and cost: "\<not> cost < 0" and tx: "deduct_tx flt loc now uid cost tokens st = Some st'"
  shows "list_all2 raised (user_grants st) (user_grants st')"
    and "map_of (user_budgets st) k = Some p \<Longrightarrow> \<exists>p'. map_of (user_budgets st') k = Some p' \<and> p_spent_usd p \<le> p_spent_usd p'"
proof -
  obtain st1 r tbl r' where cb: "charge_budget flt loc now uid cost tokens (active_grants now uid st) st = Some (st1, r)"
    and cg: "charge_grants (\<lambda>i. flt (WriteGrant i)) (active_grants now uid st) r (user_grants st1) = Some (tbl, r')"
    and st': "user_grants st' = tbl" "user_budgets st' = user_budgets st1"
    using tx by (rule deduct_txE) (auto simp: soft_block_def)
  show "list_all2 raised (user_grants st) (user_grants st')"
    using charge_grants_raised [OF cg] charge_budget_ok(2) [OF ok cb] rep st' by simp
  assume p: "map_of (user_budgets st) k = Some p"
  then have "p_spent_usd p \<noteq> NaN"
    using rows_all_lookup [OF store_okD(6) [OF ok]] by (auto simp: period_real_def)
  then have refl: "p_spent_usd p \<le> p_spent_usd p" by (rule f64_le_refl)
  from cb show "\<exists>p'. map_of (user_budgets st') k = Some p' \<and> p_spent_usd p \<le> p_spent_usd p'"
  proof (rule charge_budgetE)
    assume "st1 = st"
    then show ?thesis using p refl st'(2) by simp
  next
    fix key pt l s bt
    assume "charge_period now uid key pt l (budget_charge l s cost (active_grants now uid st)) bt tokens st = Some st1"
    from charge_period_raised [OF ok rep(1) this budget_charge_nonneg [OF cost] p] st'(2)
    show ?thesis by simp
  qed
qed

section \<open>The check on exact amounts\<close>

lemma balances_room:
  assumes "exact (ledger_amounts loc now uid (Fin c) st)"
  shows "\<bar>usd (limit_of uid st)\<bar> + \<bar>usd (spent_of uid (key_of loc now uid st) st)\<bar> + (\<Sum>g\<leftarrow>active_grants now uid st. balance g) \<le> 2 ^ 20"
proof -
  have "(\<Sum>x\<leftarrow>ledger_amounts loc now uid (Fin c) st. \<bar>usd x\<bar>) \<le> 2 ^ 20" using assms by (simp only: exact_def)
  then show ?thesis using sum_balances [of "active_grants now uid st"] by (simp add: ledger_amounts_def)
qed

lemma Grant_Remaining_exact: "exact_grant g \<Longrightarrow> Grant_Remaining g = Fin (balance g)"
  using exact_grant_diff [of g] by (simp add: Grant_Remaining_def SafeSubUSD_cases zero_f64_def)

lemma remaining_exact:
  assumes "\<And>g. g \<in> set gs \<Longrightarrow> exact_grant g" and "(\<Sum>g\<leftarrow>gs. balance g) \<le> 2 ^ 20"
  shows "foldl (\<lambda>acc g. acc + Grant_Remaining g) 0 gs = Fin (\<Sum>g\<leftarrow>gs. balance g)"
proof -
  have "foldl (\<lambda>acc g. acc + Grant_Remaining g) x gs = foldl (\<lambda>acc g. let rem = g_AmountUSD g - g_SpentUSD g in if 0 < rem then acc + rem else acc) x gs"
    if "\<forall>g \<in> set gs. exact_grant g" for x gs
    using that by (induction gs arbitrary: x) (simp_all add: Grant_Remaining_exact exact_grant_diff zero_f64_def del: plus_f64.simps)
  then show ?thesis using grant_coverage_exact [OF assms] assms(1) by (simp add: grant_coverage_def)
qed

lemma CheckBalance_exact:
  assumes ex: "exact (ledger_amounts loc now uid (Fin c) st)" and c: "0 \<le> c" and uid: "normalizeID uid = uid"
    and cf: "map_of (budget_configs st) uid = Some cf"
    and agree: "\<And>p. map_of (user_budgets st) (uid, key_of loc now uid st) = Some p \<Longrightarrow> p_limit_usd p = c_limit_usd cf"
    and res: "CheckBalance flt loc now uid est sb st = Inr r"
  shows "r_Allowed r \<Longrightarrow> \<not> sb \<and> est \<le> Fin ((\<Sum>g\<leftarrow>active_grants now uid st. balance g) +
    max 0 (usd (limit_of uid st) - usd (spent_of uid (key_of loc now uid st) st)))"
proof -
  assume allowed: "r_Allowed r"
  let ?gs = "active_grants now uid st" and ?key = "key_of loc now uid st"
  define V where "V = (\<Sum>g\<leftarrow>?gs. balance g)"
  obtain L S where LS: "limit_of uid st = Fin L" "spent_of uid ?key st = Fin S" "on_grid L" "on_grid S"
    "\<bar>L\<bar> \<le> 2 ^ 20" "\<bar>S\<bar> \<le> 2 ^ 20" "\<And>g. g \<in> set ?gs \<Longrightarrow> exact_grant g" "V \<le> 2 ^ 20"
    using ledger_amountsD [OF ex c] unfolding V_def by metis
  have rem: "foldl (\<lambda>acc g. acc + Grant_Remaining g) 0 ?gs = Fin V" and V: "on_grid V" "0 \<le> V"
    using remaining_exact grant_coverage_exact LS(7,8) exact_grant_diff
    by (auto simp: V_def less_imp_le intro!: sum_list_nonneg)
  have diff: "Fin L - Fin S = Fin (L - S)" using grid_le LS by blast
  have sum: "Fin V + Fin (max 0 (L - S)) = Fin (V + max 0 (L - S))"
    using V LS balances_room [OF ex] by (intro grid_add) (auto simp: V_def)
  have key: "currentPeriodKey (or_daily (c_period_type cf)) loc now = ?key" by (simp add: key_of_def cf)
  have lim: "c_limit_usd cf = Fin L" using LS(1) cf by (simp add: limit_of_def)
  have bud: "\<exists>b. GetBudget (\<lambda>i. flt (if i = 0 then CheckConfig else CheckPeriod)) loc now uid st = Inr (Some b) \<and> b_LimitUSD b = Fin L \<and> b_SpentUSD b = Fin S"
    if "\<not> flt CheckConfig" "\<not> flt CheckPeriod"
    using that cf key lim agree LS(2) by (auto simp: GetBudget_def Let_def uid spent_of_def split: option.splits)
  have neg: "(if Fin (L - S) < 0 then 0 else Fin (L - S)) = Fin (max 0 (L - S))" by (auto simp: zero_f64_def)
  have "\<not> sb" using res allowed by (auto simp: CheckBalance_def denied_def)
  moreover have "\<not> flt CheckGrants" "\<not> flt CheckConfig" "\<not> flt CheckPeriod"
    using res \<open>\<not> sb\<close> cf by (auto simp: CheckBalance_def ListGrants_def GetBudget_def Let_def uid split: if_splits)
  ultimately show ?thesis
    using res allowed bud rem sum
    by (auto simp: CheckBalance_def ListGrants_def Let_def uid LS(1,2) diff neg simp flip: V_def simp del: plus_f64.simps)
qed

text \<open>What an allowed check says, for a user with a configuration.\<close>

lemma CheckBudget_allowed:
  assumes "CheckBudget flt loc now i est st = Inr r" and "r_Allowed r"
  obtains sb where "CheckBalance flt loc now (normalizeID i) est sb st = Inr r"
  using assms by (auto simp: CheckBudget_def Let_def denied_def split: sum.splits if_splits)

lemma share_within_limit:
  "0 \<le> c \<Longrightarrow> c \<le> sum_list bs + max 0 (L - S) \<Longrightarrow> S + budget_share L S c bs \<le> max S L"
  by (auto simp: budget_share_def Let_def)

lemma credit_within:
  assumes "store_ok st" and "\<And>g. g \<in> set gs \<Longrightarrow> exact_grant g" and "set gs \<subseteq> set (user_grants st)" and "0 \<le> r"
    and "h \<in> set (user_grants st)" and "g_ID h \<in> g_ID ` set gs"
  shows "g_SpentUSD (credit (zip (map g_ID gs) (pay r (map balance gs))) h) \<le> g_AmountUSD h"
proof -
  have "h \<in> set gs" using same_grant [OF store_okD(7) [OF assms(1)]] assms(3,5,6) by (metis imageE subsetD)
  then have eg: "exact_grant h" by (rule assms(2))
  then obtain a s where as: "g_AmountUSD h = Fin a" "g_SpentUSD h = Fin s" "s < a" by (auto simp: exact_grant_def)
  show ?thesis
  proof (cases "map_of (zip (map g_ID gs) (pay r (map balance gs))) (g_ID h)")
    case None
    then have "credit (zip (map g_ID gs) (pay r (map balance gs))) h = h" by (simp only: credit_def option.case)
    then show ?thesis using as by simp
  next
    case (Some d)
    then have "(g_ID h, d) \<in> set (zip (map g_ID gs) (pay r (map balance gs)))" by (rule map_of_SomeD)
    then obtain k where k: "k < length gs" "g_ID (gs ! k) = g_ID h" "pay r (map balance gs) ! k = d"
      by (auto simp: set_zip)
    have "gs ! k = h"
      using same_grant [OF store_okD(7) [OF assms(1)] _ assms(5) k(2)] assms(3) k(1) by (meson nth_mem subsetD)
    moreover have "0 \<le> b" if "b \<in> set (map balance gs)" for b
      using that assms(2) exact_grant_diff by (auto simp: less_imp_le)
    then have "pay r (map balance gs) ! k \<le> map balance gs ! k"
      using pay_bounds [OF assms(4), of "map balance gs" k] k(1) by simp
    ultimately have "d \<le> balance h" using k by simp
    then show ?thesis using Some as by (simp add: credit_def balance_def)
  qed
qed

section \<open>A concrete store\<close>

text \<open>One user with a daily budget of 10 dollars and two grants, of 4 and 5 dollars.\<close>

definition demo_now :: gotime where
  "demo_now = 63900000000 * ns_second"

definition demo_user :: UserRecord where
  "demo_user = \<lparr>u_ID = ''u'', u_Email = ''u'', u_DisplayName = None, u_Role = ''developer'', u_Status = ''active'',
     u_AccessTags = None, u_CreatedAt = 1, u_LastSeenAt = 0, u_LastActiveAt = 0, u_RateLimit = None\<rparr>"

definition demo_config :: config_row where
  "demo_config = \<lparr>c_limit_usd = Fin 10, c_period_type = ''daily'', c_soft_blocked = False, c_soft_blocked_at = 0, c_updated_at = 1\<rparr>"

definition demo_grant :: "string \<Rightarrow> rat \<Rightarrow> int \<Rightarrow> GrantRecord" where
  "demo_grant i a days = \<lparr>g_ID = i, g_UserID = ''u'', g_AmountUSD = Fin a, g_SpentUSD = Fin 0, g_Reason = [], g_GrantedBy = [],
     g_StartsAt = 0, g_ExpiresAt = demo_now + days * 86400 * ns_second, g_CreatedAt = 1\<rparr>"

definition demo_store :: store where
  "demo_store = empty_store\<lparr>users := [demo_user], budget_configs := [(''u'', demo_config)],
     user_grants := [demo_grant ''late'' 5 2, demo_grant ''soon'' 4 1]\<rparr>"

lemma demo_times:
  "formatTime demo_now = ''2025-11-29T08:00:00Z''" "formatTime (demo_now + 86400000000000) = ''2025-11-30T08:00:00Z''"
  "formatTime (demo_now + 172800000000000) = ''2025-12-01T08:00:00Z''"
  by code_simp+

lemma demo_active: "active_grants demo_now ''u'' demo_store = [demo_grant ''soon'' 4 1, demo_grant ''late'' 5 2]"
  by (simp add: active_grants_def demo_store_def demo_grant_def empty_store_def demo_times less_char_def)

lemma demo_id: "normalizeID ''u'' = ''u''"
  by code_simp

lemma demo_ok: "store_ok demo_store"
  by (simp add: ok_defs demo_store_def demo_grant_def demo_config_def empty_store_def demo_user_def grant_real_def)

lemma demo_reads: "limit_of ''u'' demo_store = Fin 10" "spent_of ''u'' k demo_store = Fin 0" "has_budget loc now ''u'' demo_store"
  by (simp_all add: limit_of_def spent_of_def has_budget_def demo_store_def demo_config_def empty_store_def zero_f64_def)

lemma on_grid_numeral [simp]: "on_grid (numeral n)"
  by (simp add: on_grid_def)

lemma demo_exact: "exact (ledger_amounts loc demo_now ''u'' (Fin 12) demo_store)"
  by (simp add: exact_def ledger_amounts_def demo_reads demo_active grant_amounts_def demo_grant_def)

lemma demo_rows: "map_of (budget_configs demo_store) ''u'' = Some demo_config" "user_budgets demo_store = []" "users demo_store = [demo_user]"
  by (simp_all add: demo_store_def empty_store_def)

lemma demo_representable: "\<forall>g \<in> set (user_grants demo_store). representable (g_SpentUSD g)"
  by (simp add: demo_store_def demo_grant_def f64_lim_pos)

lemma demo_small: "(9 :: rat) \<le> 2 ^ 20"
  by simp

lemma demo_check:
  "CheckBudget (\<lambda>_. False) loc demo_now ''u'' (Fin 15) demo_store = Inr
      \<lparr>r_Allowed = True, r_Reason = ReasonAllowed, r_RemainingUSD = Fin 19, r_GrantsUSD = Fin 9, r_BudgetUSD = Fin 10, r_EstimatedCost = Fin 15\<rparr>"
proof -
  have "exact_grant g" if "g \<in> set (active_grants demo_now ''u'' demo_store)" for g
    using that by (auto simp: demo_active exact_grant_def demo_grant_def)
  moreover have sum: "(\<Sum>g\<leftarrow>active_grants demo_now ''u'' demo_store. balance g) = 9"
    by (simp add: demo_active balance_def demo_grant_def)
  ultimately have "foldl (\<lambda>acc g. acc + Grant_Remaining g) 0 (active_grants demo_now ''u'' demo_store) = Fin 9"
    using remaining_exact [of "active_grants demo_now ''u'' demo_store"] by (metis sum demo_small)
  moreover have "Fin 9 + Fin 10 = Fin 19" "Fin 10 - Fin 0 = Fin 10" using grid_le [of 9 10] grid_le [of 10 0] by simp_all
  ultimately show ?thesis
    by (simp add: CheckBudget_def CheckBalance_def GetUser_def ListGrants_def GetBudget_def Let_def demo_id demo_rows scan_user_def
        demo_user_def demo_config_def zero_f64_def del: plus_f64.simps)
qed

section \<open>Properties\<close>



text \<open>A successful deduction on exact amounts books the cost.\<close>

lemma deduct_books:
  assumes "store_ok st" and "exact (ledger_amounts loc now (normalizeID i) (Fin c) st)" and "0 < c"
    and "\<forall>s. \<not> flt s" and "has_budget loc now (normalizeID i) st"
  shows "booked (normalizeID i) (key_of loc now (normalizeID i) st) (snd (DeductSpend flt loc now i (Fin c) tokens st)) =
    booked (normalizeID i) (key_of loc now (normalizeID i) st) st + c"
proof -
  define uid where "uid = normalizeID i"
  define key where "key = key_of loc now uid st"
  define gs where "gs = active_grants now uid st"
  define B where "B = budget_share (usd (limit_of uid st)) (usd (spent_of uid key st)) c (map balance gs)"
  have ex: "exact (ledger_amounts loc now uid (Fin c) st)" and c: "0 \<le> c"
    using assms(2,3) by (simp_all add: uid_def)
  note tx = deduct_tx_exact [OF assms(1) ex c assms(4), where tokens = tokens, folded key_def gs_def, folded B_def]
  obtain st' where st': "deduct_tx flt loc now uid (Fin c) tokens st = Some st'"
    "spent_of uid key st' = Fin (usd (spent_of uid key st) + B)"
    "user_grants st' = map (credit (zip (map g_ID gs) (pay (c - B) (map balance gs)))) (user_grants st)"
    using tx assms(5) uid_def by blast
  have "snd (DeductSpend flt loc now i (Fin c) tokens st) = st'"
    using st'(1) assms(3) by (simp add: DeductSpend_def uid_def zero_f64_def feq_def)
  moreover have "sum_list (pay (c - B) (map balance gs)) = c - B"
    unfolding B_def gs_def key_def by (rule paid_in_full [OF ex c])
  ultimately show ?thesis
    using booked_credit [OF assms(1), of "pay (c - B) (map balance gs)" now uid] st'(2,3)
    by (simp add: booked_def gs_def flip: uid_def key_def)
qed

lemma deduct_succeeds:
  assumes "store_ok st" and "exact (ledger_amounts loc now (normalizeID i) (Fin c) st)" and "0 < c"
    and "\<forall>s. \<not> flt s" and "has_budget loc now (normalizeID i) st"
  shows "fst (DeductSpend flt loc now i (Fin c) tokens st) = Inr ()"
proof -
  obtain st' where "deduct_tx flt loc now (normalizeID i) (Fin c) tokens st = Some st'"
    using deduct_tx_exact [OF assms(1,2) less_imp_le [OF assms(3)] assms(4,5), of tokens] by blast
  then show ?thesis using assms(3) by (simp add: DeductSpend_def zero_f64_def feq_def)
qed





text \<open>
  C5: \<^verbatim>\<open>DeductSpend\<close> never gives money back.  Whatever the stored \<^verbatim>\<open>float64\<close> amounts, the cost (a NaN
  or an infinity included) and the faults of the database, no grant and no period row has less
  spent afterwards.
\<close>

theorem deduct_never_credits:
  assumes "store_ok st" and "\<forall>p \<in> snd ` set (user_budgets st). representable (p_spent_usd p)"
    and "\<forall>g \<in> set (user_grants st). representable (g_SpentUSD g)"
    and "st' = snd (DeductSpend flt loc now i cost tokens st)"
  shows "list_all2 (\<lambda>g g'. g_ID g' = g_ID g \<and> g_AmountUSD g' = g_AmountUSD g \<and> g_SpentUSD g \<le> g_SpentUSD g') (user_grants st) (user_grants st') \<and>
    (\<forall>k p. map_of (user_budgets st) k = Some p \<longrightarrow> (\<exists>p'. map_of (user_budgets st') k = Some p' \<and> p_spent_usd p \<le> p_spent_usd p'))"
proof -
  have refl: "g_SpentUSD g \<le> g_SpentUSD g" if "g \<in> set (user_grants st)" for g
    using store_okD(9) [OF assms(1) that] f64_le_refl by (simp add: grant_real_def)
  have refl_p: "p_spent_usd p \<le> p_spent_usd p" if "map_of (user_budgets st) k = Some p" for k p
    using rows_all_lookup [OF store_okD(6) [OF assms(1)] that] f64_le_refl by (simp add: period_real_def)
  show ?thesis
  proof (cases rule: DeductSpend_cases [of flt loc now i cost tokens st])
    case 1
    then show ?thesis using assms(4) refl refl_p by (auto simp: list_all2_same)
  next
    case (2 st1)
    note r = deduct_tx_raised [OF assms(1-3) 2(2,1)]
    have "list_all2 (\<lambda>g g'. g_ID g' = g_ID g \<and> g_AmountUSD g' = g_AmountUSD g \<and> g_SpentUSD g \<le> g_SpentUSD g') (user_grants st) (user_grants st1)"
      by (rule list.rel_mono_strong [OF r(1)]) (auto simp: raised_def refl)
    then show ?thesis using r(2) 2(3) assms(4) by simp
  qed
qed

theorem deduct_never_credits_witness:
  "list_all2 (\<lambda>g g'. g_ID g' = g_ID g \<and> g_AmountUSD g' = g_AmountUSD g \<and> g_SpentUSD g \<le> g_SpentUSD g') (user_grants demo_store)
    (user_grants (snd (DeductSpend (\<lambda>_. False) (\<lambda>_. 0) demo_now ''u'' PInf 700 demo_store)))"
  using deduct_never_credits [OF demo_ok _ _ refl, of "\<lambda>_. False" "\<lambda>_. 0" demo_now "''u''" PInf 700]
  by (simp add: demo_rows demo_representable)

text \<open>
  The soft block at the end of \<^verbatim>\<open>DeductSpend\<close> is never set.  With a budget, on exact amounts, the
  recurring share already contains what no grant covers, so nothing remains after the grants; without
  a configuration row the update that sets the flag meets no row.  In both cases every configuration
  is as before, however far the cost exceeds limit and grants.
\<close>

lemma soft_block_never_set:
  assumes "store_ok st" and "0 < c" and "\<forall>s. \<not> flt s"
    and "has_budget loc now (normalizeID i) st \<longrightarrow> exact (ledger_amounts loc now (normalizeID i) (Fin c) st)"
  shows "budget_configs (snd (DeductSpend flt loc now i (Fin c) tokens st)) = budget_configs st"
proof (cases "has_budget loc now (normalizeID i) st")
  case True
  then have ex: "exact (ledger_amounts loc now (normalizeID i) (Fin c) st)" using assms(4) by blast
  have "0 \<le> c" using assms(2) by simp
  from deduct_tx_exact [OF assms(1) ex this assms(3) True, of tokens] show ?thesis
    using assms(2) by (auto simp: DeductSpend_def zero_f64_def feq_def)
next
  case False
  show ?thesis
  proof (cases rule: DeductSpend_cases [of flt loc now i "Fin c" tokens st])
    case (2 st')
    then show ?thesis using deduct_tx_unbudgeted [OF False 2(1)] by simp
  qed simp
qed

end
