(* ===== verification/CostCalc.thy ===== *)
theory CostCalc
  imports Billing "HOL-Library.List_Lexorder"
begin

text \<open>
  The price calculator (\<^verbatim>\<open>pkg/costcalc/calculator.go\<close>): the table of prices with its overrides
  and its provider-agnostic fallback, the resolution of a model name to a price, and the cost of a
  request from its token counts.

  The tables are association lists because their iteration order matters to the code that walks
  them; \<open>rebuildFallback_spec\<close> shows that it does not matter to the result.  The clock is an
  argument; log lines are left out.  Products and sums are rounded one by one, as on amd64.
\<close>

section \<open>Prices\<close>

record ModelPricing =
  p_Model :: string
  p_Provider :: string
  InputPerMillion :: f64
  OutputPerMillion :: f64
  p_DiscountPercent :: f64
  InputPerMillionHigh :: f64
  OutputPerMillionHigh :: f64
  TierThresholdTokens :: i64
  PerSecondUSD :: f64
  p_ValidUntil :: "gotime option"
  FallbackInputPerMillion :: f64
  FallbackOutputPerMillion :: f64
  FallbackInputPerMillionHigh :: f64
  FallbackOutputPerMillionHigh :: f64

definition IsExpired :: "gotime \<Rightarrow> ModelPricing \<Rightarrow> bool" where
  "IsExpired now p = (case p_ValidUntil p of None \<Rightarrow> False | Some v \<Rightarrow> v \<noteq> 0 \<and> v < now)"

definition EffectiveRates :: "gotime \<Rightarrow> ModelPricing \<Rightarrow> ModelPricing" where
  "EffectiveRates now p =
     (if \<not> IsExpired now p then p
      else p\<lparr>InputPerMillion := if 0 < FallbackInputPerMillion p then FallbackInputPerMillion p else InputPerMillion p,
             OutputPerMillion := if 0 < FallbackOutputPerMillion p then FallbackOutputPerMillion p else OutputPerMillion p,
             InputPerMillionHigh := if 0 < FallbackInputPerMillionHigh p then FallbackInputPerMillionHigh p else InputPerMillionHigh p,
             OutputPerMillionHigh := if 0 < FallbackOutputPerMillionHigh p then FallbackOutputPerMillionHigh p else OutputPerMillionHigh p\<rparr>)"

record PricingConfig =
  cfg_DiscountPercent :: f64
  cfg_Models :: "ModelPricing list"

record CacheDiscountConfig =
  ReadDiscount :: f64
  CreateMultiplier :: f64
  InputIncludesCache :: bool

definition anthropicDefaultCacheCreateMultiplier :: f64 where
  "anthropicDefaultCacheCreateMultiplier = Fin (5 / 4)"

definition anthropicExtendedCacheCreateMultiplier :: f64 where
  "anthropicExtendedCacheCreateMultiplier = Fin 2"

definition defaultCacheDiscounts :: "(string \<times> CacheDiscountConfig) list" where
  "defaultCacheDiscounts =
     [(''anthropic'', \<lparr>ReadDiscount = mk (1 / 10), CreateMultiplier = anthropicDefaultCacheCreateMultiplier, InputIncludesCache = False\<rparr>),
      (''google'', \<lparr>ReadDiscount = mk (1 / 10), CreateMultiplier = 1, InputIncludesCache = True\<rparr>),
      (''openai'', \<lparr>ReadDiscount = Fin (1 / 2), CreateMultiplier = 1, InputIncludesCache = True\<rparr>)]"

definition providerAliases :: "(string \<times> string) list" where
  "providerAliases =
     [(''anthropic-direct'', ''anthropic''), (''anthropic-vertex'', ''anthropic''), (''anthropic-bedrock'', ''anthropic''),
      (''gemini-oai'', ''google''), (''gemini-vertex'', ''google'')]"

type_synonym price_table = "(string \<times> ModelPricing) list"

record Calculator =
  c_defaults :: price_table
  c_overrides :: price_table
  c_fallback :: price_table
  c_aliases :: "(string \<times> string) list"
  cacheDiscounts :: "(string \<times> CacheDiscountConfig) list"
  globalDiscount :: f64
  loggedUnknown :: "string list"

definition maxLoggedUnknown :: nat where
  "maxLoggedUnknown = 1000"

definition newBase :: Calculator where
  "newBase = \<lparr>c_defaults = [], c_overrides = [], c_fallback = [], c_aliases = providerAliases,
     cacheDiscounts = defaultCacheDiscounts, globalDiscount = 0, loggedUnknown = []\<rparr>"

definition NewEmpty :: Calculator where
  "NewEmpty = newBase"

definition price_key :: "string \<Rightarrow> string \<Rightarrow> string" where
  "price_key provider model = ToLower (provider @ ''/'' @ model)"

definition clampDiscount :: "f64 \<Rightarrow> f64" where
  "clampDiscount d = (if is_nan d \<or> d < 0 then 0 else if 1 < d then 1 else d)"

section \<open>The provider-agnostic fallback\<close>

text \<open>The first provider in alphabetical order, as the loop over a group selects it.\<close>

definition best_provider :: "ModelPricing list \<Rightarrow> ModelPricing" where
  "best_provider ps = fold (\<lambda>p best. if ToLower (p_Provider p) < ToLower (p_Provider best) then p else best) (tl ps) (hd ps)"

definition model_group :: "string \<Rightarrow> price_table \<Rightarrow> ModelPricing list" where
  "model_group m source = filter (\<lambda>p. ToLower (p_Model p) = m) (map snd source)"

definition fallback_process :: "price_table \<Rightarrow> price_table \<Rightarrow> price_table" where
  "fallback_process source fb =
     fold (\<lambda>m fb. if map_of fb m = None then AList.update m (best_provider (model_group m source)) fb else fb)
       (remdups (map (\<lambda>(k, p). ToLower (p_Model p)) source)) fb"

definition rebuildFallback :: "Calculator \<Rightarrow> Calculator" where
  "rebuildFallback c = c\<lparr>c_fallback := fallback_process (c_defaults c) (fallback_process (c_overrides c) [])\<rparr>"

section \<open>Names of models\<close>

definition isAllDigits :: "string \<Rightarrow> bool" where
  "isAllDigits s \<longleftrightarrow> s \<noteq> [] \<and> list_all is_digit s"

lemma LastIndex_bound: "LastIndex s sub = Some i \<Longrightarrow> i + length sub \<le> length s"
proof (induction s arbitrary: i)
  case (Cons x s)
  then show ?case
    by (cases "LastIndex s sub") (auto simp: HasPrefix_iff split: if_splits dest: arg_cong [where f = length])
qed (simp split: if_splits)

text \<open>
  The scan of \<^verbatim>\<open>hasSuffixTag\<close> from right to left; the tag is \<open>c # cs\<close>, and \<^verbatim>\<open>-1\<close> is \<open>None\<close>.
\<close>

function suffix_scan :: "string \<Rightarrow> char \<Rightarrow> string \<Rightarrow> nat \<Rightarrow> nat option" where
  "suffix_scan m c cs e =
     (if e = 0 then None
      else case LastIndex (take e m) (c # cs) of
             None \<Rightarrow> None
           | Some idx \<Rightarrow>
               if idx = 0 then None
               else let rest = drop (idx + length (c # cs)) m
                    in if rest = [] \<or> hd rest = CHR ''-'' then Some idx
                       else suffix_scan m c cs idx)"
  by pat_completeness auto
termination
proof (relation "measure (\<lambda>(m, c, cs, e). e)")
  fix m c cs e idx
  assume "LastIndex (take e m) (c # cs) = Some idx"
  then have "idx + length (c # cs) \<le> length (take e m)" by (rule LastIndex_bound)
  then show "((m, c, cs, idx), m, c, cs, e) \<in> measure (\<lambda>(m, c, cs, e). e)" by simp
qed simp

declare suffix_scan.simps [simp del]

definition hasSuffixTag :: "string \<Rightarrow> string \<Rightarrow> nat option" where
  "hasSuffixTag m tag =
     (case tag of [] \<Rightarrow> (if m = [] then None else Some (length m)) | c # cs \<Rightarrow> suffix_scan m c cs (length m))"

definition strip_date :: "string \<Rightarrow> string" where
  "strip_date m =
     (if 9 < length m \<and> m ! (length m - 9) = CHR ''-'' \<and> isAllDigits (drop (length m - 8) m)
      then take (length m - 9) m
      else if 11 < length m \<and> m ! (length m - 11) = CHR ''-'' \<and> m ! (length m - 6) = CHR ''-'' \<and> m ! (length m - 3) = CHR ''-'' \<and>
              isAllDigits (filter (\<lambda>c. c \<noteq> CHR ''-'') (drop (length m - 10) m))
      then take (length m - 11) m
      else [])"

text \<open>What follows the fine-tune format: the trailing tags and the dates.\<close>

definition strip_tags :: "string \<Rightarrow> string" where
  "strip_tags m =
     (if HasSuffix m ''-latest'' then TrimSuffix m ''-latest''
      else if HasSuffix m ''-stable'' then TrimSuffix m ''-stable''
      else case hasSuffixTag m ''-preview'' of
             Some idx \<Rightarrow> take idx m
           | None \<Rightarrow>
               (case hasSuffixTag m ''-exp'' of
                  Some idx \<Rightarrow> take idx m
                | None \<Rightarrow> strip_date m))"

definition extractBaseModel :: "string \<Rightarrow> string" where
  "extractBaseModel model =
     (let m = ToLower model
      in case LastIndex m ''/'' of
           Some i \<Rightarrow> drop (i + 1) m
         | None \<Rightarrow>
             if HasSuffix m ''-maas'' then TrimSuffix m ''-maas''
             else if HasPrefix m ''ft:''
             then (case split_on (CHR '':'') m of
                     _ # b # _ \<Rightarrow> if b \<noteq> [] then b else strip_tags m
                   | _ \<Rightarrow> strip_tags m)
             else strip_tags m)"

definition normalizeModelID :: "string \<Rightarrow> string" where
  "normalizeModelID model =
     (case LastIndex model ''-'' of
        None \<Rightarrow> model
      | Some idx \<Rightarrow>
          if 0 < idx \<and> idx < length model - 1 then
            let suffix = drop (idx + 1) model
            in if length suffix = 1 \<and> is_digit (hd suffix) \<and> is_digit (model ! (idx - 1))
               then take idx model @ ''.'' @ suffix else model
          else model)"

section \<open>Resolution of a price\<close>

definition lookupCandidate :: "Calculator \<Rightarrow> string \<Rightarrow> string \<Rightarrow> ModelPricing option" where
  "lookupCandidate c provider candidate =
     (let key = price_key provider candidate
      in case map_of (c_overrides c) key of
           Some p \<Rightarrow> Some p
         | None \<Rightarrow>
             (case map_of (c_defaults c) key of
                Some p \<Rightarrow> Some p
              | None \<Rightarrow> map_of (c_fallback c) (ToLower candidate)))"

definition resolve_base :: "Calculator \<Rightarrow> string \<Rightarrow> string \<Rightarrow> ModelPricing option" where
  "resolve_base c provider model =
     (let base = extractBaseModel model
      in if base \<noteq> [] \<and> base \<noteq> ToLower model then
           (case lookupCandidate c provider base of
              Some p \<Rightarrow> Some p
            | None \<Rightarrow> if normalizeModelID base \<noteq> base then lookupCandidate c provider (normalizeModelID base) else None)
         else None)"

definition resolveCandidate :: "Calculator \<Rightarrow> string \<Rightarrow> string \<Rightarrow> ModelPricing option" where
  "resolveCandidate c provider model =
     (case lookupCandidate c provider model of
        Some p \<Rightarrow> Some p
      | None \<Rightarrow>
          (case (if normalizeModelID model \<noteq> model then lookupCandidate c provider (normalizeModelID model) else None) of
             Some p \<Rightarrow> Some p
           | None \<Rightarrow> resolve_base c provider model))"

definition canonical_provider :: "Calculator \<Rightarrow> string \<Rightarrow> string" where
  "canonical_provider c provider = (case map_of (c_aliases c) (ToLower provider) of None \<Rightarrow> provider | Some canonical \<Rightarrow> canonical)"

definition resolve_price :: "gotime \<Rightarrow> Calculator \<Rightarrow> string \<Rightarrow> string \<Rightarrow> ModelPricing option" where
  "resolve_price now c provider model = map_option (EffectiveRates now) (resolveCandidate c (canonical_provider c provider) model)"

definition HasPricing :: "gotime \<Rightarrow> Calculator \<Rightarrow> string \<Rightarrow> string \<Rightarrow> bool" where
  "HasPricing now c provider model \<longleftrightarrow> ToLower provider = ''local'' \<or> resolve_price now c provider model \<noteq> None"

definition ResolveEffective :: "gotime \<Rightarrow> Calculator \<Rightarrow> string \<Rightarrow> string \<Rightarrow> i64 \<Rightarrow> ModelPricing option" where
  "ResolveEffective now c provider model inputTokens =
     (case resolve_price now c provider model of
        None \<Rightarrow> None
      | Some p \<Rightarrow>
          Some (if 0 < TierThresholdTokens p \<and> TierThresholdTokens p < inputTokens then
                  p\<lparr>InputPerMillion :=
                      if 0 < InputPerMillionHigh p \<and> 0 < inputTokens
                      then (of_i64 (TierThresholdTokens p) * InputPerMillion p +
                            of_i64 (inputTokens - TierThresholdTokens p) * InputPerMillionHigh p) / of_i64 inputTokens
                      else InputPerMillion p,
                    OutputPerMillion := if 0 < OutputPerMillionHigh p then OutputPerMillionHigh p else OutputPerMillion p\<rparr>
                else p))"

section \<open>Costs\<close>

definition million :: f64 where
  "million = Fin 1000000"

definition input_cost :: "ModelPricing \<Rightarrow> i64 \<Rightarrow> f64" where
  "input_cost p inputTokens =
     (if 0 < TierThresholdTokens p \<and> TierThresholdTokens p < inputTokens \<and> 0 < InputPerMillionHigh p
      then of_i64 (TierThresholdTokens p) / million * InputPerMillion p +
           of_i64 (inputTokens - TierThresholdTokens p) / million * InputPerMillionHigh p
      else of_i64 inputTokens / million * InputPerMillion p)"

definition output_rate :: "ModelPricing \<Rightarrow> i64 \<Rightarrow> f64" where
  "output_rate p inputTokens =
     (if 0 < TierThresholdTokens p \<and> TierThresholdTokens p < inputTokens \<and> 0 < OutputPerMillionHigh p
      then OutputPerMillionHigh p else OutputPerMillion p)"

definition apply_discount :: "f64 \<Rightarrow> f64 \<Rightarrow> f64" where
  "apply_discount d cost = (if 0 < d then cost * (1 - d) else cost)"

definition token_cost :: "f64 \<Rightarrow> ModelPricing \<Rightarrow> i64 \<Rightarrow> i64 \<Rightarrow> f64" where
  "token_cost g p inputTokens outputTokens =
     apply_discount g (apply_discount (p_DiscountPercent p)
       (input_cost p inputTokens + of_i64 outputTokens / million * output_rate p inputTokens))"

definition Calculate :: "gotime \<Rightarrow> string \<Rightarrow> string \<Rightarrow> i64 \<Rightarrow> i64 \<Rightarrow> Calculator \<Rightarrow> f64 \<times> Calculator" where
  "Calculate now provider model inputTokens outputTokens c =
     (let i = max 0 inputTokens; out = max 0 outputTokens
      in if i = 0 \<and> out = 0 then (0, c)
         else if ToLower provider = ''local'' then (0, c)
         else case resolve_price now c provider model of
                None \<Rightarrow>
                  let key = price_key provider model
                  in (0, if key \<notin> set (loggedUnknown c) \<and> length (loggedUnknown c) < maxLoggedUnknown
                         then c\<lparr>loggedUnknown := key # loggedUnknown c\<rparr> else c)
              | Some p \<Rightarrow> (token_cost (globalDiscount c) p i out, c))"

text \<open>\<^verbatim>\<open>time.Duration.Seconds\<close>: whole seconds and the rest converted separately.\<close>

definition dur_seconds :: "duration \<Rightarrow> f64" where
  "dur_seconds d = of_i64 (d div ns_second) + of_i64 (d mod ns_second) / Fin 1000000000"

definition CalculateTimeBased :: "gotime \<Rightarrow> string \<Rightarrow> string \<Rightarrow> duration \<Rightarrow> Calculator \<Rightarrow> f64" where
  "CalculateTimeBased now provider model d c =
     (case resolve_price now c provider model of
        None \<Rightarrow> 0
      | Some p \<Rightarrow>
          if feq (PerSecondUSD p) 0 then 0
          else apply_discount (globalDiscount c)
                 (apply_discount (p_DiscountPercent p) (dur_seconds (max 0 d) * PerSecondUSD p)))"

section \<open>Cached input tokens\<close>

definition googleCacheReadDiscount :: "string \<Rightarrow> f64" where
  "googleCacheReadDiscount model =
     (let m = ToLower model
      in if Contains m ''gemini-2.0'' \<or> Contains m ''gemini-1.5'' \<or> Contains m ''gemini-1.0'' then Fin (1 / 4) else mk (1 / 10))"

definition cache_canonical :: "Calculator \<Rightarrow> string \<Rightarrow> string" where
  "cache_canonical c provider = (case map_of (c_aliases c) (ToLower provider) of None \<Rightarrow> ToLower provider | Some a \<Rightarrow> a)"

definition scaled_tokens :: "i64 \<Rightarrow> f64 \<Rightarrow> i64" where
  "scaled_tokens n r = to_i64 (fround (of_i64 n * r))"

definition NormalizeCachedInputWithTTL ::
    "Calculator \<Rightarrow> string \<Rightarrow> string \<Rightarrow> i64 \<Rightarrow> i64 \<Rightarrow> i64 \<Rightarrow> bool \<Rightarrow> i64" where
  "NormalizeCachedInputWithTTL c provider model rawInput cacheRead cacheCreate extendedTTL =
     (if cacheRead \<le> 0 \<and> cacheCreate \<le> 0 then rawInput
      else let canonical = cache_canonical c provider
           in case map_of (cacheDiscounts c) canonical of
                None \<Rightarrow> rawInput
              | Some cfg \<Rightarrow>
                  let readDiscount =
                        (if canonical = ''google'' \<and> feq (ReadDiscount cfg) (mk (1 / 10)) then googleCacheReadDiscount model else ReadDiscount cfg);
                      createMultiplier =
                        (if extendedTTL \<and> canonical = ''anthropic'' then anthropicExtendedCacheCreateMultiplier else CreateMultiplier cfg);
                      cachedReadEq = scaled_tokens cacheRead readDiscount;
                      cachedCreateEq = scaled_tokens cacheCreate createMultiplier
                  in if InputIncludesCache cfg
                     then wrap64 (max 0 (wrap64 (rawInput - cacheRead - cacheCreate)) + cachedReadEq + cachedCreateEq)
                     else wrap64 (rawInput + cachedReadEq + cachedCreateEq))"

definition NormalizeCachedInput :: "Calculator \<Rightarrow> string \<Rightarrow> string \<Rightarrow> i64 \<Rightarrow> i64 \<Rightarrow> i64 \<Rightarrow> i64" where
  "NormalizeCachedInput c provider model rawInput cacheRead cacheCreate =
     NormalizeCachedInputWithTTL c provider model rawInput cacheRead cacheCreate False"

section \<open>Changes of the tables\<close>

definition LoadFromConfig :: "PricingConfig \<Rightarrow> Calculator \<Rightarrow> Calculator" where
  "LoadFromConfig cfg c =
     (let put = (\<lambda>p t. AList.update (price_key (p_Provider p) (p_Model p)) (p\<lparr>p_DiscountPercent := clampDiscount (p_DiscountPercent p)\<rparr>) t)
      in rebuildFallback (c\<lparr>globalDiscount := clampDiscount (cfg_DiscountPercent cfg),
                            c_overrides := fold put (cfg_Models cfg) (c_overrides c)\<rparr>))"

definition SetPricing :: "ModelPricing \<Rightarrow> Calculator \<Rightarrow> Calculator" where
  "SetPricing p c = rebuildFallback (c\<lparr>c_overrides := AList.update (price_key (p_Provider p) (p_Model p)) p (c_overrides c)\<rparr>)"

definition SetGlobalDiscount :: "f64 \<Rightarrow> Calculator \<Rightarrow> Calculator" where
  "SetGlobalDiscount d c = c\<lparr>globalDiscount := clampDiscount d\<rparr>"

definition SetCacheDiscount :: "string \<Rightarrow> CacheDiscountConfig \<Rightarrow> Calculator \<Rightarrow> Calculator" where
  "SetCacheDiscount provider cfg c = c\<lparr>cacheDiscounts := AList.update (ToLower provider) cfg (cacheDiscounts c)\<rparr>"

definition GetCacheDiscount :: "string \<Rightarrow> Calculator \<Rightarrow> CacheDiscountConfig option" where
  "GetCacheDiscount provider c = map_of (cacheDiscounts c) (ToLower provider)"

text \<open>A catalog entry and the price it gives.\<close>

record Entry =
  e_ModelID :: string
  e_Provider :: string
  e_DisplayName :: string
  e_InputPerMillion :: f64
  e_OutputPerMillion :: f64
  e_Enabled :: bool
  e_Category :: string
  e_ContextWindow :: i64
  e_InputPerMillionHigh :: f64
  e_OutputPerMillionHigh :: f64
  e_TierThresholdTokens :: i64
  e_Aliases :: "string list"
  e_AllowedTenants :: "string list"
  e_DiscountPercent :: f64
  e_UpdatedAt :: gotime
  e_ProviderModelID :: string
  e_Region :: string
  e_RequiredAccess :: "string list"

definition entry_price :: "Entry \<Rightarrow> ModelPricing" where
  "entry_price e =
     \<lparr>p_Model = e_ModelID e, p_Provider = e_Provider e, InputPerMillion = e_InputPerMillion e,
      OutputPerMillion = e_OutputPerMillion e, p_DiscountPercent = clampDiscount (e_DiscountPercent e),
      InputPerMillionHigh = e_InputPerMillionHigh e, OutputPerMillionHigh = e_OutputPerMillionHigh e,
      TierThresholdTokens = e_TierThresholdTokens e, PerSecondUSD = 0, p_ValidUntil = None,
      FallbackInputPerMillion = 0, FallbackOutputPerMillion = 0,
      FallbackInputPerMillionHigh = 0, FallbackOutputPerMillionHigh = 0\<rparr>"

definition LoadFromCatalog :: "Entry list \<Rightarrow> Calculator \<Rightarrow> Calculator" where
  "LoadFromCatalog entries c =
     rebuildFallback (c\<lparr>c_defaults :=
       fold (\<lambda>e t. if e_Enabled e then AList.update (price_key (e_Provider e) (e_ModelID e)) (entry_price e) t else t) entries []\<rparr>)"

text \<open>
  The embedded \<^verbatim>\<open>pricing.yaml\<close> reaches the code as the list the YAML library returns; a bad entry
  is a panic.  The entries have no price per second.
\<close>

datatype pricing_panic = EntryIncomplete nat | EntryPrice nat

fun check_entries :: "nat \<Rightarrow> ModelPricing list \<Rightarrow> pricing_panic option" where
  "check_entries i [] = None"
| "check_entries i (p # ps) =
     (if p_Provider p = [] \<or> p_Model p = [] then Some (EntryIncomplete i)
      else if InputPerMillion p \<le> 0 \<or> OutputPerMillion p < 0 then Some (EntryPrice i)
      else check_entries (i + 1) ps)"

definition loadDefaults :: "ModelPricing list \<Rightarrow> Calculator \<Rightarrow> pricing_panic + Calculator" where
  "loadDefaults pf c =
     (case check_entries 0 pf of
        Some e \<Rightarrow> Inl e
      | None \<Rightarrow> Inr (c\<lparr>c_defaults := fold (\<lambda>p. AList.update (price_key (p_Provider p) (p_Model p)) (p\<lparr>PerSecondUSD := 0\<rparr>)) pf (c_defaults c)\<rparr>))"

definition LoadDefaults :: "ModelPricing list \<Rightarrow> Calculator \<Rightarrow> pricing_panic + Calculator" where
  "LoadDefaults pf c = (case loadDefaults pf c of Inl e \<Rightarrow> Inl e | Inr c' \<Rightarrow> Inr (rebuildFallback c'))"

definition New_Calculator :: "ModelPricing list \<Rightarrow> pricing_panic + Calculator" where
  "New_Calculator pf = LoadDefaults pf newBase"

section \<open>Listings\<close>

definition merged_prices :: "Calculator \<Rightarrow> price_table" where
  "merged_prices c = fold (\<lambda>(k, v). AList.update k v) (c_overrides c) (fold (\<lambda>(k, v). AList.update k v) (c_defaults c) [])"

definition price_order :: "ModelPricing \<Rightarrow> string list" where
  "price_order p = [p_Provider p, p_Model p]"

definition Models :: "gotime \<Rightarrow> Calculator \<Rightarrow> ModelPricing list" where
  "Models now c = sort_key price_order (map (EffectiveRates now \<circ> snd) (merged_prices c))"

definition Defaults :: "Calculator \<Rightarrow> ModelPricing list" where
  "Defaults c = sort_key price_order (map snd (c_defaults c))"

record PricingAlert =
  al_Provider :: string
  al_Model :: string
  al_ValidUntil :: gotime
  al_Status :: string
  al_ExpiresIn :: duration
  al_Current :: "f64 \<times> f64"
  al_Fallback :: "f64 \<times> f64"

definition price_alert :: "gotime \<Rightarrow> duration \<Rightarrow> ModelPricing \<Rightarrow> PricingAlert list" where
  "price_alert now warnWithin p =
     (case p_ValidUntil p of
        None \<Rightarrow> []
      | Some v \<Rightarrow>
          if v = 0 then []
          else let expiresIn = time_sub v now;
                   alert = (\<lambda>s. \<lparr>al_Provider = p_Provider p, al_Model = p_Model p, al_ValidUntil = v, al_Status = s,
                                 al_ExpiresIn = expiresIn, al_Current = (InputPerMillion p, OutputPerMillion p),
                                 al_Fallback = (FallbackInputPerMillion p, FallbackOutputPerMillion p)\<rparr>)
               in if expiresIn \<le> 0 then [alert ''expired'']
                  else if 0 < warnWithin \<and> expiresIn \<le> warnWithin then [alert ''expiring_soon'']
                  else [])"

definition checkExpirationsLocked :: "gotime \<Rightarrow> duration \<Rightarrow> Calculator \<Rightarrow> PricingAlert list" where
  "checkExpirationsLocked now warnWithin c =
     concat (map (\<lambda>k. case map_of (merged_prices c) k of None \<Rightarrow> [] | Some p \<Rightarrow> price_alert now warnWithin p)
       (sort (keys_of (merged_prices c))))"

end
