(* ===== verification/CostLaws.thy ===== *)
theory CostLaws
  imports CostCalc
begin

text \<open>
  What the price calculator guarantees: costs are finite, non-negative and monotone in the token
  counts; the provider-agnostic table does not depend on the order in which a map is walked; an
  override wins; the listed price is the charged price; cached tokens never make an inclusive
  input dearer; and the tag scan finds the rightmost tag.
\<close>

section \<open>Amounts up to a power of two\<close>

definition upto2 :: "nat \<Rightarrow> f64 \<Rightarrow> bool" where
  "upto2 n x \<longleftrightarrow> (case x of Fin a \<Rightarrow> 0 \<le> a \<and> a \<le> 2 ^ n | _ \<Rightarrow> False)"

lemma upto2_Fin [simp]: "upto2 n (Fin a) \<longleftrightarrow> 0 \<le> a \<and> a \<le> 2 ^ n"
  by (simp add: upto2_def)

lemma upto2E:
  assumes "upto2 n x"
  obtains a where "x = Fin a" "0 \<le> a" "a \<le> 2 ^ n"
  using assms by (cases x) (auto simp: upto2_def)

lemma upto2_weaken: "upto2 m x \<Longrightarrow> m \<le> n \<Longrightarrow> upto2 n x"
  by (elim upto2E) (simp, meson order_trans power_increasing one_le_numeral)

lemma upto2_mk: "0 \<le> a \<Longrightarrow> a \<le> 2 ^ n \<Longrightarrow> n < 1024 \<Longrightarrow> upto2 n (mk a)"
  by (subst mk_Fin [of a n]) (simp_all add: rnd_nonneg le_rnd_bound)

lemma upto2_mult: "upto2 m x \<Longrightarrow> upto2 n y \<Longrightarrow> m + n < 1024 \<Longrightarrow> upto2 (m + n) (x * y)"
  by (elim upto2E) (auto intro!: upto2_mk mult_mono simp: power_add)

lemma upto2_add: "upto2 n x \<Longrightarrow> upto2 n y \<Longrightarrow> n < 1023 \<Longrightarrow> upto2 (Suc n) (x + y)"
  by (elim upto2E) (auto intro!: upto2_mk)

lemma upto2_of_i64: "0 \<le> k \<Longrightarrow> k < 2 ^ 63 \<Longrightarrow> upto2 63 (of_i64 k)"
proof -
  assume "0 \<le> k" "k < 2 ^ 63"
  then have "(of_int k :: rat) \<le> of_int (2 ^ 63)" by (simp only: of_int_le_iff)
  with \<open>0 \<le> k\<close> show ?thesis unfolding of_i64_def by (intro upto2_mk) simp_all
qed

lemma upto2_div: "upto2 n x \<Longrightarrow> 1 \<le> b \<Longrightarrow> n < 1024 \<Longrightarrow> upto2 n (x / Fin b)"
proof (elim upto2E)
  fix a assume *: "1 \<le> b" "n < 1024" "x = Fin a" "0 \<le> a" "a \<le> 2 ^ n"
  have "a / b \<le> a / 1" using * by (intro divide_left_mono) simp_all
  with * show ?thesis by (auto intro!: upto2_mk)
qed

lemma upto2_discount: "0 \<le> d \<Longrightarrow> d \<le> 1 \<Longrightarrow> upto2 0 (1 - d)"
  by (cases d) (auto simp: zero_f64_def one_f64_def f64_diff_Fin intro!: upto2_mk)

lemma mult_mono_upto2: "upto2 m x' \<Longrightarrow> upto2 n y' \<Longrightarrow> 0 \<le> x \<Longrightarrow> 0 \<le> y \<Longrightarrow> x \<le> x' \<Longrightarrow> y \<le> y' \<Longrightarrow> x * y \<le> x' * y'"
  by (elim upto2E) (cases x; cases y; auto simp: zero_f64_def intro!: mk_mono mult_mono)

lemma add_mono_upto2: "upto2 m x' \<Longrightarrow> upto2 n y' \<Longrightarrow> 0 \<le> x \<Longrightarrow> 0 \<le> y \<Longrightarrow> x \<le> x' \<Longrightarrow> y \<le> y' \<Longrightarrow> x + y \<le> x' + y'"
  by (elim upto2E) (cases x; cases y; auto simp: zero_f64_def intro!: mk_mono add_mono)

lemma div_mono_upto2: "upto2 m x' \<Longrightarrow> 0 \<le> x \<Longrightarrow> x \<le> x' \<Longrightarrow> 1 \<le> b \<Longrightarrow> x / Fin b \<le> x' / Fin b"
  by (elim upto2E) (cases x; auto simp: zero_f64_def intro!: mk_mono divide_right_mono)

lemma upto2_nonneg: "upto2 n x \<Longrightarrow> 0 \<le> x"
  by (elim upto2E) (simp add: zero_f64_def)

lemma upto2_refl: "upto2 n x \<Longrightarrow> x \<le> x"
  by (elim upto2E) simp

section \<open>Costs\<close>

text \<open>A price whose rates are at most \<open>2 ^ 40\<close> dollars per million tokens and whose discount is one.\<close>

definition price_ok :: "ModelPricing \<Rightarrow> bool" where
  "price_ok p \<longleftrightarrow>
     upto2 40 (InputPerMillion p) \<and> upto2 40 (OutputPerMillion p) \<and> upto2 40 (InputPerMillionHigh p) \<and>
     upto2 40 (OutputPerMillionHigh p) \<and> upto2 0 (p_DiscountPercent p) \<and> TierThresholdTokens p < 2 ^ 63"

lemma rated_upto2:
  assumes "upto2 63 t" and "upto2 40 r"
  shows "upto2 103 (t / million * r)"
  using upto2_mult [OF upto2_div [OF assms(1), of 1000000, folded million_def] assms(2)] by simp

lemma input_cost_upto2:
  assumes "price_ok p" and "0 \<le> i" and "i < 2 ^ 63"
  shows "upto2 104 (input_cost p i)"
proof -
  have "upto2 103 (of_i64 k / million * r)" if "0 \<le> k" "k < 2 ^ 63" "upto2 40 r" for k r
    using that by (intro rated_upto2 upto2_of_i64)
  then show ?thesis using assms
    by (auto simp: input_cost_def price_ok_def intro!: upto2_add [of 103, simplified] intro: upto2_weaken [of 103])
qed

lemma apply_discount_upto2: "upto2 n x \<Longrightarrow> upto2 0 d \<Longrightarrow> n < 1024 \<Longrightarrow> upto2 n (apply_discount d x)"
  using upto2_mult [of n x 0 "1 - d"] upto2_discount [of d]
  by (auto simp: apply_discount_def one_f64_def zero_f64_def elim: upto2E)

lemma output_rate_upto2: "price_ok p \<Longrightarrow> upto2 40 (output_rate p i)"
  by (simp add: output_rate_def price_ok_def)

lemma token_cost_upto2:
  assumes "price_ok p" and "0 \<le> i" and "i < 2 ^ 63" and "0 \<le> out" and "out < 2 ^ 63" and "upto2 0 g"
  shows "upto2 105 (token_cost g p i out)"
proof -
  have "upto2 104 (of_i64 out / million * output_rate p i)"
    using assms by (intro upto2_weaken [OF rated_upto2] output_rate_upto2 upto2_of_i64) simp_all
  then have "upto2 105 (input_cost p i + of_i64 out / million * output_rate p i)"
    using upto2_add [OF input_cost_upto2] assms by simp
  then show ?thesis
    using assms(1,6) by (simp add: token_cost_def apply_discount_upto2 price_ok_def)
qed

lemma of_i64_mono: "i \<le> j \<Longrightarrow> of_i64 i \<le> of_i64 j"
  unfolding of_i64_def by (intro mk_mono) simp

lemma rated_mono:
  assumes "0 \<le> i" "i \<le> j" "j < 2 ^ 63" "0 \<le> r" "r \<le> r'" "upto2 40 r'"
  shows "of_i64 i / million * r \<le> of_i64 j / million * r'"
proof (rule mult_mono_upto2)
  have j: "upto2 63 (of_i64 j)" and i: "upto2 63 (of_i64 i)" using assms by (simp_all add: upto2_of_i64)
  show "upto2 63 (of_i64 j / million)" using upto2_div [OF j] by (simp add: million_def)
  show "of_i64 i / million \<le> of_i64 j / million"
    unfolding million_def using assms by (intro div_mono_upto2 [OF j] of_i64_mono upto2_nonneg [OF i]) simp_all
  show "0 \<le> of_i64 i / million" using upto2_nonneg [OF upto2_div [OF i]] by (simp add: million_def)
qed (use assms in simp_all)

lemma rated_nonneg: "0 \<le> i \<Longrightarrow> i < 2 ^ 63 \<Longrightarrow> upto2 40 r \<Longrightarrow> upto2 103 (of_i64 i / million * r)"
  by (intro rated_upto2 upto2_of_i64)

lemma le_plus_rated:
  assumes "upto2 103 (x / million * y)" and "upto2 103 z"
  shows "x / million * y \<le> x / million * y + z"
proof (rule f64_le_add)
  have "representable (a * b)" for a b :: f64 by (cases a; cases b) simp_all
  then show "representable (x / million * y)" .
  show "0 \<le> z" using assms(2) by (rule upto2_nonneg)
  have "upto2 104 (x / million * y + z)" using upto2_add [OF assms] by simp
  then show "x / million * y + z \<noteq> NaN" by (auto simp: upto2_def)
qed

lemma input_cost_mono:
  assumes p: "price_ok p" and "0 \<le> i" "i \<le> j" "j < 2 ^ 63"
  shows "input_cost p i \<le> input_cost p j"
proof -
  define t where "t = TierThresholdTokens p"
  have r: "upto2 40 (InputPerMillion p)" "upto2 40 (InputPerMillionHigh p)" using p by (simp_all add: price_ok_def)
  note b = upto2_nonneg [OF r(1)] upto2_refl [OF r(1)] upto2_nonneg [OF r(2)] upto2_refl [OF r(2)]
  have low: "of_i64 k / million * InputPerMillion p \<le> of_i64 l / million * InputPerMillion p" if "0 \<le> k" "k \<le> l" "l < 2 ^ 63" for k l
    using that b r by (intro rated_mono)
  have high: "of_i64 k / million * InputPerMillionHigh p \<le> of_i64 l / million * InputPerMillionHigh p" if "0 \<le> k" "k \<le> l" "l < 2 ^ 63" for k l
    using that b r by (intro rated_mono)
  note nn = rated_nonneg [OF _ _ r(1)] rated_nonneg [OF _ _ r(2)]
  consider "\<not> (0 < t \<and> t < j \<and> 0 < InputPerMillionHigh p)" | "0 < t" "t < i" "0 < InputPerMillionHigh p"
    | "0 < t" "i \<le> t" "t < j" "0 < InputPerMillionHigh p" by linarith
  then show ?thesis
  proof cases
    case 1
    then have "\<not> (0 < t \<and> t < i \<and> 0 < InputPerMillionHigh p)" using assms(3) by auto
    with 1 low assms show ?thesis by (auto simp: input_cost_def t_def)
  next
    case 2
    have "of_i64 t / million * InputPerMillion p + of_i64 (i - t) / million * InputPerMillionHigh p
        \<le> of_i64 t / million * InputPerMillion p + of_i64 (j - t) / million * InputPerMillionHigh p"
      using 2 assms by (intro add_mono_upto2 [OF nn(1) nn(2)] low high upto2_nonneg [OF nn(1)] upto2_nonneg [OF nn(2)]) simp_all
    with 2 assms show ?thesis by (simp add: input_cost_def t_def)
  next
    case 3
    have "of_i64 i / million * InputPerMillion p \<le> of_i64 t / million * InputPerMillion p"
      using 3 assms by (intro low) simp_all
    also have "\<dots> \<le> of_i64 t / million * InputPerMillion p + of_i64 (j - t) / million * InputPerMillionHigh p"
      using 3 assms by (intro le_plus_rated nn) simp_all
    finally show ?thesis using 3 by (simp add: input_cost_def t_def)
  qed
qed

text \<open>The high tier is not cheaper for output.\<close>

definition tier_ok :: "ModelPricing \<Rightarrow> bool" where
  "tier_ok p \<longleftrightarrow> (0 < OutputPerMillionHigh p \<longrightarrow> OutputPerMillion p \<le> OutputPerMillionHigh p)"

lemma output_rate_mono: "price_ok p \<Longrightarrow> tier_ok p \<Longrightarrow> i \<le> j \<Longrightarrow> output_rate p i \<le> output_rate p j"
  by (auto simp: output_rate_def tier_ok_def price_ok_def intro: upto2_refl)

lemma apply_discount_mono:
  assumes "upto2 n y" "0 \<le> x" "x \<le> y" "upto2 0 d"
  shows "apply_discount d x \<le> apply_discount d y"
proof -
  have "upto2 0 (1 - d)" if "0 < d"
    using assms(4) that by (intro upto2_discount) (auto elim!: upto2E simp: zero_f64_def one_f64_def)
  then show ?thesis
    using assms by (auto simp: apply_discount_def intro!: mult_mono_upto2 intro: upto2_nonneg upto2_refl)
qed

lemma token_cost_mono:
  assumes p: "price_ok p" "tier_ok p" and i: "0 \<le> i" "i \<le> i'" "i' < 2 ^ 63" and o: "0 \<le> out" "out \<le> out'" "out' < 2 ^ 63"
    and g: "upto2 0 g"
  shows "token_cost g p i out \<le> token_cost g p i' out'"
proof -
  define base where "base a b = input_cost p a + of_i64 b / million * output_rate p a" for a b
  have ou: "upto2 104 (of_i64 b / million * output_rate p a)" if "0 \<le> b" "b < 2 ^ 63" for a b
    using that p by (intro upto2_weaken [OF rated_upto2] output_rate_upto2 upto2_of_i64) simp_all
  have u: "upto2 105 (base a b)" if "0 \<le> a" "a < 2 ^ 63" "0 \<le> b" "b < 2 ^ 63" for a b
    using upto2_add [OF input_cost_upto2 [OF p(1) that(1,2)] ou [OF that(3,4)]] by (simp add: base_def)
  have "base i out \<le> base i' out'"
    unfolding base_def using p i o
    by (intro add_mono_upto2 [OF input_cost_upto2 ou] input_cost_mono rated_mono output_rate_mono upto2_nonneg [OF input_cost_upto2]
        upto2_nonneg [OF ou] upto2_nonneg [OF output_rate_upto2] output_rate_upto2) simp_all
  moreover have d: "upto2 0 (p_DiscountPercent p)" using p by (simp add: price_ok_def)
  ultimately have "apply_discount (p_DiscountPercent p) (base i out) \<le> apply_discount (p_DiscountPercent p) (base i' out')"
    using i o by (intro apply_discount_mono [OF u]) (auto intro!: upto2_nonneg [OF u])
  then show ?thesis
    unfolding token_cost_def base_def [symmetric] using i o g
    by (intro apply_discount_mono [OF apply_discount_upto2 [OF u d]] upto2_nonneg [OF apply_discount_upto2 [OF u d]]) simp_all
qed

section \<open>Tables\<close>

text \<open>Every row of a table stands under its own key, once.\<close>

definition table_ok :: "price_table \<Rightarrow> bool" where
  "table_ok t \<longleftrightarrow> distinct (keys_of t) \<and> (\<forall>(k, p) \<in> set t. k = price_key (p_Provider p) (p_Model p))"

lemma table_ok_Nil [simp]: "table_ok []"
  by (simp add: table_ok_def)

lemma table_ok_update:
  assumes "table_ok t" and "k = price_key (p_Provider p) (p_Model p)"
  shows "table_ok (AList.update k p t)"
proof -
  have "set (AList.update k p t) \<subseteq> insert (k, p) (set t)" by (induction t) auto
  then show ?thesis using assms by (auto simp: table_ok_def)
qed

lemma table_ok_fold:
  assumes "\<And>x t. table_ok t \<Longrightarrow> table_ok (f x t)" and "table_ok t"
  shows "table_ok (fold f xs t)"
  using assms(2) by (induction xs arbitrary: t) (simp_all add: assms(1))

text \<open>Two rows of one model whose providers agree up to case are one row.\<close>

lemma table_unique:
  assumes "table_ok t" "p \<in> set (map snd t)" "q \<in> set (map snd t)"
    and "ToLower (p_Model p) = ToLower (p_Model q)" "ToLower (p_Provider p) = ToLower (p_Provider q)"
  shows "p = q"
proof -
  have "price_key (p_Provider p) (p_Model p) = price_key (p_Provider q) (p_Model q)"
    using assms(4,5) unfolding price_key_def by (simp only: ToLower_append)
  then obtain k where "(k, p) \<in> set t" "(k, q) \<in> set t" using assms(1-3) by (force simp: table_ok_def)
  then show ?thesis using assms(1) by (metis eq_key_imp_eq_value table_ok_def)
qed

lemma best_fold:
  fixes f :: "'a \<Rightarrow> 'b :: linorder"
  shows "let b = fold (\<lambda>p b. if f p < f b then p else b) ps q in b \<in> insert q (set ps) \<and> (\<forall>p \<in> insert q (set ps). f b \<le> f p)"
proof (induction ps arbitrary: q)
  case (Cons p ps)
  show ?case using Cons.IH [of "if f p < f q then p else q"] by (auto simp: Let_def split: if_splits)
qed simp

lemma best_provider_least:
  assumes "ps \<noteq> []"
  shows "best_provider ps \<in> set ps" and "p \<in> set ps \<Longrightarrow> ToLower (p_Provider (best_provider ps)) \<le> ToLower (p_Provider p)"
  using best_fold [of "\<lambda>p. ToLower (p_Provider p)" "tl ps" "hd ps"] assms
  by (auto simp: best_provider_def Let_def neq_Nil_conv)

text \<open>The row of a model whose provider comes first.\<close>

definition first_row :: "string \<Rightarrow> price_table \<Rightarrow> ModelPricing \<Rightarrow> bool" where
  "first_row m t p \<longleftrightarrow> p \<in> set (model_group m t) \<and> (\<forall>q \<in> set (model_group m t). ToLower (p_Provider p) \<le> ToLower (p_Provider q))"

lemma first_row_unique: "table_ok t \<Longrightarrow> first_row m t p \<Longrightarrow> first_row m t q \<Longrightarrow> p = q"
  by (rule table_unique [of t]) (auto simp: first_row_def model_group_def simp del: set_map intro: order.antisym)

lemma best_provider_iff:
  assumes "table_ok t" and "model_group m t \<noteq> []"
  shows "best_provider (model_group m t) = p \<longleftrightarrow> first_row m t p"
proof -
  have "first_row m t (best_provider (model_group m t))"
    using best_provider_least [OF assms(2)] by (simp add: first_row_def)
  then show ?thesis using first_row_unique [OF assms(1)] by blast
qed

lemma fold_fill:
  "map_of (fold (\<lambda>m fb. if map_of fb m = None then AList.update m (g m) fb else fb) ms fb) k =
     (if map_of fb k = None \<and> k \<in> set ms then Some (g k) else map_of fb k)"
  by (induction ms arbitrary: fb) auto

lemma model_group_Nil: "model_group m t = [] \<longleftrightarrow> m \<notin> (\<lambda>(k, p). ToLower (p_Model p)) ` set t"
  by (force simp: model_group_def filter_empty_conv)

lemma fallback_process_lookup:
  "map_of (fallback_process source fb) m =
     (if map_of fb m = None \<and> model_group m source \<noteq> [] then Some (best_provider (model_group m source)) else map_of fb m)"
  by (simp add: fallback_process_def fold_fill model_group_Nil)

lemma fallback_iff:
  assumes "table_ok (c_overrides c)" and "table_ok (c_defaults c)"
  shows "map_of (c_fallback (rebuildFallback c)) m = Some p \<longleftrightarrow>
    first_row m (c_overrides c) p \<or> model_group m (c_overrides c) = [] \<and> first_row m (c_defaults c) p"
  using best_provider_iff [OF assms(1)] best_provider_iff [OF assms(2)]
  by (auto simp: rebuildFallback_def fallback_process_lookup first_row_def split: if_splits)

lemma model_group_cong: "set t = set t' \<Longrightarrow> set (model_group m t) = set (model_group m t')"
  by (simp add: model_group_def)

lemma first_row_cong: "set t = set t' \<Longrightarrow> first_row m t p \<longleftrightarrow> first_row m t' p"
  using model_group_cong [of t t' m] by (simp add: first_row_def)

lemma map_of_table: "table_ok t \<Longrightarrow> set t = set t' \<Longrightarrow> table_ok t' \<Longrightarrow> map_of t = map_of t'"
  by (rule map_of_inject_set [THEN iffD2]) (simp_all add: table_ok_def)

section \<open>The invariant of a calculator\<close>

definition calc_ok :: "Calculator \<Rightarrow> bool" where
  "calc_ok c \<longleftrightarrow>
     table_ok (c_defaults c) \<and> table_ok (c_overrides c) \<and>
     c_fallback c = c_fallback (rebuildFallback c) \<and>
     0 \<le> globalDiscount c \<and> globalDiscount c \<le> 1 \<and>
     distinct (loggedUnknown c) \<and> length (loggedUnknown c) \<le> maxLoggedUnknown"

lemma clampDiscount_range: "0 \<le> clampDiscount d \<and> clampDiscount d \<le> 1"
  by (cases d) (auto simp: clampDiscount_def is_nan_def zero_f64_def one_f64_def)

lemma rebuild_select [simp]:
  "c_defaults (rebuildFallback c) = c_defaults c" "c_overrides (rebuildFallback c) = c_overrides c"
  "globalDiscount (rebuildFallback c) = globalDiscount c" "loggedUnknown (rebuildFallback c) = loggedUnknown c"
  "c_aliases (rebuildFallback c) = c_aliases c" "cacheDiscounts (rebuildFallback c) = cacheDiscounts c"
  by (simp_all add: rebuildFallback_def)

lemma rebuild_cong: "c_defaults c = c_defaults c' \<Longrightarrow> c_overrides c = c_overrides c' \<Longrightarrow> c_fallback (rebuildFallback c) = c_fallback (rebuildFallback c')"
  by (simp add: rebuildFallback_def)

lemma rebuild_idem [simp]: "c_fallback (rebuildFallback (rebuildFallback c)) = c_fallback (rebuildFallback c)"
  by (rule rebuild_cong) simp_all

lemma calc_ok_newBase [inv_intros]: "calc_ok newBase"
  by (simp add: calc_ok_def newBase_def rebuildFallback_def fallback_process_def zero_f64_def one_f64_def)

lemma calc_ok_rebuild:
  assumes "table_ok (c_defaults c)" "table_ok (c_overrides c)" "0 \<le> globalDiscount c" "globalDiscount c \<le> 1"
    "distinct (loggedUnknown c)" "length (loggedUnknown c) \<le> maxLoggedUnknown"
  shows "calc_ok (rebuildFallback c)"
  using assms by (simp add: calc_ok_def)

lemma calc_ok_LoadFromConfig [inv_intros]: "calc_ok c \<Longrightarrow> calc_ok (LoadFromConfig cfg c)"
  unfolding LoadFromConfig_def Let_def
  by (rule calc_ok_rebuild) (auto simp: calc_ok_def clampDiscount_range intro!: table_ok_fold table_ok_update)

lemma calc_ok_SetPricing [inv_intros]: "calc_ok c \<Longrightarrow> calc_ok (SetPricing p c)"
  unfolding SetPricing_def by (rule calc_ok_rebuild) (auto simp: calc_ok_def intro!: table_ok_update)

lemma calc_ok_LoadFromCatalog [inv_intros]: "calc_ok c \<Longrightarrow> calc_ok (LoadFromCatalog es c)"
  unfolding LoadFromCatalog_def
  by (rule calc_ok_rebuild) (auto simp: calc_ok_def entry_price_def intro!: table_ok_fold table_ok_update)

lemma calc_ok_LoadDefaults [inv_intros]: "calc_ok c \<Longrightarrow> LoadDefaults pf c = Inr c' \<Longrightarrow> calc_ok c'"
  by (auto simp: LoadDefaults_def loadDefaults_def calc_ok_def intro!: table_ok_fold table_ok_update
      split: option.splits sum.splits)

lemma calc_ok_SetGlobalDiscount [inv_intros]: "calc_ok c \<Longrightarrow> calc_ok (SetGlobalDiscount d c)"
  using clampDiscount_range [of d] rebuild_cong [of "SetGlobalDiscount d c" c] by (simp add: calc_ok_def SetGlobalDiscount_def)

lemma calc_ok_SetCacheDiscount [inv_intros]: "calc_ok c \<Longrightarrow> calc_ok (SetCacheDiscount pr cfg c)"
  using rebuild_cong [of "SetCacheDiscount pr cfg c" c] by (simp add: calc_ok_def SetCacheDiscount_def)

lemma calc_ok_Calculate [inv_intros]: "calc_ok c \<Longrightarrow> calc_ok (snd (Calculate now pr m i out c))"
  using rebuild_cong [of "c\<lparr>loggedUnknown := price_key pr m # loggedUnknown c\<rparr>" c]
  by (auto simp: calc_ok_def Calculate_def Let_def split: option.splits)

section \<open>Resolution and listing\<close>

lemma fold_update_lookup:
  "distinct (keys_of xs) \<Longrightarrow> map_of (fold (\<lambda>(k, v). AList.update k v) xs t) = map_of t ++ map_of xs"
proof (induction xs arbitrary: t)
  case (Cons kv xs)
  then show ?case by (cases kv) (auto simp: fun_eq_iff map_add_def map_of_eq_None_iff [THEN iffD2] split: option.split)
qed simp

lemma fold_update_distinct:
  "distinct (keys_of t) \<Longrightarrow> distinct (keys_of (fold (\<lambda>(k, v). AList.update k v) xs t))"
  by (induction xs arbitrary: t) auto

lemma merged_lookup:
  assumes "calc_ok c"
  shows "map_of (merged_prices c) = map_of (c_defaults c) ++ map_of (c_overrides c)" and "distinct (keys_of (merged_prices c))"
  using assms by (simp_all add: merged_prices_def fold_update_lookup fold_update_distinct calc_ok_def table_ok_def)

lemma EffectiveRates_name [simp]:
  "p_Provider (EffectiveRates now p) = p_Provider p" "p_Model (EffectiveRates now p) = p_Model p"
  by (simp_all add: EffectiveRates_def)

lemma listed_row:
  assumes "calc_ok c" and "p \<in> set (Models now c)"
  obtains q where "p = EffectiveRates now q"
    and "(map_of (c_defaults c) ++ map_of (c_overrides c)) (price_key (p_Provider q) (p_Model q)) = Some q"
proof -
  from assms(2) obtain k q where kq: "(k, q) \<in> set (merged_prices c)" "p = EffectiveRates now q"
    by (auto simp: Models_def)
  have "map_of (merged_prices c) k = Some q" by (rule map_of_is_SomeI [OF merged_lookup(2) [OF assms(1)] kq(1)])
  then have l: "(map_of (c_defaults c) ++ map_of (c_overrides c)) k = Some q" by (simp only: merged_lookup(1) [OF assms(1)])
  then have "(k, q) \<in> set (c_defaults c) \<or> (k, q) \<in> set (c_overrides c)" by (auto dest: map_of_SomeD)
  then have "k = price_key (p_Provider q) (p_Model q)" using assms(1) unfolding calc_ok_def table_ok_def by blast
  then show thesis using that [OF kq(2)] l by (simp only:)
qed

lemma lookup_merged:
  "(map_of (c_defaults c) ++ map_of (c_overrides c)) (price_key pr m) = Some q \<Longrightarrow> lookupCandidate c pr m = Some q"
  by (auto simp: lookupCandidate_def Let_def map_add_def split: option.splits)

lemma resolve_lookup:
  "lookupCandidate c (canonical_provider c pr) m = Some q \<Longrightarrow> resolve_price now c pr m = Some (EffectiveRates now q)"
  by (simp add: resolve_price_def resolveCandidate_def)

section \<open>Cached tokens\<close>

lemma round_away_le: "0 \<le> a \<Longrightarrow> a \<le> of_int n \<Longrightarrow> 0 \<le> round_away a \<and> round_away a \<le> n"
  by (simp add: round_away_def floor_le_iff le_floor_iff)

lemma scaled_tokens_le:
  assumes "0 \<le> n" "n \<le> 2 ^ 53" "upto2 0 r"
  shows "0 \<le> scaled_tokens n r" and "scaled_tokens n r \<le> n"
proof -
  from assms(3) obtain q where q: "r = Fin q" "0 \<le> q" "q \<le> 1" by (auto elim: upto2E)
  have le: "of_int n * q \<le> of_int n" "0 \<le> of_int n * q" using q assms(1) by (simp_all add: mult_left_le)
  have n: "(of_int n :: rat) \<le> 2 ^ 53" using assms(2) by (metis of_int_le_iff of_int_numeral of_int_power)
  have "mk (of_int n * q) = Fin (rnd (of_int n * q))"
    using le n by (intro mk_Fin [of _ 53]) (simp_all add: order_trans [OF le(1) n])
  moreover have "rnd (of_int n * q) \<le> of_int n"
    using rnd_mono [OF le(1)] rnd_of_int [of n] assms by simp
  moreover have "of_i64 n = Fin (of_int n)" using assms by (simp add: of_i64_def mk_of_int)
  ultimately have s: "scaled_tokens n r = to_i64 (Fin (of_int (round_away (rnd (of_int n * q)))))"
    and b: "0 \<le> round_away (rnd (of_int n * q))" "round_away (rnd (of_int n * q)) \<le> n"
    using rnd_nonneg [OF le(2)] round_away_le [of "rnd (of_int n * q)" n] by (simp_all add: scaled_tokens_def q(1))
  then have "scaled_tokens n r = round_away (rnd (of_int n * q))"
    using assms(2) by (simp add: trunc_rat_def Let_def)
  with b show "0 \<le> scaled_tokens n r" "scaled_tokens n r \<le> n" by simp_all
qed

lemma google_rate: "upto2 0 (googleCacheReadDiscount m)"
proof -
  have "upto2 0 (mk (1 / 10))" by (rule upto2_mk) simp_all
  then show ?thesis by (simp add: googleCacheReadDiscount_def Let_def)
qed

section \<open>The tag scan\<close>

lemma LastIndex_last:
  "LastIndex s sub = Some i \<Longrightarrow> HasPrefix (drop i s) sub \<and> (\<forall>j. i < j \<and> j \<le> length s \<longrightarrow> \<not> HasPrefix (drop j s) sub)"
  "LastIndex s sub = None \<Longrightarrow> j \<le> length s \<Longrightarrow> \<not> HasPrefix (drop j s) sub"
proof (induction s arbitrary: i j)
  case (Cons x s)
  { case 1
    show ?case
    proof (cases "LastIndex s sub")
      case None
      then have "i = 0" "HasPrefix (x # s) sub" using 1 by (auto split: if_splits)
      moreover have "\<not> HasPrefix (drop j (x # s)) sub" if "0 < j" "j \<le> length (x # s)" for j
        using that Cons.IH(2) [OF None, of "j - 1"] by (cases j) auto
      ultimately show ?thesis by auto
    next
      case (Some k)
      then have i: "i = Suc k" using 1 by simp
      have "\<not> HasPrefix (drop j (x # s)) sub" if "i < j" "j \<le> length (x # s)" for j
        using that Cons.IH(1) [OF Some] i by (cases j) auto
      then show ?thesis using Cons.IH(1) [OF Some] i by auto
    qed
  next
    case 2
    then show ?case using Cons.IH(2) [of "j - 1"] by (cases j) (auto split: option.splits if_splits) }
qed (auto split: if_splits simp: HasPrefix_def)

lemma HasPrefix_window:
  assumes "e \<le> length m" and "tag \<noteq> []"
  shows "HasPrefix (drop j (take e m)) tag \<longleftrightarrow> HasPrefix (drop j m) tag \<and> j + length tag \<le> e"
proof (cases "j + length tag \<le> e")
  case True
  then show ?thesis by (simp add: HasPrefix_def drop_take min_def)
next
  case False
  then have "length (take (length tag) (drop j (take e m))) < length tag" using assms by (cases tag) auto
  then show ?thesis using False by (auto simp: HasPrefix_def)
qed

text \<open>A tag stands at \<open>i\<close>, not at the start, and ends the name or is followed by a hyphen.\<close>

definition tag_at :: "string \<Rightarrow> string \<Rightarrow> nat \<Rightarrow> bool" where
  "tag_at m tag i \<longleftrightarrow> 0 < i \<and> HasPrefix (drop i m) tag \<and> (drop (i + length tag) m = [] \<or> hd (drop (i + length tag) m) = CHR ''-'')"

lemma HasPrefix_nth:
  assumes "HasPrefix (drop i m) p" and "k < length p"
  shows "m ! (i + k) = p ! k"
proof -
  from assms(1) obtain t where t: "drop i m = p @ t" by (auto simp: str_simps)
  then have "i \<le> length m" using assms(2) by (cases "i \<le> length m") auto
  then have "m ! (i + k) = drop i m ! k" by simp
  then show ?thesis using assms(2) by (simp add: t nth_append)
qed

lemma no_overlap:
  assumes "c \<notin> set cs" and "HasPrefix (drop i m) (c # cs)" and "HasPrefix (drop j m) (c # cs)" and "j < i"
  shows "j + length (c # cs) \<le> i"
proof (rule ccontr)
  assume *: "\<not> ?thesis"
  have "m ! i = c" and "m ! i = (c # cs) ! (i - j)"
    using HasPrefix_nth [OF assms(2), of 0] HasPrefix_nth [OF assms(3), of "i - j"] * assms(4) by simp_all
  then have "c = cs ! (i - j - 1)" using assms(4) by (simp add: nth_Cons')
  moreover have "i - j - 1 < length cs" using * assms(4) by simp
  ultimately show False using assms(1) by (metis nth_mem)
qed

lemma suffix_scan_spec:
  assumes "c \<notin> set cs" and "e \<le> length m"
  defines "good \<equiv> \<lambda>b j. tag_at m (c # cs) j \<and> j + length (c # cs) \<le> b"
  shows "case suffix_scan m c cs e of None \<Rightarrow> \<forall>j. \<not> good e j | Some i \<Rightarrow> good e i \<and> (\<forall>j > i. \<not> good e j)"
  using assms(2)
proof (induction e rule: less_induct)
  case (less e)
  have win: "HasPrefix (drop j (take e m)) (c # cs) \<longleftrightarrow> HasPrefix (drop j m) (c # cs) \<and> j + length (c # cs) \<le> e" for j
    using HasPrefix_window [OF less.prems] by simp
  show ?case
  proof (cases "LastIndex (take e m) (c # cs)")
    case None
    then have "\<not> good e j" for j
      using LastIndex_last(2) [OF None, of j] win [of j] less.prems by (auto simp: good_def tag_at_def)
    moreover have "suffix_scan m c cs e = None" using None by (subst suffix_scan.simps) simp
    ultimately show ?thesis by simp
  next
    case (Some idx)
    note at = LastIndex_last(1) [OF Some]
    have idx: "HasPrefix (drop idx m) (c # cs)" "idx + length (c # cs) \<le> e" using at win [of idx] by blast+
    have above: "\<not> good e j" if "idx < j" for j
      using at win [of j] that less.prems by (auto simp: good_def tag_at_def)
    have below: "good e j \<longleftrightarrow> good idx j" if "j < idx" for j
      using no_overlap [OF assms(1) idx(1) _ that] that idx(2) by (auto simp: good_def tag_at_def)
    have nidx: "\<not> good idx j" if "idx \<le> j" for j using that by (simp add: good_def)
    show ?thesis
    proof (cases "good e idx")
      case True
      then have "suffix_scan m c cs e = Some idx"
        using Some idx(2) by (subst suffix_scan.simps) (auto simp: good_def tag_at_def Let_def)
      with True above show ?thesis by simp
    next
      case bad: False
      show ?thesis
      proof (cases "idx = 0")
        case True
        then have "suffix_scan m c cs e = None" using Some by (subst suffix_scan.simps) simp
        moreover have "\<not> good e j" for j using above [of j] bad True by (cases "j = 0") auto
        ultimately show ?thesis by simp
      next
        case False
        have down: "suffix_scan m c cs e = suffix_scan m c cs idx"
          using Some bad False idx by (subst suffix_scan.simps) (auto simp: good_def tag_at_def Let_def)
        have "good e j \<longleftrightarrow> good idx j" for j
          using above [of j] below [of j] bad nidx [of j] by (metis linorder_neqE_nat order_refl less_imp_le)
        then have same: "good e = good idx" by (rule ext)
        show ?thesis unfolding down same using less.IH [of idx] idx(2) less.prems by simp
      qed
    qed
  qed
qed

section \<open>Rows\<close>

definition price_rows :: "Calculator \<Rightarrow> ModelPricing set" where
  "price_rows c = snd ` (set (c_defaults c) \<union> set (c_overrides c))"

lemma row_of_lookup: "map_of (c_defaults c) k = Some p \<Longrightarrow> p \<in> price_rows c" "map_of (c_overrides c) k = Some p \<Longrightarrow> p \<in> price_rows c"
  by (auto simp: price_rows_def dest!: map_of_SomeD intro: rev_image_eqI)

lemma row_of_fallback:
  assumes "calc_ok c" and "map_of (c_fallback c) m = Some p"
  shows "p \<in> price_rows c"
proof -
  have t: "table_ok (c_overrides c)" "table_ok (c_defaults c)" "c_fallback c = c_fallback (rebuildFallback c)"
    using assms(1) by (simp_all add: calc_ok_def)
  have "map_of (c_fallback (rebuildFallback c)) m = Some p" using assms(2) t(3) by metis
  then have "p \<in> set (map snd (c_overrides c)) \<or> p \<in> set (map snd (c_defaults c))"
    using fallback_iff [OF t(1,2)] by (auto simp: first_row_def model_group_def simp del: set_map)
  then show ?thesis by (auto simp: price_rows_def)
qed

lemma row_of_candidate: "calc_ok c \<Longrightarrow> lookupCandidate c pr m = Some p \<Longrightarrow> p \<in> price_rows c"
  by (auto simp: lookupCandidate_def Let_def row_of_lookup row_of_fallback split: option.splits)

lemma resolve_row:
  assumes "calc_ok c" and "resolve_price now c pr m = Some p"
  obtains q where "q \<in> price_rows c" "p = EffectiveRates now q"
  using assms row_of_candidate [OF assms(1)]
  by (auto simp: resolve_price_def resolveCandidate_def resolve_base_def Let_def split: option.splits if_splits)

lemma Calculate_cost:
  "fst (Calculate now pr m i out c) =
     (if max 0 i = 0 \<and> max 0 out = 0 \<or> ToLower pr = ''local'' then 0
      else case resolve_price now c pr m of None \<Rightarrow> 0 | Some p \<Rightarrow> token_cost (globalDiscount c) p (max 0 i) (max 0 out))"
  by (simp add: Calculate_def Let_def split: option.split)

lemma calc_discount: "calc_ok c \<Longrightarrow> upto2 0 (globalDiscount c)"
  by (cases "globalDiscount c") (simp_all add: calc_ok_def zero_f64_def one_f64_def)

lemma resolve_cong:
  assumes "map_of (c_defaults c) = map_of (c_defaults c')" "map_of (c_overrides c) = map_of (c_overrides c')"
    "map_of (c_fallback c) = map_of (c_fallback c')" "c_aliases c = c_aliases c'"
  shows "resolve_price now c pr m = resolve_price now c' pr m"
proof -
  have l: "lookupCandidate c = lookupCandidate c'" by (intro ext) (simp only: lookupCandidate_def assms)
  show ?thesis by (simp only: resolve_price_def resolveCandidate_def resolve_base_def canonical_provider_def l assms(4))
qed

text \<open>
  An override stored under an alias of a provider is not consulted by requests to that alias: they
  are resolved under the canonical provider first.
\<close>

lemma alias_override_ignored:
  assumes "map_of (c_aliases c) (ToLower (p_Provider p)) = Some canon"
    and "price_key canon (p_Model p) \<noteq> price_key (p_Provider p) (p_Model p)"
    and "map_of (c_overrides c) (price_key canon (p_Model p)) = None"
    and "map_of (c_defaults c) (price_key canon (p_Model p)) = Some q"
  shows "resolve_price now (SetPricing p c) (p_Provider p) (p_Model p) = Some (EffectiveRates now q)"
  using assms by (intro resolve_lookup) (simp add: canonical_provider_def lookupCandidate_def Let_def SetPricing_def)

section \<open>A calculator with one price\<close>

definition demo_price :: ModelPricing where
  "demo_price = \<lparr>p_Model = ''gpt-4.1'', p_Provider = ''openai'', InputPerMillion = Fin 2, OutputPerMillion = Fin 8, p_DiscountPercent = 0,
     InputPerMillionHigh = Fin 4, OutputPerMillionHigh = Fin 12, TierThresholdTokens = 200000, PerSecondUSD = 0, p_ValidUntil = None,
     FallbackInputPerMillion = 0, FallbackOutputPerMillion = 0, FallbackInputPerMillionHigh = 0, FallbackOutputPerMillionHigh = 0\<rparr>"

definition demo_calc :: Calculator where
  "demo_calc = SetPricing demo_price newBase"

definition demo_row :: "string \<Rightarrow> string \<times> ModelPricing" where
  "demo_row provider = (price_key provider ''gpt-4.1'', demo_price\<lparr>p_Provider := provider\<rparr>)"

lemma demo_calc_ok: "calc_ok demo_calc"
  unfolding demo_calc_def by (intro inv_intros)

lemma demo_price_name: "p_Provider demo_price = ''openai''" "p_Model demo_price = ''gpt-4.1''"
  by (simp_all add: demo_price_def)

lemma demo_rows_ok: "\<forall>p \<in> price_rows demo_calc. price_ok (EffectiveRates 5 p) \<and> tier_ok (EffectiveRates 5 p)"
proof -
  have "price_rows demo_calc = {demo_price}" by (simp add: price_rows_def demo_calc_def SetPricing_def newBase_def)
  moreover have "EffectiveRates 5 demo_price = demo_price" by (simp add: EffectiveRates_def IsExpired_def demo_price_def)
  moreover have "price_ok demo_price" "tier_ok demo_price"
    by (simp_all add: price_ok_def tier_ok_def demo_price_def zero_f64_def)
  ultimately show ?thesis by simp
qed

section \<open>Properties\<close>

text \<open>The operations an administrator or a request can perform on a calculator.\<close>

datatype calc_op =
    OpConfig PricingConfig
  | OpCatalog "Entry list"
  | OpPricing ModelPricing
  | OpGlobalDiscount f64
  | OpCacheDiscount string CacheDiscountConfig
  | OpDefaults "ModelPricing list"
  | OpCalculate gotime string string i64 i64

fun calc_step :: "calc_op \<Rightarrow> Calculator \<Rightarrow> Calculator" where
  "calc_step (OpConfig cfg) c = LoadFromConfig cfg c"
| "calc_step (OpCatalog es) c = LoadFromCatalog es c"
| "calc_step (OpPricing p) c = SetPricing p c"
| "calc_step (OpGlobalDiscount d) c = SetGlobalDiscount d c"
| "calc_step (OpCacheDiscount pr cfg) c = SetCacheDiscount pr cfg c"
| "calc_step (OpDefaults pf) c = (case LoadDefaults pf c of Inl _ \<Rightarrow> c | Inr c' \<Rightarrow> c')"
| "calc_step (OpCalculate now pr m i out) c = snd (Calculate now pr m i out c)"

lemma calc_ok_step: "calc_ok c \<Longrightarrow> calc_ok (calc_step op c)"
  by (cases op) (auto intro: inv_intros split: sum.split)

text \<open>
  C18: whatever sequence of loads, overrides, discounts and cost calculations runs, the tables keep
  one row per key, each under its own key, the fallback table is the one the tables define, the global discount is
  a fraction, and at most 1000 unknown models are remembered.
\<close>

theorem calculator_invariant: "calc_ok (fold calc_step ops NewEmpty)"
proof -
  have "calc_ok c \<Longrightarrow> calc_ok (fold calc_step ops c)" for c
    by (induction ops arbitrary: c) (simp_all add: calc_ok_step)
  then show ?thesis by (simp add: NewEmpty_def calc_ok_newBase)
qed

text \<open>
  C15: with prices of at most \<open>2 ^ 40\<close> dollars per million tokens and discounts between 0 and 1, the
  cost of a request is a finite, non-negative number of dollars: no overflow to infinity and no NaN
  reaches the budgets, whatever token counts a provider reports.
\<close>

theorem cost_finite:
  assumes "calc_ok c" and "\<forall>p \<in> price_rows c. price_ok (EffectiveRates now p)" and "in_i64 i" and "in_i64 out"
  shows "\<exists>a. fst (Calculate now pr m i out c) = Fin a \<and> 0 \<le> a \<and> a \<le> 2 ^ 105"
proof -
  have "upto2 105 (fst (Calculate now pr m i out c))"
    unfolding Calculate_cost using assms calc_discount [OF assms(1)]
    by (auto simp: zero_f64_def in_i64_def split: option.split elim!: resolve_row intro!: token_cost_upto2)
  then show ?thesis by (auto elim: upto2E)
qed

theorem cost_finite_witness:
  "\<exists>a. fst (Calculate 5 ''openai'' ''gpt-4.1'' 1000 500 demo_calc) = Fin a \<and> 0 \<le> a \<and> a \<le> 2 ^ 105"
  by (rule cost_finite) (use demo_calc_ok demo_rows_ok in \<open>simp_all add: in_i64_def\<close>)

text \<open>
  C16: the cost is monotone: more input or more output tokens never cost less, across the boundary
  of the price tier too, as long as the high tier is not cheaper for output.
\<close>

theorem cost_monotone:
  assumes "calc_ok c" and "\<forall>p \<in> price_rows c. price_ok (EffectiveRates now p) \<and> tier_ok (EffectiveRates now p)"
    and "i \<le> i'" and "out \<le> out'" and "in_i64 i'" and "in_i64 out'"
  shows "fst (Calculate now pr m i out c) \<le> fst (Calculate now pr m i' out' c)"
proof (cases "ToLower pr = ''local'' \<or> resolve_price now c pr m = None")
  case False
  then obtain p where p: "resolve_price now c pr m = Some p" and l: "ToLower pr \<noteq> ''local''" by auto
  then have ok: "price_ok p" "tier_ok p" using resolve_row [OF assms(1) p] assms(2) by metis+
  note g = calc_discount [OF assms(1)]
  have b: "0 \<le> max 0 i'" "max 0 i' < 2 ^ 63" "0 \<le> max 0 out'" "max 0 out' < 2 ^ 63"
    using assms(5,6) by (auto simp: in_i64_def)
  have "token_cost (globalDiscount c) p (max 0 i) (max 0 out) \<le> token_cost (globalDiscount c) p (max 0 i') (max 0 out')"
    using b assms(3,4) by (intro token_cost_mono [OF ok _ _ _ _ _ _ g]) auto
  moreover have "0 \<le> token_cost (globalDiscount c) p (max 0 i') (max 0 out')"
    using upto2_nonneg [OF token_cost_upto2 [OF ok(1) b g]] .
  moreover have "max 0 i' = 0 \<and> max 0 out' = 0 \<Longrightarrow> max 0 i = 0 \<and> max 0 out = 0" using assms(3,4) by (auto simp: max_def split: if_splits)
  ultimately show ?thesis unfolding Calculate_cost p using l by (simp add: zero_f64_def)
next
  case True
  then have "fst (Calculate now pr m a b c) = 0" for a b unfolding Calculate_cost by (elim disjE) simp_all
  then show ?thesis by (simp add: zero_f64_def)
qed

theorem cost_monotone_witness:
  "fst (Calculate 5 ''openai'' ''gpt-4.1'' 1000 500 demo_calc) \<le> fst (Calculate 5 ''openai'' ''gpt-4.1'' 300000 500 demo_calc)"
  by (rule cost_monotone) (use demo_calc_ok demo_rows_ok in \<open>simp_all add: in_i64_def\<close>)

text \<open>
  C17: prices do not depend on the order in which Go walks a map.  Two calculators whose tables hold
  the same rows, in any order, resolve every model to the same price, name-only matches included.
\<close>

theorem price_order_independent:
  assumes "table_ok (c_defaults c)" "table_ok (c_overrides c)" "table_ok (c_defaults c')" "table_ok (c_overrides c')"
    and "set (c_defaults c) = set (c_defaults c')" "set (c_overrides c) = set (c_overrides c')" "c_aliases c = c_aliases c'"
  shows "resolve_price now (rebuildFallback c) pr m = resolve_price now (rebuildFallback c') pr m"
proof (rule resolve_cong)
  have "model_group k (c_overrides c) = [] \<longleftrightarrow> model_group k (c_overrides c') = []" for k
    using model_group_cong [OF assms(6), of k] by (metis set_empty)
  then have "map_of (c_fallback (rebuildFallback c)) k = Some p \<longleftrightarrow> map_of (c_fallback (rebuildFallback c')) k = Some p" for k p
    using fallback_iff [OF assms(2,1)] fallback_iff [OF assms(4,3)] first_row_cong [OF assms(5)] first_row_cong [OF assms(6)] by simp
  then show "map_of (c_fallback (rebuildFallback c)) = map_of (c_fallback (rebuildFallback c'))"
    by (metis ext not_Some_eq)
  show "map_of (c_defaults (rebuildFallback c)) = map_of (c_defaults (rebuildFallback c'))"
    using map_of_table [OF assms(1,5,3)] by simp
  show "map_of (c_overrides (rebuildFallback c)) = map_of (c_overrides (rebuildFallback c'))"
    using map_of_table [OF assms(2,6,4)] by simp
qed (simp add: assms(7))

theorem price_order_independent_witness:
  "resolve_price 5 (rebuildFallback (newBase\<lparr>c_defaults := [demo_row ''openai'', demo_row ''azure'']\<rparr>)) ''x'' ''gpt-4.1'' =
   resolve_price 5 (rebuildFallback (newBase\<lparr>c_defaults := [demo_row ''azure'', demo_row ''openai'']\<rparr>)) ''x'' ''gpt-4.1''"
proof (rule price_order_independent)
  have "price_key ''openai'' ''gpt-4.1'' \<noteq> price_key ''azure'' ''gpt-4.1''" by code_simp
  then show "table_ok (c_defaults (newBase\<lparr>c_defaults := [demo_row ''openai'', demo_row ''azure'']\<rparr>))"
    "table_ok (c_defaults (newBase\<lparr>c_defaults := [demo_row ''azure'', demo_row ''openai'']\<rparr>))"
    by (auto simp: table_ok_def demo_row_def demo_price_def)
qed (auto simp: newBase_def)

text \<open>
  An override wins.  After \<^verbatim>\<open>SetPricing\<close>, every request whose canonical provider and model have
  the override's key, up to case and through any alias, is charged the override.
\<close>

lemma override_wins:
  assumes "price_key (canonical_provider c pr) m = price_key (p_Provider p) (p_Model p)"
  shows "resolve_price now (SetPricing p c) pr m = Some (EffectiveRates now p)"
proof (rule resolve_lookup)
  have "canonical_provider (SetPricing p c) pr = canonical_provider c pr" by (simp add: canonical_provider_def SetPricing_def)
  then show "lookupCandidate (SetPricing p c) (canonical_provider (SetPricing p c) pr) m = Some p"
    using assms by (simp add: lookupCandidate_def Let_def SetPricing_def)
qed

text \<open>
  The advertised price is the charged price.  Every entry of the model listing resolves, under the
  provider and model it shows, to exactly itself.
\<close>

lemma listed_price_charged:
  assumes "calc_ok c" and "p \<in> set (Models now c)" and "canonical_provider c (p_Provider p) = p_Provider p"
  shows "resolve_price now c (p_Provider p) (p_Model p) = Some p"
proof -
  obtain q where "p = EffectiveRates now q"
    "(map_of (c_defaults c) ++ map_of (c_overrides c)) (price_key (p_Provider q) (p_Model q)) = Some q"
    using listed_row [OF assms(1,2)] .
  then show ?thesis using assms(3) by (simp add: resolve_lookup lookup_merged)
qed

text \<open>
  For a provider that counts cached tokens in its input, with cache rates of at most one, the
  cost-equivalent input is between zero and the raw input: caching never makes a request dearer.
\<close>

lemma cached_input_bounds:
  assumes "map_of (cacheDiscounts c) (cache_canonical c pr) = Some cfg" and "InputIncludesCache cfg"
    and "upto2 0 (ReadDiscount cfg)" and "upto2 0 (CreateMultiplier cfg)" and "cache_canonical c pr \<noteq> ''anthropic''"
    and "0 \<le> r" and "0 \<le> w" and "r + w \<le> raw" and "raw \<le> 2 ^ 53"
  shows "0 \<le> NormalizeCachedInputWithTTL c pr m raw r w ttl \<and> NormalizeCachedInputWithTTL c pr m raw r w ttl \<le> raw"
proof -
  define rd where "rd = (if cache_canonical c pr = ''google'' \<and> feq (ReadDiscount cfg) (mk (1 / 10)) then googleCacheReadDiscount m else ReadDiscount cfg)"
  have "upto2 0 rd" using assms(3) google_rate by (simp add: rd_def)
  then have a: "0 \<le> scaled_tokens r rd" "scaled_tokens r rd \<le> r" using assms(6-9) scaled_tokens_le [of r rd] by simp_all
  have b: "0 \<le> scaled_tokens w (CreateMultiplier cfg)" "scaled_tokens w (CreateMultiplier cfg) \<le> w"
    using assms(4,6-9) scaled_tokens_le [of w "CreateMultiplier cfg"] by simp_all
  have w: "wrap64 (raw - r - w) = raw - r - w"
    "wrap64 (raw - r - w + scaled_tokens r rd + scaled_tokens w (CreateMultiplier cfg)) = raw - r - w + scaled_tokens r rd + scaled_tokens w (CreateMultiplier cfg)"
    using a b assms(6-9) by (intro wrap64_id; simp add: in_i64_def)+
  have "max 0 (raw - r - w) = raw - r - w" using assms(8) by simp
  then have "NormalizeCachedInputWithTTL c pr m raw r w ttl =
      (if r \<le> 0 \<and> w \<le> 0 then raw else raw - r - w + scaled_tokens r rd + scaled_tokens w (CreateMultiplier cfg))"
    unfolding NormalizeCachedInputWithTTL_def Let_def assms(1) option.case rd_def [symmetric] using assms(2,5) w by simp
  then show ?thesis using a b assms(6-8) by simp
qed

text \<open>
  The scan for \<^verbatim>\<open>-preview\<close> and \<^verbatim>\<open>-exp\<close> ends for every name and returns the rightmost position, not
  the first, at which the tag is a whole suffix word; for any tag whose first byte does not recur in it.
\<close>

lemma hasSuffixTag_rightmost:
  assumes "c \<notin> set cs"
  shows "hasSuffixTag m (c # cs) = Some i \<longleftrightarrow> tag_at m (c # cs) i \<and> (\<forall>j > i. \<not> tag_at m (c # cs) j)"
proof -
  have fits: "tag_at m (c # cs) j \<and> j + length (c # cs) \<le> length m \<longleftrightarrow> tag_at m (c # cs) j" for j
    using HasPrefix_window [of "length m" m "c # cs" j] unfolding tag_at_def take_all_iff [THEN iffD2, OF order_refl] by blast
  have spec: "case suffix_scan m c cs (length m) of None \<Rightarrow> \<forall>j. \<not> tag_at m (c # cs) j
      | Some i \<Rightarrow> tag_at m (c # cs) i \<and> (\<forall>j > i. \<not> tag_at m (c # cs) j)"
    using suffix_scan_spec [OF assms order_refl, of m] unfolding fits .
  have scan: "hasSuffixTag m (c # cs) = suffix_scan m c cs (length m)" by (simp add: hasSuffixTag_def)
  show ?thesis
  proof (cases "suffix_scan m c cs (length m)")
    case None
    then show ?thesis using spec by (simp add: scan)
  next
    case (Some k)
    then have "tag_at m (c # cs) k" "\<forall>j > k. \<not> tag_at m (c # cs) j" using spec by simp_all
    then show ?thesis unfolding scan Some option.inject by (metis linorder_neqE_nat)
  qed
qed

end
