(* ===== verification/ReadThrough.thy ===== *)
theory ReadThrough
  imports Prelude
begin

text \<open>
  The contract of a read-through cache: a fresh entry answers, otherwise the source is asked and its answer
  is kept.  What a client relies on, that no answer is older than the lifetime of an entry and that a change
  of the source shows after that time, is proved here once; the caches of model limits, task budgets, user
  identifiers and resolved identities are interpretations.
\<close>

section \<open>The contract\<close>

text \<open>
  \<open>held s k\<close> is the entry of \<open>k\<close> with the time it was fetched, \<open>life s v\<close> how long a value may be kept,
  \<open>cook\<close> what is kept of an answer of the source, \<open>same\<close> which keys share an entry, and \<open>answer\<close> what the
  caller sees of an error or of an entry.
\<close>

locale read_through =
  fixes invar :: "'s \<Rightarrow> bool"
    and held :: "'s \<Rightarrow> 'k \<Rightarrow> ('v \<times> gotime) option"
    and life :: "'s \<Rightarrow> 'v \<Rightarrow> duration"
    and same :: "'k \<Rightarrow> 'k \<Rightarrow> bool"
    and cook :: "'r \<Rightarrow> 'v"
    and get :: "gotime \<Rightarrow> ('k \<Rightarrow> 'e + 'r) \<Rightarrow> 'k \<Rightarrow> 's \<Rightarrow> 'a \<times> 's"
    and answer :: "gotime \<Rightarrow> 'e + ('v \<times> gotime) \<Rightarrow> 'a"
  assumes get_hit: "invar s \<Longrightarrow> held s k = Some (v, t) \<Longrightarrow> now - t < life s v \<Longrightarrow> get now f k s = (answer now (Inr (v, t)), s)"
    and get_miss: "invar s \<Longrightarrow> (\<forall>v t. held s k = Some (v, t) \<longrightarrow> \<not> now - t < life s v) \<Longrightarrow> f k = Inr r \<Longrightarrow>
      fst (get now f k s) = answer now (Inr (cook r, now)) \<and>
      (\<forall>j x. held (snd (get now f k s)) j = Some x \<longrightarrow> held s j = Some x \<or> same j k \<and> x = (cook r, now))"
    and get_fail: "invar s \<Longrightarrow> (\<forall>v t. held s k = Some (v, t) \<longrightarrow> \<not> now - t < life s v) \<Longrightarrow> f k = Inl e \<Longrightarrow>
      fst (get now f k s) = answer now (Inl e) \<and> (\<forall>j x. held (snd (get now f k s)) j = Some x \<longrightarrow> held s j = Some x)"
    and get_invar: "invar s \<Longrightarrow> invar (snd (get now f k s)) \<and> life (snd (get now f k s)) = life s"
begin

text \<open>A source gives keys that share an entry the same answer; an entry is what the source said when it was fetched.\<close>

definition uniform :: "(gotime \<Rightarrow> 'k \<Rightarrow> 'e + 'r) \<Rightarrow> bool" where
  "uniform src \<longleftrightarrow> (\<forall>t j k. same j k \<longrightarrow> src t j = src t k)"

definition sound :: "(gotime \<Rightarrow> 'k \<Rightarrow> 'e + 'r) \<Rightarrow> gotime \<Rightarrow> 's \<Rightarrow> bool" where
  "sound src now s \<longleftrightarrow> invar s \<and> (\<forall>k v t. held s k = Some (v, t) \<longrightarrow> t \<le> now \<and> (\<exists>r. src t k = Inr r \<and> v = cook r))"

text \<open>An answer is the source's of now, or of a moment less than a lifetime ago.\<close>

definition recent :: "(gotime \<Rightarrow> 'k \<Rightarrow> 'e + 'r) \<Rightarrow> 's \<Rightarrow> gotime \<Rightarrow> 'k \<Rightarrow> 'a \<Rightarrow> bool" where
  "recent src s now k a \<longleftrightarrow>
     (\<exists>e. src now k = Inl e \<and> a = answer now (Inl e)) \<or>
     (\<exists>r t. t \<le> now \<and> (t = now \<or> now - t < life s (cook r)) \<and> src t k = Inr r \<and> a = answer now (Inr (cook r, t)))"

lemma get_sound:
  assumes "uniform src" and "sound src t0 s" and "t0 \<le> now"
  shows "sound src now (snd (get now (src now) k s)) \<and> recent src s now k (fst (get now (src now) k s))"
proof -
  have inv: "invar s" and old: "\<And>k v t. held s k = Some (v, t) \<Longrightarrow> t \<le> now \<and> (\<exists>r. src t k = Inr r \<and> v = cook r)"
    using assms(2,3) unfolding sound_def by (blast intro: order_trans)+
  show ?thesis
  proof (cases "\<exists>v t. held s k = Some (v, t) \<and> now - t < life s v")
    case True
    then obtain v t where h: "held s k = Some (v, t)" "now - t < life s v" by blast
    then have "recent src s now k (answer now (Inr (v, t)))" using old [OF h(1)] unfolding recent_def by blast
    then show ?thesis using old inv by (simp add: get_hit [OF inv h] sound_def)
  next
    case False
    then have miss: "\<forall>v t. held s k = Some (v, t) \<longrightarrow> \<not> now - t < life s v" by blast
    show ?thesis
    proof (cases "src now k")
      case (Inl e)
      note m = get_fail [OF inv miss, of "src now" e, OF Inl]
      have "recent src s now k (answer now (Inl e))" using Inl by (auto simp: recent_def)
      moreover have "t \<le> now \<and> (\<exists>r. src t j = Inr r \<and> v = cook r)" if "held (snd (get now (src now) k s)) j = Some (v, t)" for j v t
        using m that old [of j v t] by blast
      ultimately show ?thesis using m get_invar [OF inv] by (simp add: sound_def)
    next
      case (Inr r)
      note m = get_miss [OF inv miss, of "src now" r, OF Inr]
      have "recent src s now k (answer now (Inr (cook r, now)))" using Inr by (auto simp: recent_def)
      moreover have "t \<le> now \<and> (\<exists>r. src t j = Inr r \<and> v = cook r)" if "held (snd (get now (src now) k s)) j = Some (v, t)" for j v t
      proof -
        from m that have "held s j = Some (v, t) \<or> same j k \<and> (v, t) = (cook r, now)" by blast
        then show ?thesis
        proof
          assume *: "same j k \<and> (v, t) = (cook r, now)"
          then have "src now j = Inr r" using assms(1) Inr unfolding uniform_def by metis
          with * show ?thesis by simp
        qed (rule old)
      qed
      ultimately show ?thesis using m get_invar [OF inv] by (simp add: sound_def)
    qed
  qed
qed

fun gets :: "(gotime \<Rightarrow> 'k \<Rightarrow> 'e + 'r) \<Rightarrow> (gotime \<times> 'k) list \<Rightarrow> 's \<Rightarrow> 's" where
  "gets src [] s = s"
| "gets src ((t, k) # rs) s = gets src rs (snd (get t (src t) k s))"

lemma gets_sound:
  "uniform src \<Longrightarrow> sound src t0 s \<Longrightarrow> sorted (t0 # map fst rs @ [now]) \<Longrightarrow> sound src now (gets src rs s) \<and> life (gets src rs s) = life s"
proof (induction src rs s arbitrary: t0 rule: gets.induct)
  case (1 src s)
  then have "t0 \<le> now" by simp
  with "1.prems"(2) show ?case unfolding sound_def gets.simps by (blast intro: order_trans)
next
  case (2 src t k rs s)
  have "t0 \<le> t" "sorted (t # map fst rs @ [now])" using "2.prems"(3) by auto
  moreover have "invar s" using "2.prems"(2) by (simp add: sound_def)
  ultimately show ?case using "2.IH" [OF "2.prems"(1) get_sound [OF "2.prems"(1,2), THEN conjunct1]] get_invar by simp
qed

text \<open>
  A change of the source shows: if the source answers \<open>r\<close> from \<open>T\<close> on, every lookup a lifetime later
  answers \<open>r\<close>, whatever was looked up before and when.
\<close>

lemma change_shows:
  assumes "uniform src" and "sound src t0 s" and "sorted (t0 # map fst rs @ [now])" and "\<forall>u \<ge> T. src u k = Inr r"
    and "\<forall>w. T + life s w \<le> now" and "T \<le> now"
  shows "\<exists>t. T \<le> t \<and> t \<le> now \<and> fst (get now (src now) k (gets src rs s)) = answer now (Inr (cook r, t))"
proof -
  note g = gets_sound [OF assms(1-3)]
  have "recent src (gets src rs s) now k (fst (get now (src now) k (gets src rs s)))"
    using get_sound [OF assms(1)] g by blast
  moreover have "src now k = Inr r" using assms(4,6) by simp
  ultimately obtain w t where t: "t \<le> now" "t = now \<or> now - t < life s (cook w)" "src t k = Inr w"
    and a: "fst (get now (src now) k (gets src rs s)) = answer now (Inr (cook w, t))"
    using g by (auto simp: recent_def)
  have "T \<le> t" using t(2) assms(6) spec [OF assms(5), of "cook w"] by linarith
  then show ?thesis using t a assms(4) by auto
qed

text \<open>So does a loss: if the source only fails from \<open>T\<close> on, every lookup a lifetime later fails.\<close>

lemma loss_shows:
  assumes "uniform src" and "sound src t0 s" and "sorted (t0 # map fst rs @ [now])" and "\<forall>u \<ge> T. \<exists>e. src u k = Inl e"
    and "\<forall>w. T + life s w \<le> now" and "T \<le> now"
  shows "\<exists>e. src now k = Inl e \<and> fst (get now (src now) k (gets src rs s)) = answer now (Inl e)"
proof -
  note g = gets_sound [OF assms(1-3)]
  have "recent src (gets src rs s) now k (fst (get now (src now) k (gets src rs s)))"
    using get_sound [OF assms(1)] g by blast
  moreover have False if "t = now \<or> now - t < life s (cook r)" "src t k = Inr r" for t r
  proof -
    have "T \<le> t" using that(1) assms(6) spec [OF assms(5), of "cook r"] by linarith
    then show False using assms(4) that(2) by fastforce
  qed
  ultimately show ?thesis using g by (auto simp: recent_def)
qed

end

end
