(* ===== verification/Sessions.thy ===== *)
theory Sessions
  imports ReadThrough
begin

text \<open>
  The two caches with a bounded number of entries: resolved identities (\<^verbatim>\<open>pkg/auth/cache.go\<close>, with the
  chain of resolvers in front of it, \<^verbatim>\<open>pkg/auth/chain.go\<close>) and conversations (\<^verbatim>\<open>pkg/session/session.go\<close>).

  SHA-256 and the JSON decoder are arguments: the cache of identities takes the hash of a token as its key,
  and a conversation is known by the hash of its user, model and first user message.  A new UUID is an
  argument too.  Go sorts the entries to evict with an unstable sort; the model sorts stably, which is one of
  its outcomes.  The raw claims of an identity are left out: no modelled code reads them.
\<close>

section \<open>Identities (auth/identity.go, auth/cache.go)\<close>

record Identity =
  id_ID :: string
  id_Email :: string
  id_Provider :: string
  id_TenantIDs :: "string list"

definition EffectiveID :: "Identity \<Rightarrow> string" where
  "EffectiveID i = (if id_Email i \<noteq> [] then ToLower (id_Email i) else id_ID i)"

record cacheEntry =
  ce_identity :: Identity
  ce_expiresAt :: gotime

record IdentityCache =
  ic_entries :: "(string \<times> cacheEntry) list"
  ic_maxSize :: int
  ic_ttl :: duration

definition NewIdentityCache :: "int \<Rightarrow> duration \<Rightarrow> IdentityCache" where
  "NewIdentityCache maxSize ttl = \<lparr>ic_entries = [], ic_maxSize = max 0 maxSize, ic_ttl = ttl\<rparr>"

definition ic_Get :: "(string \<Rightarrow> string) \<Rightarrow> gotime \<Rightarrow> string \<Rightarrow> IdentityCache \<Rightarrow> Identity option \<times> IdentityCache" where
  "ic_Get tokenHash now token c =
     (let key = tokenHash token
      in case map_of (ic_entries c) key of
           None \<Rightarrow> (None, c)
         | Some e \<Rightarrow>
             if ce_expiresAt e < now then (None, c\<lparr>ic_entries := AList.delete key (ic_entries c)\<rparr>)
             else (Some (ce_identity e), c))"

text \<open>The scan for the entry that expires first: the key found so far (empty at the start) and its time.\<close>

definition oldest_key :: "(string \<times> cacheEntry) list \<Rightarrow> string" where
  "oldest_key es =
     fst (fold (\<lambda>(k, v) (ok, ot). if ok = [] \<or> ce_expiresAt v < ot then (k, ce_expiresAt v) else (ok, ot)) es ([], 0))"

definition ic_make_room :: "gotime \<Rightarrow> IdentityCache \<Rightarrow> IdentityCache" where
  "ic_make_room now c =
     (let c1 = (if ic_maxSize c \<le> int (length (ic_entries c))
                then c\<lparr>ic_entries := filter (\<lambda>(k, v). \<not> ce_expiresAt v < now) (ic_entries c)\<rparr> else c)
      in if ic_maxSize c1 \<le> int (length (ic_entries c1))
         then c1\<lparr>ic_entries := AList.delete (oldest_key (ic_entries c1)) (ic_entries c1)\<rparr> else c1)"

definition ic_Put :: "(string \<Rightarrow> string) \<Rightarrow> gotime \<Rightarrow> string \<Rightarrow> Identity \<Rightarrow> IdentityCache \<Rightarrow> IdentityCache" where
  "ic_Put tokenHash now token i c =
     (if ic_maxSize c \<le> 0 then c
      else let key = tokenHash token; e = \<lparr>ce_identity = i, ce_expiresAt = now + ic_ttl c\<rparr>
           in if map_of (ic_entries c) key \<noteq> None then c\<lparr>ic_entries := AList.update key e (ic_entries c)\<rparr>
              else let c1 = ic_make_room now c in c1\<lparr>ic_entries := AList.update key e (ic_entries c1)\<rparr>)"

definition ic_Invalidate :: "(string \<Rightarrow> string) \<Rightarrow> string \<Rightarrow> IdentityCache \<Rightarrow> IdentityCache" where
  "ic_Invalidate tokenHash token c = c\<lparr>ic_entries := AList.delete (tokenHash token) (ic_entries c)\<rparr>"

definition ic_Len :: "IdentityCache \<Rightarrow> nat" where
  "ic_Len c = length (ic_entries c)"

section \<open>The chain of resolvers (auth/chain.go)\<close>

text \<open>A resolver accepts a token, does not know it (\<open>Inr None\<close>), or rejects it with an error.\<close>

datatype 'e auth_error = Rejected 'e | NoResolverMatched

fun try_resolvers :: "(string \<Rightarrow> 'e + Identity option) list \<Rightarrow> string \<Rightarrow> 'e auth_error + Identity" where
  "try_resolvers [] token = Inl NoResolverMatched"
| "try_resolvers (r # rs) token =
     (case r token of
        Inl e \<Rightarrow> Inl (Rejected e)
      | Inr (Some i) \<Rightarrow> Inr i
      | Inr None \<Rightarrow> try_resolvers rs token)"

text \<open>The lookup in front of the resolvers, given what they answer.\<close>

definition chain_cached ::
    "(string \<Rightarrow> string) \<Rightarrow> gotime \<Rightarrow> (string \<Rightarrow> 'e + Identity) \<Rightarrow> string \<Rightarrow> IdentityCache \<Rightarrow> ('e + Identity) \<times> IdentityCache" where
  "chain_cached tokenHash now resolve token c =
     (case ic_Get tokenHash now token c of
        (Some i, c1) \<Rightarrow> (Inr i, c1)
      | (None, c1) \<Rightarrow>
          (case resolve token of
             Inl e \<Rightarrow> (Inl e, c1)
           | Inr i \<Rightarrow> (Inr i, ic_Put tokenHash now token i c1)))"

definition chain_Resolve ::
    "(string \<Rightarrow> string) \<Rightarrow> gotime \<Rightarrow> (string \<Rightarrow> 'e + Identity option) list \<Rightarrow> string \<Rightarrow> IdentityCache option
      \<Rightarrow> ('e auth_error + Identity) \<times> IdentityCache option" where
  "chain_Resolve tokenHash now resolvers token cache =
     (case cache of
        None \<Rightarrow> (try_resolvers resolvers token, None)
      | Some c \<Rightarrow> (case chain_cached tokenHash now (try_resolvers resolvers) token c of (r, c') \<Rightarrow> (r, Some c')))"

section \<open>Conversations (session/session.go)\<close>

record SessionInfo =
  si_UserID :: string
  si_Model :: string
  si_Messages :: string
  si_Header :: "string \<Rightarrow> string"

record sessionEntry =
  s_sessionID :: string
  s_lastMsgCount :: nat
  s_lastAccess :: gotime

record UserMsgResolver =
  u_cache :: "(string \<times> sessionEntry) list"
  u_ttl :: duration
  u_maxEntries :: int

definition NewUserMsgResolver :: "duration \<Rightarrow> UserMsgResolver" where
  "NewUserMsgResolver ttl = \<lparr>u_cache = [], u_ttl = (if ttl \<le> 0 then 30 * ns_minute else ttl), u_maxEntries = 1000\<rparr>"

text \<open>
  The fingerprint: \<open>decode\<close> is the JSON decoder for a list of messages with their roles and raw contents,
  \<open>as_string\<close> the one for a JSON string, \<open>sha\<close> the hexadecimal SHA-256.
\<close>

definition first_user :: "(string \<Rightarrow> string option) \<Rightarrow> (string \<times> string) list \<Rightarrow> string" where
  "first_user as_string msgs =
     (case find (\<lambda>(role, content). role = ''user'' \<and> content \<noteq> []) msgs of
        None \<Rightarrow> []
      | Some (role, content) \<Rightarrow> (case as_string content of Some s \<Rightarrow> s | None \<Rightarrow> content))"

definition fingerprint ::
    "(string \<Rightarrow> (string \<times> string) list option) \<Rightarrow> (string \<Rightarrow> string option) \<Rightarrow> (string \<Rightarrow> string) \<Rightarrow> SessionInfo \<Rightarrow> string \<times> nat" where
  "fingerprint decode as_string sha info =
     (if si_Messages info = [] then ([], 0)
      else case decode (si_Messages info) of
             None \<Rightarrow> ([], 0)
           | Some msgs \<Rightarrow>
               let contentBytes = first_user as_string msgs
               in if contentBytes = [] then ([], length msgs)
                  else (sha (si_UserID info @ [CHR 0x00] @ si_Model info @ [CHR 0x00] @ contentBytes), length msgs))"

definition session_max :: "UserMsgResolver \<Rightarrow> nat" where
  "session_max u = (if u_maxEntries u \<le> 0 then 1000 else nat (u_maxEntries u))"

definition evictLocked :: "gotime \<Rightarrow> UserMsgResolver \<Rightarrow> UserMsgResolver" where
  "evictLocked now u =
     (let live = filter (\<lambda>(fp, e). \<not> u_ttl u < time_sub now (s_lastAccess e)) (u_cache u); mx = session_max u
      in if length live < mx then u\<lparr>u_cache := live\<rparr>
         else let target = mx * 3 div 4;
                  doomed = map fst (take (length live - target) (sort_key (\<lambda>(fp, e). s_lastAccess e) live))
              in u\<lparr>u_cache := filter (\<lambda>(fp, e). fp \<notin> set doomed) live\<rparr>)"

definition new_session :: "gotime \<Rightarrow> string \<Rightarrow> string \<Rightarrow> nat \<Rightarrow> UserMsgResolver \<Rightarrow> string \<times> UserMsgResolver" where
  "new_session now uuid fp msgCount u =
     (let u1 = evictLocked now u
      in (uuid, u1\<lparr>u_cache := AList.update fp \<lparr>s_sessionID = uuid, s_lastMsgCount = msgCount, s_lastAccess = now\<rparr> (u_cache u1)\<rparr>))"

definition user_Resolve :: "gotime \<Rightarrow> string \<Rightarrow> string \<times> nat \<Rightarrow> UserMsgResolver \<Rightarrow> string \<times> UserMsgResolver" where
  "user_Resolve now uuid fpc u =
     (let (fp, msgCount) = fpc
      in if fp = [] then ([], u)
         else case map_of (u_cache u) fp of
                None \<Rightarrow> new_session now uuid fp msgCount u
              | Some e \<Rightarrow>
                  if u_ttl u < time_sub now (s_lastAccess e)
                  then new_session now uuid fp msgCount (u\<lparr>u_cache := AList.delete fp (u_cache u)\<rparr>)
                  else if s_lastMsgCount e \<le> msgCount
                  then (s_sessionID e,
                        u\<lparr>u_cache := AList.update fp (e\<lparr>s_lastMsgCount := msgCount, s_lastAccess := now\<rparr>) (u_cache u)\<rparr>)
                  else new_session now uuid fp msgCount u)"

definition defaultHeaderName :: string where
  "defaultHeaderName = ''X-Session-Id''"

definition header_Resolve :: "string \<Rightarrow> SessionInfo \<Rightarrow> string" where
  "header_Resolve headerName info = si_Header info (if headerName = [] then defaultHeaderName else headerName)"

text \<open>The chain tries its resolvers in order; the first identifier that is not empty wins.\<close>

definition session_chain :: "string \<Rightarrow> string list \<Rightarrow> string" where
  "session_chain uuid ids = (case find (\<lambda>i. i \<noteq> []) ids of Some i \<Rightarrow> i | None \<Rightarrow> uuid)"

section \<open>A bound on the entries\<close>

text \<open>The contract: an operation keeps the number of entries within the capacity, and the keys distinct.\<close>

locale bounded_cache =
  fixes entries :: "'s \<Rightarrow> (string \<times> 'e) list"
    and capacity :: "'s \<Rightarrow> nat"
    and step :: "'o \<Rightarrow> 's \<Rightarrow> 's"
  assumes step_distinct: "distinct (keys_of (entries s)) \<Longrightarrow> distinct (keys_of (entries (step x s)))"
    and step_bound: "distinct (keys_of (entries s)) \<Longrightarrow> length (entries s) \<le> capacity s \<Longrightarrow> length (entries (step x s)) \<le> capacity s"
    and step_capacity: "capacity (step x s) = capacity s"
begin

lemma steps_bound:
  "distinct (keys_of (entries s)) \<Longrightarrow> length (entries s) \<le> capacity s \<Longrightarrow> length (entries (fold step xs s)) \<le> capacity s"
proof (induction xs arbitrary: s)
  case (Cons x xs)
  then show ?case using Cons.IH [of "step x s"] by (simp add: step_distinct step_bound step_capacity)
qed simp

end

lemma length_update: "length (AList.update k v m) = length m + (if k \<in> fst ` set m then 0 else 1)"
  by (induction m) auto

lemma length_delete_le: "length (AList.delete k m) \<le> length m"
  by (simp add: AList.delete_eq)

lemma length_delete_mem: "k \<in> fst ` set m \<Longrightarrow> length (AList.delete k m) < length m"
proof -
  assume "k \<in> fst ` set m"
  then obtain v where "(k, v) \<in> set m" by auto
  then show ?thesis unfolding AList.delete_eq by (rule length_filter_less) simp
qed

lemma distinct_keys_delete: "distinct (keys_of m) \<Longrightarrow> distinct (keys_of (AList.delete k m))"
  by (simp add: AList.delete_eq)

subsection \<open>Identities\<close>

lemma oldest_fold_mem:
  "ok \<in> K \<Longrightarrow> fst ` set es \<subseteq> K \<Longrightarrow>
     fst (fold (\<lambda>(k, v) (ok, ot). if ok = [] \<or> ce_expiresAt v < ot then (k, ce_expiresAt v) else (ok, ot)) es (ok, ot)) \<in> K"
proof (induction es arbitrary: ok ot)
  case (Cons e es)
  obtain k v where e: "e = (k, v)" by (cases e)
  show ?case
  proof (cases "ok = [] \<or> ce_expiresAt v < ot")
    case True
    then show ?thesis using Cons.prems Cons.IH [of k "ce_expiresAt v"] by (auto simp: e)
  next
    case False
    then show ?thesis using Cons.prems Cons.IH [of ok ot] by (auto simp: e)
  qed
qed simp

lemma oldest_key_mem: "es \<noteq> [] \<Longrightarrow> oldest_key es \<in> fst ` set es"
proof (cases es)
  case (Cons e es')
  obtain k v where e: "e = (k, v)" by (cases e)
  show ?thesis using oldest_fold_mem [of k "fst ` set es" es' "ce_expiresAt v"] by (auto simp: oldest_key_def Cons e)
qed simp

lemma ic_make_room:
  assumes "distinct (keys_of (ic_entries c))" and "0 < ic_maxSize c" and "int (length (ic_entries c)) \<le> ic_maxSize c"
  shows "distinct (keys_of (ic_entries (ic_make_room now c)))" and "int (length (ic_entries (ic_make_room now c))) < ic_maxSize c"
    and "ic_maxSize (ic_make_room now c) = ic_maxSize c" and "ic_ttl (ic_make_room now c) = ic_ttl c"
proof -
  define live where "live = (if ic_maxSize c \<le> int (length (ic_entries c)) then filter (\<lambda>(k, v). \<not> ce_expiresAt v < now) (ic_entries c) else ic_entries c)"
  have r: "ic_make_room now c = c\<lparr>ic_entries := if ic_maxSize c \<le> int (length live) then AList.delete (oldest_key live) live else live\<rparr>"
    by (simp add: ic_make_room_def Let_def live_def)
  have live: "distinct (keys_of live)" "int (length live) \<le> ic_maxSize c"
    using assms(1,3) by (auto simp: live_def intro: order_trans [OF of_nat_mono [OF length_filter_le]])
  show "distinct (keys_of (ic_entries (ic_make_room now c)))" using live(1) by (simp add: r distinct_keys_delete)
  show "int (length (ic_entries (ic_make_room now c))) < ic_maxSize c"
  proof (cases "ic_maxSize c \<le> int (length live)")
    case True
    then have "live \<noteq> []" using assms(2) by auto
    then have "length (AList.delete (oldest_key live) live) < length live" by (intro length_delete_mem oldest_key_mem)
    then show ?thesis using True live(2) by (simp add: r)
  qed (simp add: r)
qed (simp_all add: ic_make_room_def Let_def)

datatype ic_op = IcGet gotime string | IcPut gotime string Identity | IcInvalidate string

fun ic_step :: "(string \<Rightarrow> string) \<Rightarrow> ic_op \<Rightarrow> IdentityCache \<Rightarrow> IdentityCache" where
  "ic_step h (IcGet now token) c = snd (ic_Get h now token c)"
| "ic_step h (IcPut now token i) c = ic_Put h now token i c"
| "ic_step h (IcInvalidate token) c = ic_Invalidate h token c"

lemma ic_Put_entries:
  assumes "distinct (keys_of (ic_entries c))"
  shows "distinct (keys_of (ic_entries (ic_Put h now token i c)))"
proof -
  have "distinct (keys_of (ic_entries (ic_make_room now c)))"
    using assms by (simp add: ic_make_room_def Let_def distinct_keys_delete)
  then show ?thesis using assms by (simp add: ic_Put_def Let_def)
qed

interpretation identities: bounded_cache ic_entries "\<lambda>c. nat (ic_maxSize c)" "ic_step h" for h
proof
  fix c :: IdentityCache and x
  assume d: "distinct (keys_of (ic_entries c))"
  show "distinct (keys_of (ic_entries (ic_step h x c)))"
    using d by (cases x) (auto simp: ic_Get_def ic_Invalidate_def Let_def distinct_keys_delete ic_Put_entries split: option.split)
  assume b: "length (ic_entries c) \<le> nat (ic_maxSize c)"
  show "length (ic_entries (ic_step h x c)) \<le> nat (ic_maxSize c)"
  proof (cases x)
    case (IcPut now token i)
    show ?thesis
    proof (cases "0 < ic_maxSize c")
      case True
      then have "int (length (ic_entries c)) \<le> ic_maxSize c" using b by simp
      note room = ic_make_room [OF d True this]
      show ?thesis
      proof (cases "map_of (ic_entries c) (h token)")
        case None
        have "length (ic_entries (ic_make_room now c)) < nat (ic_maxSize c)" using room(2) [of now] by simp
        then show ?thesis using True None by (simp add: IcPut ic_Put_def Let_def length_update)
      next
        case (Some e)
        then have "h token \<in> fst ` set (ic_entries c)" by (force dest: map_of_SomeD)
        then show ?thesis using True Some b by (simp add: IcPut ic_Put_def Let_def length_update)
      qed
    qed (use b in \<open>simp add: IcPut ic_Put_def\<close>)
  next
    case (IcGet now token)
    then show ?thesis using b length_delete_le [of "h token" "ic_entries c"]
      by (auto simp: ic_Get_def Let_def split: option.split intro: order_trans)
  next
    case (IcInvalidate token)
    then show ?thesis using b length_delete_le [of "h token" "ic_entries c"] by (auto simp: ic_Invalidate_def)
  qed
next
  fix c x
  show "nat (ic_maxSize (ic_step h x c)) = nat (ic_maxSize c)"
    by (cases x) (auto simp: ic_Get_def ic_Invalidate_def ic_Put_def ic_make_room_def Let_def split: option.split)
qed

section \<open>The chain as a read-through cache\<close>

definition ic_held :: "(string \<Rightarrow> string) \<Rightarrow> IdentityCache \<Rightarrow> string \<Rightarrow> (Identity \<times> gotime) option" where
  "ic_held h c token = map_option (\<lambda>e. (ce_identity e, ce_expiresAt e - ic_ttl c)) (map_of (ic_entries c) (h token))"

definition chain_answer :: "gotime \<Rightarrow> 'e + (Identity \<times> gotime) \<Rightarrow> 'e + Identity" where
  "chain_answer now r = map_sum id fst r"

lemma ic_make_room_lookup:
  "distinct (keys_of (ic_entries c)) \<Longrightarrow> map_of (ic_entries (ic_make_room now c)) k = Some e \<Longrightarrow> map_of (ic_entries c) k = Some e"
  by (auto simp: ic_make_room_def Let_def map_of_filter split: if_splits option.splits)

lemma ic_Put_lookup:
  assumes "distinct (keys_of (ic_entries c))" and "map_of (ic_entries (ic_Put h now token i c)) k = Some e"
  shows "map_of (ic_entries c) k = Some e \<or> k = h token \<and> e = \<lparr>ce_identity = i, ce_expiresAt = now + ic_ttl c\<rparr>"
  using assms ic_make_room_lookup [OF assms(1), of now k e] by (auto simp: ic_Put_def Let_def split: if_splits)

lemma ic_ttl_Put [simp]: "ic_ttl (ic_Put h now token i c) = ic_ttl c"
  by (simp add: ic_Put_def ic_make_room_def Let_def)

lemma ic_Get_stale:
  assumes "\<forall>v t. ic_held h c k = Some (v, t) \<longrightarrow> \<not> now - t < ic_ttl c + 1"
  shows "ic_Get h now k c = (None, c\<lparr>ic_entries := AList.delete (h k) (ic_entries c)\<rparr>) \<or> ic_Get h now k c = (None, c)"
  using assms by (auto simp: ic_Get_def ic_held_def Let_def split: option.split)

interpretation chain: read_through
  "\<lambda>c. distinct (keys_of (ic_entries c))" "ic_held h" "\<lambda>c _. ic_ttl c + 1" "\<lambda>j k. h j = h k" "\<lambda>i. i" "chain_cached h" chain_answer for h
proof
  fix c :: IdentityCache and k v t now r e and f :: "string \<Rightarrow> 'e + Identity"
  assume d: "distinct (keys_of (ic_entries c))"
  show "distinct (keys_of (ic_entries (snd (chain_cached h now f k c)))) \<and> (\<lambda>_. ic_ttl (snd (chain_cached h now f k c)) + 1) = (\<lambda>_. ic_ttl c + 1)"
    using d by (auto simp: chain_cached_def ic_Get_def Let_def distinct_keys_delete intro!: ic_Put_entries split: option.split sum.split)
  show "ic_held h c k = Some (v, t) \<Longrightarrow> now - t < ic_ttl c + 1 \<Longrightarrow> chain_cached h now f k c = (chain_answer now (Inr (v, t)), c)"
    by (auto simp: ic_held_def chain_cached_def ic_Get_def chain_answer_def Let_def)
  assume stale: "\<forall>v t. ic_held h c k = Some (v, t) \<longrightarrow> \<not> now - t < ic_ttl c + 1"
  obtain c1 where g: "ic_Get h now k c = (None, c1)" "distinct (keys_of (ic_entries c1))" "ic_ttl c1 = ic_ttl c"
    and sub: "\<And>j e. map_of (ic_entries c1) j = Some e \<Longrightarrow> map_of (ic_entries c) j = Some e"
    using ic_Get_stale [OF stale] d by (fastforce simp: distinct_keys_delete split: if_splits)
  have held: "ic_held h c1 j = Some x \<Longrightarrow> ic_held h c j = Some x" for j x
    using sub by (auto simp: ic_held_def g(3))
  show "f k = Inl e \<Longrightarrow> fst (chain_cached h now f k c) = chain_answer now (Inl e) \<and>
      (\<forall>j x. ic_held h (snd (chain_cached h now f k c)) j = Some x \<longrightarrow> ic_held h c j = Some x)"
    using held by (simp add: chain_cached_def g(1) chain_answer_def)
  have put: "ic_held h (ic_Put h now k r c1) j = Some x \<Longrightarrow> ic_held h c j = Some x \<or> h j = h k \<and> x = (r, now)" for j x
    using ic_Put_lookup [OF g(2), of h now k r "h j"] held [of j x] by (fastforce simp: ic_held_def g(3))
  show "f k = Inr r \<Longrightarrow> fst (chain_cached h now f k c) = chain_answer now (Inr (r, now)) \<and>
      (\<forall>j x. ic_held h (snd (chain_cached h now f k c)) j = Some x \<longrightarrow> ic_held h c j = Some x \<or> h j = h k \<and> x = (r, now))"
    using put by (simp add: chain_cached_def g(1) chain_answer_def)
qed

subsection \<open>Conversations\<close>

lemma length_evicted:
  assumes "distinct (keys_of es)" and "n \<le> length es" and "set ds \<subseteq> set es" and "distinct (keys_of ds)" and "length ds = length es - n"
  shows "length (filter (\<lambda>(k, e). k \<notin> fst ` set ds) es) = n"
proof -
  have d: "distinct (keys_of (filter (\<lambda>(k, e). k \<notin> fst ` set ds) es))" using assms(1) by simp
  have "set (keys_of (filter (\<lambda>(k, e). k \<notin> fst ` set ds) es)) = set (keys_of es) - set (keys_of ds)" by force
  then have "length (filter (\<lambda>(k, e). k \<notin> fst ` set ds) es) = card (set (keys_of es) - set (keys_of ds))"
    using distinct_card [OF d] by simp
  also have "\<dots> = length es - length ds"
    using assms(1,3,4) by (subst card_Diff_subset) (auto simp: distinct_card [of "keys_of es", simplified] distinct_card [of "keys_of ds", simplified])
  finally show ?thesis using assms(2,5) by simp
qed

lemma session_max_pos: "0 < session_max u"
  by (simp add: session_max_def)

lemma evictLocked_size:
  assumes "distinct (keys_of (u_cache u))"
  shows "distinct (keys_of (u_cache (evictLocked now u)))" and "length (u_cache (evictLocked now u)) < session_max u"
    and "u_ttl (evictLocked now u) = u_ttl u" and "u_maxEntries (evictLocked now u) = u_maxEntries u"
proof -
  define live where "live = filter (\<lambda>(fp, e). \<not> u_ttl u < time_sub now (s_lastAccess e)) (u_cache u)"
  define n where "n = session_max u * 3 div 4"
  define ds where "ds = take (length live - n) (sort_key (\<lambda>(fp, e). s_lastAccess e) live)"
  have live: "distinct (keys_of live)" using assms by (simp add: live_def)
  have n: "n < session_max u" using session_max_pos [of u] by (simp add: n_def)
  have e: "u_cache (evictLocked now u) = (if length live < session_max u then live else filter (\<lambda>(fp, e). fp \<notin> fst ` set ds) live)"
    by (simp add: evictLocked_def Let_def live_def n_def ds_def)
  show "distinct (keys_of (u_cache (evictLocked now u)))" unfolding e using live by simp
  have "distinct (keys_of (sort_key (\<lambda>(fp, e). s_lastAccess e) live))" using live by (simp add: distinct_map)
  then have "distinct (keys_of ds)" unfolding ds_def take_map [symmetric] by (rule distinct_take)
  moreover have "set ds \<subseteq> set live"
    using set_take_subset [of "length live - n" "sort_key (\<lambda>(fp, e). s_lastAccess e) live"] by (simp add: ds_def)
  ultimately have "length (filter (\<lambda>(fp, e). fp \<notin> fst ` set ds) live) = n" if "session_max u \<le> length live"
    using that n by (intro length_evicted [OF live]) (auto simp: ds_def)
  then show "length (u_cache (evictLocked now u)) < session_max u" unfolding e using n by simp
qed (simp_all add: evictLocked_def Let_def)

datatype session_op = SResolve gotime string "string \<times> nat" | SSweep gotime

fun session_step :: "session_op \<Rightarrow> UserMsgResolver \<Rightarrow> UserMsgResolver" where
  "session_step (SResolve now uuid fpc) u = snd (user_Resolve now uuid fpc u)"
| "session_step (SSweep now) u = evictLocked now u"

lemma new_session_ok:
  assumes "distinct (keys_of (u_cache u))"
  shows "distinct (keys_of (u_cache (snd (new_session now uuid fp n u))))" and "length (u_cache (snd (new_session now uuid fp n u))) \<le> session_max u"
  using evictLocked_size [OF assms, of now] by (simp_all add: new_session_def Let_def length_update)

lemma user_Resolve_ok:
  assumes d: "distinct (keys_of (u_cache u))"
  shows "distinct (keys_of (u_cache (snd (user_Resolve now uuid fpc u)))) \<and>
    (length (u_cache u) \<le> session_max u \<longrightarrow> length (u_cache (snd (user_Resolve now uuid fpc u))) \<le> session_max u)"
proof -
  obtain fp n where f: "fpc = (fp, n)" by (cases fpc)
  let ?u = "u\<lparr>u_cache := AList.delete fp (u_cache u)\<rparr>"
  have "distinct (keys_of (u_cache ?u))" using distinct_keys_delete [OF d] by simp
  note del = new_session_ok [OF this, of now uuid fp n]
  have m: "session_max ?u = session_max u" by (simp add: session_max_def)
  note new = new_session_ok [OF d, of now uuid fp n]
  show ?thesis
  proof (cases "map_of (u_cache u) fp")
    case None
    then show ?thesis using d new by (simp add: f user_Resolve_def)
  next
    case (Some e)
    have "fp \<in> fst ` set (u_cache u)" using Some by (force dest: map_of_SomeD)
    then show ?thesis using d new del m by (simp add: f user_Resolve_def Some length_update)
  qed
qed

lemma session_max_cong: "u_maxEntries u = u_maxEntries u' \<Longrightarrow> session_max u = session_max u'"
  by (simp add: session_max_def)

interpretation conversations: bounded_cache u_cache session_max session_step
proof
  fix u :: UserMsgResolver and x
  show "session_max (session_step x u) = session_max u"
    by (rule session_max_cong, cases x)
      (auto simp: user_Resolve_def new_session_def evictLocked_def Let_def split: option.split prod.split)
  assume d: "distinct (keys_of (u_cache u))"
  show "distinct (keys_of (u_cache (session_step x u)))"
    using user_Resolve_ok [OF d] evictLocked_size(1) [OF d] by (cases x) simp_all
  assume b: "length (u_cache u) \<le> session_max u"
  show "length (u_cache (session_step x u)) \<le> session_max u"
    using user_Resolve_ok [OF d] b evictLocked_size(2) [OF d] by (cases x) (simp_all add: less_imp_le)
qed

section \<open>Properties\<close>

text \<open>
  C19: a revoked token stops working.  Tokens are hashed without collisions; if from \<open>T\<close> on the resolvers no
  longer accept a token, then more than a lifetime later a request with it is rejected, whatever requests,
  with whatever tokens, came before and whatever the cache evicted.
\<close>

theorem revocation_takes_effect:
  assumes "inj h" and "0 \<le> ttl" and "sorted (t0 # map fst rs @ [now])"
    and "\<forall>u \<ge> T. \<exists>e. try_resolvers (resolvers u) token = Inl e" and "T + ttl < now"
  shows "\<exists>e. fst (chain_Resolve h now (resolvers now) token
      (fold (\<lambda>(t, k) c. snd (chain_Resolve h t (resolvers t) k c)) rs (Some (NewIdentityCache n ttl)))) = Inl e"
proof -
  let ?src = "\<lambda>t. try_resolvers (resolvers t)"
  have u: "chain.uniform h ?src" using assms(1) by (auto simp: chain.uniform_def inj_def)
  have s: "chain.sound h ?src t0 (NewIdentityCache n ttl)" by (simp add: chain.sound_def NewIdentityCache_def ic_held_def)
  have f: "fold (\<lambda>(t, k) c. snd (chain_Resolve h t (resolvers t) k c)) rs (Some c) = Some (chain.gets h ?src rs c)" for c
    by (induction rs arbitrary: c) (auto simp: chain_Resolve_def split: prod.split)
  show ?thesis unfolding f
    using chain.loss_shows [OF u s assms(3), of T token] assms(2,4,5)
    by (auto simp: chain_Resolve_def NewIdentityCache_def chain_answer_def split: prod.split)
qed

definition demo_resolvers :: "gotime \<Rightarrow> (string \<Rightarrow> unit + Identity option) list" where
  "demo_resolvers t = [\<lambda>k. if t < 10 then Inr (Some \<lparr>id_ID = k, id_Email = [], id_Provider = [], id_TenantIDs = []\<rparr>) else Inr None]"

theorem revocation_takes_effect_witness:
  "\<exists>e. fst (chain_Resolve (\<lambda>s. s) 50 (demo_resolvers 50) ''tok''
      (fold (\<lambda>(t, k) c. snd (chain_Resolve (\<lambda>s. s) t (demo_resolvers t) k c)) [(5, ''tok''), (20, ''tok'')] (Some (NewIdentityCache 10 30)))) = Inl e"
  by (rule revocation_takes_effect [where T = 10 and ?t0.0 = 0 and resolvers = demo_resolvers]) (simp_all add: demo_resolvers_def)

text \<open>
  Both caches are bounded: whatever operations run, the cache of identities never holds more than its
  maximal size and the cache of conversations never more than a thousand.
\<close>

lemma caches_bounded:
  "int (ic_Len (fold (ic_step h) ops (NewIdentityCache n ttl))) \<le> max 0 n \<and>
   length (u_cache (fold session_step sops (NewUserMsgResolver uttl))) \<le> 1000"
  using identities.steps_bound [of "NewIdentityCache n ttl" h ops] conversations.steps_bound [of "NewUserMsgResolver uttl" sops]
  by (simp add: ic_Len_def NewIdentityCache_def NewUserMsgResolver_def session_max_def nat_le_eq_zle le_nat_iff)

text \<open>
  A conversation keeps its identifier: the next request with the same fingerprint, within the lifetime and
  with at least as many messages, gets the identifier of the request before it, new or not.
\<close>

lemma session_sticky:
  assumes "fp \<noteq> []" and "u_ttl u < 2 ^ 62" and "0 \<le> t' - t" and "t' - t \<le> u_ttl u" and "n \<le> n'"
  shows "fst (user_Resolve t' uuid' (fp, n') (snd (user_Resolve t uuid (fp, n) u))) = fst (user_Resolve t uuid (fp, n) u)"
proof -
  have "\<not> u_ttl u < time_sub t' t" using assms(2-4) by (auto simp: time_sub_def)
  moreover have "u_ttl (evictLocked t u') = u_ttl u'" for u' by (simp add: evictLocked_def Let_def)
  ultimately show ?thesis using assms(1,5)
    by (auto simp: user_Resolve_def new_session_def Let_def split: option.split)
qed

end
