(* ===== verification/SpendControl.thy ===== *)
theory SpendControl
  imports CostLaws GoTime
begin

text \<open>
  The in-memory spend gates of the proxy: reservations of in-flight spend
  (\<^verbatim>\<open>pkg/proxy/pending_spend.go\<close>), daily spend limits per model and the estimate of a request's cost
  (\<^verbatim>\<open>pkg/proxy/cost_gate.go\<close>), and the merge of a user's limits with the configured ones
  (\<^verbatim>\<open>pkg/proxy/model_limit_cache.go\<close>).  Each method holds the mutex of its tracker for its whole body,
  so a method is one step; a missing key of a Go map reads as zero.
\<close>

section \<open>Reservations (pending_spend.go)\<close>

type_synonym pendingSpendTracker = "(string \<times> f64) list"

definition newPendingSpendTracker :: pendingSpendTracker where
  "newPendingSpendTracker = []"

definition pending_Get :: "string \<Rightarrow> pendingSpendTracker \<Rightarrow> f64" where
  "pending_Get userID t = (case map_of t userID of None \<Rightarrow> 0 | Some x \<Rightarrow> x)"

definition pending_Reserve :: "string \<Rightarrow> f64 \<Rightarrow> pendingSpendTracker \<Rightarrow> f64 \<times> pendingSpendTracker" where
  "pending_Reserve userID amountUSD t =
     (if amountUSD \<le> 0 \<or> userID = [] then (0, t)
      else let x = pending_Get userID t + amountUSD in (x, AList.update userID x t))"

definition pending_Release :: "string \<Rightarrow> f64 \<Rightarrow> pendingSpendTracker \<Rightarrow> pendingSpendTracker" where
  "pending_Release userID amountUSD t =
     (if amountUSD \<le> 0 \<or> userID = [] then t
      else let x = pending_Get userID t - amountUSD
           in if x \<le> 0 then AList.delete userID t else AList.update userID x t)"

definition ReserveIfUnder :: "string \<Rightarrow> f64 \<Rightarrow> f64 \<Rightarrow> f64 \<Rightarrow> pendingSpendTracker \<Rightarrow> bool \<times> pendingSpendTracker" where
  "ReserveIfUnder i remaining reserveAmount floor_usd t =
     (if reserveAmount \<le> 0 \<or> i = [] then (False, t)
      else if remaining - pending_Get i t - reserveAmount < floor_usd then (False, t)
      else (True, AList.update i (pending_Get i t + reserveAmount) t))"

section \<open>Daily limits per model (cost_gate.go)\<close>

record SpendLimitConfig =
  sl_Model :: string
  MaxDailyUSD :: f64

record spendEntry =
  se_spent :: f64
  se_date :: string

record SpendTracker =
  st_entries :: "(string \<times> spendEntry) list"
  lastEvictDate :: string

definition NewSpendTracker :: SpendTracker where
  "NewSpendTracker = \<lparr>st_entries = [], lastEvictDate = []\<rparr>"

fun match_loop :: "string \<Rightarrow> SpendLimitConfig list \<Rightarrow> SpendLimitConfig option \<Rightarrow> nat \<Rightarrow> SpendLimitConfig option" where
  "match_loop model [] best bestLen = best"
| "match_loop model (l # ls) best bestLen =
     (if MaxDailyUSD l \<le> 0 then match_loop model ls best bestLen
      else let prefix = ToLower (sl_Model l)
           in if HasPrefix model prefix \<and> bestLen < length prefix
              then match_loop model ls (Some l) (length prefix)
              else match_loop model ls best bestLen)"

definition matchSpendLimit :: "string \<Rightarrow> SpendLimitConfig list \<Rightarrow> SpendLimitConfig option" where
  "matchSpendLimit model limits = match_loop (ToLower model) limits None 0"

definition spend_key :: "string \<Rightarrow> SpendLimitConfig \<Rightarrow> string" where
  "spend_key userID lc = userID @ [CHR 0x00] @ ToLower (sl_Model lc)"

definition today_utc :: "gotime \<Rightarrow> string" where
  "today_utc now = fmt_day (day_of now)"

definition evictStaleLocked :: "string \<Rightarrow> SpendTracker \<Rightarrow> SpendTracker" where
  "evictStaleLocked today t =
     (if lastEvictDate t = today then t
      else t\<lparr>lastEvictDate := today, st_entries := filter (\<lambda>(k, e). se_date e = today) (st_entries t)\<rparr>)"

definition Record :: "gotime \<Rightarrow> string \<Rightarrow> string \<Rightarrow> f64 \<Rightarrow> SpendLimitConfig list \<Rightarrow> SpendTracker \<Rightarrow> SpendTracker" where
  "Record now userID model costUSD limits t =
     (if costUSD \<le> 0 \<or> limits = [] then t
      else case matchSpendLimit model limits of
             None \<Rightarrow> t
           | Some lc \<Rightarrow>
               let today = today_utc now; key = spend_key userID lc; t1 = evictStaleLocked today t
               in case map_of (st_entries t1) key of
                    None \<Rightarrow> t1\<lparr>st_entries := AList.update key \<lparr>se_spent = costUSD, se_date = today\<rparr> (st_entries t1)\<rparr>
                  | Some e \<Rightarrow>
                      if se_date e \<noteq> today
                      then t1\<lparr>st_entries := AList.update key \<lparr>se_spent = costUSD, se_date = today\<rparr> (st_entries t1)\<rparr>
                      else t1\<lparr>st_entries := AList.update key (e\<lparr>se_spent := se_spent e + costUSD\<rparr>) (st_entries t1)\<rparr>)"

definition Check :: "gotime \<Rightarrow> string \<Rightarrow> string \<Rightarrow> SpendLimitConfig list \<Rightarrow> f64 \<Rightarrow> SpendTracker \<Rightarrow> bool \<times> f64 \<times> f64" where
  "Check now userID model limits estimatedCost t =
     (case matchSpendLimit model limits of
        None \<Rightarrow> (True, 0, 0)
      | Some lc \<Rightarrow>
          (case map_of (st_entries t) (spend_key userID lc) of
             None \<Rightarrow> (estimatedCost \<le> MaxDailyUSD lc, 0, MaxDailyUSD lc)
           | Some e \<Rightarrow>
               if se_date e \<noteq> today_utc now then (estimatedCost \<le> MaxDailyUSD lc, 0, MaxDailyUSD lc)
               else (se_spent e + estimatedCost \<le> MaxDailyUSD lc, se_spent e, MaxDailyUSD lc)))"

definition SpendTracker_Len :: "SpendTracker \<Rightarrow> nat" where
  "SpendTracker_Len t = length (st_entries t)"

section \<open>The estimate of a request\<close>

text \<open>\<^verbatim>\<open>bytes.Count\<close> for a non-empty separator: occurrences that do not overlap.\<close>

function count_sub :: "string \<Rightarrow> char \<Rightarrow> string \<Rightarrow> nat" where
  "count_sub s c cs = (case Index s (c # cs) of None \<Rightarrow> 0 | Some i \<Rightarrow> Suc (count_sub (drop (i + length (c # cs)) s) c cs))"
  by pat_completeness auto
termination
proof (relation "measure (\<lambda>(s, c, cs). length s)")
  fix s c cs i
  assume "Index s (c # cs) = Some i"
  then have "s \<noteq> []" using Index_Some by fastforce
  then show "((drop (i + length (c # cs)) s, c, cs), s, c, cs) \<in> measure (\<lambda>(s, c, cs). length s)" by simp
qed simp

declare count_sub.simps [simp del]

definition countBase64Images :: "string \<Rightarrow> nat" where
  "countBase64Images body =
     (let dataImageCount = count_sub body (CHR ''d'') ''ata:image/'';
          anthropicCount = count_sub body (CHR 0x22) ([CHR ''t'', CHR ''y'', CHR ''p'', CHR ''e'', CHR 0x22, CHR '':'', CHR 0x22] @ ''base64'' @ [CHR 0x22]) +
            count_sub body (CHR 0x22) ([CHR ''t'', CHR ''y'', CHR ''p'', CHR ''e'', CHR 0x22, CHR '':'', CHR '' '', CHR 0x22] @ ''base64'' @ [CHR 0x22])
      in if 0 < dataImageCount \<and> 0 < anthropicCount then max anthropicCount dataImageCount
         else dataImageCount + anthropicCount)"

definition maxOutputEstimate :: int where
  "maxOutputEstimate = 32000"

definition estimate_tokens :: "string \<Rightarrow> int \<times> int" where
  "estimate_tokens reqBody =
     (let bodySize = int (length reqBody); imageCount = int (countBase64Images reqBody);
          inputTokens = (if 0 < imageCount then max 0 (bodySize - imageCount * 100000) div 4 + imageCount * 1000 else bodySize div 4)
      in (inputTokens, min (inputTokens * 2) maxOutputEstimate))"

definition estimateRequestCost :: "gotime \<Rightarrow> Calculator option \<Rightarrow> string \<Rightarrow> string \<Rightarrow> string \<Rightarrow> f64 \<times> Calculator option" where
  "estimateRequestCost now calc provider model reqBody =
     (case calc of
        None \<Rightarrow> (0, calc)
      | Some c \<Rightarrow>
          if reqBody = [] \<or> model = [] then (0, calc)
          else let (inputTokens, outputTokens) = estimate_tokens reqBody;
                   (cost, c') = Calculate now provider model inputTokens outputTokens c
               in (cost, Some c'))"

section \<open>Merged limits (model_limit_cache.go)\<close>

definition recordsToLimits :: "ModelLimitRecord list \<Rightarrow> SpendLimitConfig list" where
  "recordsToLimits records = map (\<lambda>r. \<lparr>sl_Model = ml_ModelPrefix r, MaxDailyUSD = ml_MaxDailyUSD r\<rparr>) records"

text \<open>The merge of \<^verbatim>\<open>mergedLimits\<close>, given the user's limits.\<close>

definition merge_limits :: "SpendLimitConfig list \<Rightarrow> SpendLimitConfig list \<Rightarrow> SpendLimitConfig list" where
  "merge_limits userLimits yamlLimits =
     (if userLimits = [] then yamlLimits
      else if yamlLimits = [] then userLimits
      else let userPrefixes = (\<lambda>l. ToLower (sl_Model l)) ` set userLimits
           in userLimits @ filter (\<lambda>yl. ToLower (sl_Model yl) \<notin> userPrefixes) yamlLimits)"

section \<open>The longest limit\<close>

definition limit_len :: "SpendLimitConfig \<Rightarrow> nat" where
  "limit_len l = length (sl_Model l)"

definition limit_applies :: "string \<Rightarrow> SpendLimitConfig \<Rightarrow> bool" where
  "limit_applies model l \<longleftrightarrow> \<not> MaxDailyUSD l \<le> 0 \<and> HasPrefix (ToLower model) (ToLower (sl_Model l))"

definition applicable_len :: "string \<Rightarrow> SpendLimitConfig list \<Rightarrow> nat" where
  "applicable_len model limits = fold max (map limit_len (filter (limit_applies model) limits)) 0"

definition longest_limit :: "string \<Rightarrow> SpendLimitConfig list \<Rightarrow> SpendLimitConfig option" where
  "longest_limit model limits =
     (let n = applicable_len model limits
      in if n = 0 then None else find (\<lambda>l. limit_applies model l \<and> limit_len l = n) limits)"

lemma match_step:
  "match_loop (ToLower m) (l # ls) best n =
     (if limit_applies m l \<and> n < limit_len l then match_loop (ToLower m) ls (Some l) (limit_len l) else match_loop (ToLower m) ls best n)"
  by (simp add: limit_applies_def limit_len_def Let_def)

declare match_loop.simps(2) [simp del]

lemma fold_max_ge: "n \<le> fold max ns (n :: nat)"
  by (induction ns arbitrary: n) (simp, metis fold_simps(2) max.cobounded2 order_trans)

lemma match_loop_eq:
  "match_loop (ToLower m) ls best n =
     (let k = fold max (map limit_len (filter (limit_applies m) ls)) n
      in if k = n then best else find (\<lambda>l. limit_applies m l \<and> limit_len l = k) ls)"
proof (induction ls arbitrary: best n)
  case (Cons l ls)
  define k where "k a = fold max (map limit_len (filter (limit_applies m) ls)) a" for a
  note ge = fold_max_ge [of _ "map limit_len (filter (limit_applies m) ls)", folded k_def]
  show ?case
  proof (cases "limit_applies m l \<and> n < limit_len l")
    case True
    then have "fold max (map limit_len (filter (limit_applies m) (l # ls))) n = k (limit_len l)" by (simp add: k_def max.absorb1)
    then show ?thesis using True Cons.IH [of "Some l" "limit_len l", folded k_def] ge [of "limit_len l"] by (simp add: match_step Let_def)
  next
    case False
    then have "fold max (map limit_len (filter (limit_applies m) (l # ls))) n = k n" by (auto simp: k_def max.absorb2)
    then show ?thesis using False Cons.IH [of best n, folded k_def] ge [of n] by (auto simp: match_step Let_def)
  qed
qed simp

primrec best_len :: "SpendLimitConfig option \<Rightarrow> nat" where
  "best_len None = 0"
| "best_len (Some l) = limit_len l"

lemma match_loop_append:
  "match_loop (ToLower m) (xs @ ys) best (best_len best) =
     match_loop (ToLower m) ys (match_loop (ToLower m) xs best (best_len best)) (best_len (match_loop (ToLower m) xs best (best_len best)))"
proof (induction xs arbitrary: best)
  case (Cons x xs)
  show ?case using Cons.IH [of "Some x"] Cons.IH [of best] by (simp add: match_step)
qed simp

lemma match_loop_start:
  "match_loop (ToLower m) ys best n = (case match_loop (ToLower m) ys None n of None \<Rightarrow> best | Some y \<Rightarrow> Some y)"
proof (induction ys arbitrary: best n)
  case (Cons y ys)
  have "match_loop (ToLower m) ys (Some y) k = Some (case match_loop (ToLower m) ys None k of None \<Rightarrow> y | Some z \<Rightarrow> z)" for k
    using Cons.IH [of "Some y" k] by (simp split: option.splits)
  then show ?case using Cons.IH [of best n] by (simp add: match_step)
qed simp

lemma match_loop_filter:
  "\<forall>y \<in> set ys. \<not> P y \<longrightarrow> limit_applies m y \<longrightarrow> limit_len y \<le> n \<Longrightarrow>
     match_loop (ToLower m) (filter P ys) best n = match_loop (ToLower m) ys best n"
proof (induction ys arbitrary: best n)
  case (Cons y ys)
  have "n < limit_len y \<Longrightarrow> \<forall>z \<in> set ys. \<not> P z \<longrightarrow> limit_applies m z \<longrightarrow> limit_len z \<le> limit_len y"
    using Cons.prems by (meson less_imp_le list.set_intros(2) order_trans)
  then show ?case using Cons.prems Cons.IH [of "limit_len y" "Some y"] Cons.IH [of n best] by (auto simp: match_step)
qed simp

lemma match_loop_ge: "best_len best \<le> best_len (match_loop (ToLower m) ls best (best_len best))"
proof (induction ls arbitrary: best)
  case (Cons x ls)
  show ?case using Cons.IH [of "Some x"] Cons.IH [of best] by (auto simp: match_step)
qed simp

lemma match_loop_longest:
  "l \<in> set ls \<Longrightarrow> limit_applies m l \<Longrightarrow> limit_len l \<le> best_len (match_loop (ToLower m) ls best (best_len best))"
proof (induction ls arbitrary: best)
  case (Cons x ls)
  show ?case
    using Cons.prems Cons.IH [of "Some x"] Cons.IH [of best] match_loop_ge [of "Some x" m ls] match_loop_ge [of best m ls]
    by (auto simp: match_step)
qed simp

text \<open>A search that starts from a best limit returns it unless a longer one applies.\<close>

lemma match_best_start:
  "match_loop (ToLower m) ys best (best_len best) =
     (case match_loop (ToLower m) ys None 0 of None \<Rightarrow> best
      | Some y \<Rightarrow> if best_len best < limit_len y then Some y else best)"
proof (induction ys arbitrary: best)
  case (Cons y ys)
  have a: "match_loop (ToLower m) ys (Some y) (limit_len y) =
      (case match_loop (ToLower m) ys None 0 of None \<Rightarrow> Some y | Some z \<Rightarrow> if limit_len y < limit_len z then Some z else Some y)"
    using Cons.IH [of "Some y"] unfolding best_len.simps .
  show ?case using a Cons.IH [of best] by (auto simp: match_step split: option.splits)
qed simp

section \<open>Reservations of concurrent requests\<close>

text \<open>
  A request asks for a reservation against the balance \<open>R i\<close> of its user; a finished one releases what it
  had reserved.  \<open>out i\<close> are the reservations of \<open>i\<close> that are still held.
\<close>

datatype spend_event = Ask string rat | Done string nat

fun spend_step :: "(string \<Rightarrow> rat) \<Rightarrow> rat \<Rightarrow> spend_event \<Rightarrow> pendingSpendTracker \<times> (string \<Rightarrow> rat list) \<Rightarrow> pendingSpendTracker \<times> (string \<Rightarrow> rat list)" where
  "spend_step R f (Ask i a) (t, out) =
     (case ReserveIfUnder i (Fin (R i)) (Fin a) (Fin f) t of
        (True, t') \<Rightarrow> (t', out(i := a # out i))
      | (False, t') \<Rightarrow> (t', out))"
| "spend_step R f (Done i n) (t, out) =
     (if n < length (out i)
      then (pending_Release i (Fin (out i ! n)) t, out(i := take n (out i) @ drop (Suc n) (out i)))
      else (t, out))"

definition held_ok :: "(string \<Rightarrow> rat) \<Rightarrow> rat \<Rightarrow> pendingSpendTracker \<Rightarrow> (string \<Rightarrow> rat list) \<Rightarrow> string \<Rightarrow> bool" where
  "held_ok R f t out i \<longleftrightarrow>
     pending_Get i t = Fin (sum_list (out i)) \<and> (\<forall>a \<in> set (out i). 0 < a \<and> on_grid a) \<and> sum_list (out i) \<le> max 0 (R i - f) \<and>
     (i = [] \<longrightarrow> out i = [])"

fun event_ok :: "spend_event \<Rightarrow> bool" where
  "event_ok (Ask i a) \<longleftrightarrow> on_grid a \<and> \<bar>a\<bar> \<le> 2 ^ 18"
| "event_ok (Done i n) \<longleftrightarrow> True"

lemma sum_list_remove: "n < length xs \<Longrightarrow> sum_list (take n xs @ drop (Suc n) xs) = sum_list xs - (xs ! n :: rat)"
  by (subst (2) id_take_nth_drop [of n xs]) simp_all

lemma ReserveIfUnder_exact:
  assumes "on_grid r" "on_grid f" "on_grid a" "on_grid h" "\<bar>r\<bar> \<le> 2 ^ 18" "\<bar>f\<bar> \<le> 2 ^ 18" "\<bar>a\<bar> \<le> 2 ^ 18" "0 \<le> h" "h \<le> 2 ^ 19"
    and "pending_Get i t = Fin h"
  shows "ReserveIfUnder i (Fin r) (Fin a) (Fin f) t =
    (if a \<le> 0 \<or> i = [] \<or> r - h - a < f then (False, t) else (True, AList.update i (Fin (h + a)) t))"
proof -
  have "Fin r - Fin h = Fin (r - h)" using assms by (intro grid_diff) auto
  moreover have "Fin (r - h) - Fin a = Fin (r - h - a)" using assms by (intro grid_diff) auto
  moreover have "Fin h + Fin a = Fin (h + a)" using assms by (intro grid_add) auto
  ultimately show ?thesis by (simp add: ReserveIfUnder_def assms(10) zero_f64_def)
qed

lemma sum_list_nonneg_rat: "\<forall>a \<in> set xs. 0 < a \<Longrightarrow> 0 \<le> sum_list (xs :: rat list)"
  by (rule sum_list_nonneg) auto

lemma pending_Get_update [simp]: "pending_Get j (AList.update i x t) = (if j = i then x else pending_Get j t)"
  by (simp add: pending_Get_def)

lemma pending_Get_delete [simp]: "pending_Get j (AList.delete i t) = (if j = i then 0 else pending_Get j t)"
  by (simp add: pending_Get_def)

lemma held_Ask:
  assumes h: "\<forall>j. held_ok R f t out j" and g: "on_grid (R i)" "on_grid f" "\<bar>R i\<bar> \<le> 2 ^ 18" "\<bar>f\<bar> \<le> 2 ^ 18"
    and a: "on_grid a" "\<bar>a\<bar> \<le> 2 ^ 18"
  shows "\<forall>j. held_ok R f (fst (spend_step R f (Ask i a) (t, out))) (snd (spend_step R f (Ask i a) (t, out))) j"
proof -
  have hi: "pending_Get i t = Fin (sum_list (out i))" "\<forall>a \<in> set (out i). 0 < a \<and> on_grid a" "sum_list (out i) \<le> max 0 (R i - f)"
    using h by (auto simp: held_ok_def)
  then have s: "0 \<le> sum_list (out i)" "on_grid (sum_list (out i))" by (auto intro: sum_list_nonneg_rat)
  have "R i - f \<le> 2 ^ 19" using g(3,4) by simp
  then have "sum_list (out i) \<le> 2 ^ 19" using hi(3) by simp
  note r = ReserveIfUnder_exact [OF g(1,2) a(1) s(2) g(3,4) a(2) s(1) this hi(1)]
  show ?thesis
  proof (cases "a \<le> 0 \<or> i = [] \<or> R i - sum_list (out i) - a < f")
    case True
    then show ?thesis using h by (simp add: r)
  next
    case False
    then show ?thesis using h a(1) by (auto simp: r held_ok_def add.commute)
  qed
qed

lemma held_Done:
  assumes h: "\<forall>j. held_ok R f t out j" and g: "\<bar>R i\<bar> \<le> 2 ^ 18" "\<bar>f\<bar> \<le> 2 ^ 18"
  shows "\<forall>j. held_ok R f (fst (spend_step R f (Done i n) (t, out))) (snd (spend_step R f (Done i n) (t, out))) j"
proof (cases "n < length (out i)")
  case True
  define a where "a = out i ! n"
  define rest where "rest = take n (out i) @ drop (Suc n) (out i)"
  have hi: "pending_Get i t = Fin (sum_list (out i))" "\<forall>a \<in> set (out i). 0 < a \<and> on_grid a" "sum_list (out i) \<le> max 0 (R i - f)" "i \<noteq> []"
    using h True by (auto simp: held_ok_def)
  have a: "0 < a" "on_grid a" using hi(2) True by (auto simp: a_def)
  have sub: "set rest \<subseteq> set (out i)" by (auto simp: rest_def dest: in_set_takeD in_set_dropD)
  have rest: "sum_list rest = sum_list (out i) - a" unfolding rest_def a_def by (rule sum_list_remove [OF True])
  have nn: "0 \<le> sum_list rest" using sub hi(2) by (intro sum_list_nonneg_rat) auto
  have "Fin (sum_list (out i)) - Fin a = Fin (sum_list rest)"
    unfolding rest using hi a nn g rest by (intro grid_diff) auto
  then have "pending_Get j (pending_Release i (Fin a) t) = (if j = i then Fin (sum_list rest) else pending_Get j t)" for j
    using a(1) hi(1,4) nn by (simp add: pending_Release_def Let_def zero_f64_def)
  moreover have "sum_list rest \<le> max 0 (R i - f)" using hi(3) rest a(1) by linarith
  ultimately show ?thesis using h True sub hi(2,4) by (auto simp: held_ok_def a_def [symmetric] rest_def [symmetric])
next
  case False
  then show ?thesis using h by simp
qed

lemma held_step:
  assumes "\<forall>i. on_grid (R i) \<and> \<bar>R i\<bar> \<le> 2 ^ 18" "on_grid f" "\<bar>f\<bar> \<le> 2 ^ 18" "\<forall>j. held_ok R f (fst s) (snd s) j" "event_ok e"
  shows "\<forall>j. held_ok R f (fst (spend_step R f e s)) (snd (spend_step R f e s)) j"
proof (cases e)
  case (Ask i a)
  then have "on_grid a" "\<bar>a\<bar> \<le> 2 ^ 18" using assms(5) by simp_all
  moreover have "on_grid (R i)" "\<bar>R i\<bar> \<le> 2 ^ 18" using assms(1) by blast+
  ultimately show ?thesis using held_Ask [OF assms(4) _ assms(2) _ assms(3), of i a] unfolding Ask prod.collapse by blast
next
  case (Done i n)
  have "\<bar>R i\<bar> \<le> 2 ^ 18" using assms(1) by blast
  then show ?thesis using held_Done [OF assms(4) _ assms(3), of i n] unfolding Done prod.collapse by blast
qed

section \<open>The day's spend\<close>

definition day_spent :: "string \<Rightarrow> string \<Rightarrow> SpendTracker \<Rightarrow> f64" where
  "day_spent today k t = (case map_of (st_entries t) k of None \<Rightarrow> 0 | Some e \<Rightarrow> if se_date e = today then se_spent e else 0)"

lemma evict_keeps:
  assumes "distinct (keys_of (st_entries t))"
  shows "distinct (keys_of (st_entries (evictStaleLocked today t)))" "day_spent today k (evictStaleLocked today t) = day_spent today k t"
  using assms by (auto simp: evictStaleLocked_def day_spent_def map_of_filter split: option.split)

text \<open>What a recorded cost adds: to the key of the limit that matches its model, on the same day.\<close>

lemma Record_spent:
  assumes d: "distinct (keys_of (st_entries t))" and m: "matchSpendLimit model limits = Some lc" and c: "\<not> cost \<le> 0"
    and z: "0 + cost = cost"
  shows "distinct (keys_of (st_entries (Record now u model cost limits t)))"
    and "day_spent (today_utc now) k (Record now u model cost limits t) =
      (if k = spend_key u lc then day_spent (today_utc now) k t + cost else day_spent (today_utc now) k t)"
proof -
  define t1 where "t1 = evictStaleLocked (today_utc now) t"
  note e = evict_keeps [OF d, of "today_utc now", folded t1_def]
  have ne: "limits \<noteq> []" using m by (auto simp: matchSpendLimit_def)
  have R: "Record now u model cost limits t =
      (case map_of (st_entries t1) (spend_key u lc) of
         None \<Rightarrow> t1\<lparr>st_entries := AList.update (spend_key u lc) \<lparr>se_spent = cost, se_date = today_utc now\<rparr> (st_entries t1)\<rparr>
       | Some e \<Rightarrow> if se_date e \<noteq> today_utc now
           then t1\<lparr>st_entries := AList.update (spend_key u lc) \<lparr>se_spent = cost, se_date = today_utc now\<rparr> (st_entries t1)\<rparr>
           else t1\<lparr>st_entries := AList.update (spend_key u lc) (e\<lparr>se_spent := se_spent e + cost\<rparr>) (st_entries t1)\<rparr>)"
    unfolding Record_def m option.case Let_def t1_def [symmetric] using c ne by simp
  show "distinct (keys_of (st_entries (Record now u model cost limits t)))"
    unfolding R using e(1) by (simp split: option.split)
  have "day_spent (today_utc now) k (Record now u model cost limits t) =
      (if k = spend_key u lc then day_spent (today_utc now) k t1 + cost else day_spent (today_utc now) k t1)"
    unfolding R using z by (auto simp: day_spent_def split: option.split)
  then show "day_spent (today_utc now) k (Record now u model cost limits t) =
      (if k = spend_key u lc then day_spent (today_utc now) k t + cost else day_spent (today_utc now) k t)"
    by (simp add: e(2))
qed

lemma Record_ignored: "matchSpendLimit model limits = None \<Longrightarrow> Record now u model cost limits t = t"
  by (simp add: Record_def)

lemma Check_spent:
  "matchSpendLimit model limits = Some lc \<Longrightarrow> representable est \<Longrightarrow>
     Check now u model limits est t =
       (let s = day_spent (today_utc now) (spend_key u lc) t in (s + est \<le> MaxDailyUSD lc, s, MaxDailyUSD lc))"
proof -
  have z: "0 + est = est" if "representable est"
    using that by (cases est) (simp_all add: zero_f64_def mk_def Let_def abs_less_iff not_le)
  assume "matchSpendLimit model limits = Some lc" "representable est"
  then show ?thesis using z by (auto simp: Check_def day_spent_def Let_def split: option.split)
qed

lemma spend_key_inj: "CHR 0x00 \<notin> set u \<Longrightarrow> CHR 0x00 \<notin> set v \<Longrightarrow> spend_key u l = spend_key v l' \<longleftrightarrow> u = v \<and> ToLower (sl_Model l) = ToLower (sl_Model l')"
  by (auto simp: spend_key_def append_eq_append_conv2 Cons_eq_append_conv append_eq_Cons_conv)

text \<open>The costs recorded for a user under the prefix of a limit.\<close>

definition recorded :: "string \<Rightarrow> SpendLimitConfig \<Rightarrow> SpendLimitConfig list \<Rightarrow> (gotime \<times> string \<times> string \<times> rat) list \<Rightarrow> rat" where
  "recorded u lc limits rs =
     (\<Sum>(t, v, m, c)\<leftarrow>rs.
        if v = u \<and> (case matchSpendLimit m limits of None \<Rightarrow> False | Some l \<Rightarrow> ToLower (sl_Model l) = ToLower (sl_Model lc)) then c else 0)"

definition cost_record_ok :: "gotime \<Rightarrow> gotime \<times> string \<times> string \<times> rat \<Rightarrow> bool" where
  "cost_record_ok now = (\<lambda>(t, v, m, c). today_utc t = today_utc now \<and> CHR 0x00 \<notin> set v \<and> 0 < c \<and> on_grid c)"

lemma records_spent:
  assumes "CHR 0x00 \<notin> set u"
  shows "distinct (keys_of (st_entries t)) \<Longrightarrow> day_spent (today_utc now) (spend_key u lc) t = Fin a \<Longrightarrow> on_grid a \<Longrightarrow> 0 \<le> a \<Longrightarrow>
    list_all (cost_record_ok now) rs \<Longrightarrow> a + (\<Sum>(t, v, m, c)\<leftarrow>rs. c) \<le> 2 ^ 20 \<Longrightarrow>
    day_spent (today_utc now) (spend_key u lc) (fold (\<lambda>(t, v, m, c). Record t v m (Fin c) limits) rs t) = Fin (a + recorded u lc limits rs)"
proof (induction rs arbitrary: t a)
  case (Cons r rs)
  obtain x v m c where r: "r = (x, v, m, c)" by (cases r)
  have ok: "today_utc x = today_utc now" "CHR 0x00 \<notin> set v" "0 < c" "on_grid c" and rs: "list_all (cost_record_ok now) rs"
    using Cons.prems(5) by (simp_all add: r cost_record_ok_def)
  have "0 \<le> (\<Sum>(t, v, m, c)\<leftarrow>rs. c)"
    using rs by (intro sum_list_nonneg) (auto simp: list_all_iff cost_record_ok_def)
  then have c: "a + c \<le> 2 ^ 20" "a + (\<Sum>(t, v, m, c)\<leftarrow>rs. c) \<le> 2 ^ 20" using Cons.prems(4,6) ok(3) by (simp_all add: r)
  define t' where "t' = Record x v m (Fin c) limits t"
  have z: "0 + Fin c = Fin c" using grid_add [of 0 c] ok Cons.prems(4) c by (simp add: zero_f64_def)
  have ac: "Fin a + Fin c = Fin (a + c)" using Cons.prems(3,4) ok c by (intro grid_add) auto
  have pos: "\<not> Fin c \<le> 0" using ok(3) by (simp add: zero_f64_def)
  define hit where "hit \<longleftrightarrow> v = u \<and> (case matchSpendLimit m limits of None \<Rightarrow> False | Some l \<Rightarrow> ToLower (sl_Model l) = ToLower (sl_Model lc))"
  define b where "b = (if hit then a + c else a)"
  have step: "distinct (keys_of (st_entries t')) \<and> day_spent (today_utc now) (spend_key u lc) t' = Fin b"
  proof (cases "matchSpendLimit m limits")
    case None
    then show ?thesis using Cons.prems(1,2) by (simp add: t'_def b_def hit_def Record_ignored)
  next
    case (Some l)
    have "spend_key u lc = spend_key v l \<longleftrightarrow> hit" unfolding spend_key_inj [OF assms ok(2)] by (auto simp: hit_def Some)
    then show ?thesis
      using Record_spent(1) [OF Cons.prems(1) Some pos z, where now = x and u = v]
        Record_spent(2) [OF Cons.prems(1) Some pos z, where now = x and u = v and k = "spend_key u lc"] Cons.prems(2) ac
      unfolding t'_def b_def ok(1) by (simp del: plus_f64.simps)
  qed
  have "day_spent (today_utc now) (spend_key u lc) (fold (\<lambda>(t, v, m, c). Record t v m (Fin c) limits) rs t') = Fin (b + recorded u lc limits rs)"
    using Cons.prems(3,4,6) ok(3,4) c(2) by (intro Cons.IH [OF step [THEN conjunct1] step [THEN conjunct2] _ _ rs]) (auto simp: b_def r)
  then show ?case by (simp add: r t'_def [symmetric] recorded_def b_def hit_def)
qed (simp add: recorded_def)

section \<open>Properties\<close>


definition demo_events :: "spend_event list" where
  "demo_events = [Ask ''u'' 6, Ask ''v'' 9, Ask ''u'' 6, Done ''u'' 0, Ask ''u'' 8]"


text \<open>
  The limit that applies to a model is the one with the longest matching prefix among those with a
  positive amount, the first one where several are equally long.
\<close>

lemma match_is_longest: "matchSpendLimit model limits = longest_limit model limits"
  by (simp add: matchSpendLimit_def longest_limit_def applicable_len_def match_loop_eq Let_def)

text \<open>
  Limits of a user and limits of the configuration.  When the user's limits are positive, the effective
  limit of a model is the more specific of the two, and the user's one where both are equally specific.
\<close>

lemma merged_limit_rule:
  assumes "\<forall>l \<in> set us. \<not> MaxDailyUSD l \<le> 0"
  shows "matchSpendLimit model (merge_limits us ys) =
    (case (matchSpendLimit model us, matchSpendLimit model ys) of
       (None, y) \<Rightarrow> y
     | (Some u, None) \<Rightarrow> Some u
     | (Some u, Some y) \<Rightarrow> if limit_len u < limit_len y then Some y else Some u)"
proof -
  define P where "P yl \<longleftrightarrow> ToLower (sl_Model yl) \<notin> (\<lambda>l. ToLower (sl_Model l)) ` set us" for yl :: SpendLimitConfig
  define u where "u = matchSpendLimit model us"
  have m: "match_loop (ToLower model) (us @ filter P ys) None 0 = match_loop (ToLower model) (filter P ys) u (best_len u)"
    using match_loop_append [of model us "filter P ys" None] by (simp add: u_def matchSpendLimit_def)
  have "limit_len y \<le> best_len u" if "\<not> P y" "limit_applies model y" for y
  proof -
    from that(1) obtain l where l: "l \<in> set us" "ToLower (sl_Model l) = ToLower (sl_Model y)" by (auto simp: P_def)
    then have "limit_applies model l" "limit_len l = limit_len y"
      using that(2) assms by (auto simp: limit_applies_def limit_len_def dest: arg_cong [where f = length])
    then show ?thesis using match_loop_longest [OF l(1), of model None] by (simp add: u_def matchSpendLimit_def)
  qed
  then have f: "match_loop (ToLower model) (filter P ys) u (best_len u) = match_loop (ToLower model) ys u (best_len u)"
    by (intro match_loop_filter) blast
  have "P = (\<lambda>yl. ToLower (sl_Model yl) \<notin> (\<lambda>l. ToLower (sl_Model l)) ` set us)" by (rule ext) (simp only: P_def)
  then have "merge_limits us ys = us @ filter P ys" if "us \<noteq> []" using that by (simp add: merge_limits_def Let_def)
  moreover have "us = [] \<Longrightarrow> u = None" by (simp add: u_def matchSpendLimit_def)
  ultimately have mm: "matchSpendLimit model (merge_limits us ys) = match_loop (ToLower model) ys u (best_len u)"
    using m f by (cases "us = []") (simp_all add: matchSpendLimit_def merge_limits_def)
  have "0 < limit_len y" if "match_loop (ToLower model) ys None 0 = Some y" for y
    using match_best_start [of model ys None] that by (simp split: if_splits)
  then show ?thesis unfolding mm u_def [symmetric] using match_best_start [of model ys u] by (auto simp: matchSpendLimit_def split: option.split)
qed

definition demo_limits :: "SpendLimitConfig list" where
  "demo_limits = [\<lparr>sl_Model = ''claude-opus-4'', MaxDailyUSD = Fin 20\<rparr>]"

text \<open>
  C14: the daily gate is exact.  On a new day, after any requests of any users have been recorded, the gate
  reports exactly the costs recorded today for this user under the matching limit, and admits a request
  exactly when these and its estimate fit under the limit.
\<close>

theorem daily_gate_exact:
  assumes "matchSpendLimit model limits = Some lc" and "CHR 0x00 \<notin> set u"
    and "distinct (keys_of (st_entries t))" and "\<forall>(k, e) \<in> set (st_entries t). se_date e \<noteq> today_utc now"
    and "list_all (cost_record_ok now) rs" and "(\<Sum>(t, v, m, c)\<leftarrow>rs. c) \<le> 2 ^ 20" and "on_grid est" and "0 \<le> est" and "est \<le> 2 ^ 20"
  shows "Check now u model limits (Fin est) (fold (\<lambda>(t, v, m, c). Record t v m (Fin c) limits) rs t) =
    (Fin (recorded u lc limits rs + est) \<le> MaxDailyUSD lc, Fin (recorded u lc limits rs), MaxDailyUSD lc)"
proof -
  define t' where "t' = fold (\<lambda>(t, v, m, c). Record t v m (Fin c) limits) rs t"
  have "day_spent (today_utc now) (spend_key u lc) t = Fin 0"
    using assms(4) by (auto simp: day_spent_def zero_f64_def dest!: map_of_SomeD split: option.split)
  from records_spent [OF assms(2,3) this _ _ assms(5), of limits] assms(6)
  have s: "day_spent (today_utc now) (spend_key u lc) t' = Fin (recorded u lc limits rs)" by (simp add: t'_def)
  have ok: "\<And>x v m c. (x, v, m, c) \<in> set rs \<Longrightarrow> 0 \<le> c \<and> on_grid c" using assms(5) by (auto simp: list_all_iff cost_record_ok_def)
  then have "recorded u lc limits rs \<le> (\<Sum>(t, v, m, c)\<leftarrow>rs. c)" unfolding recorded_def
    by (intro sum_list_mono) auto
  moreover have "0 \<le> recorded u lc limits rs" "on_grid (recorded u lc limits rs)" unfolding recorded_def using ok
    by (auto intro!: sum_list_nonneg on_grid_sum_list simp: less_imp_le split: if_splits)
  ultimately have "Fin (recorded u lc limits rs) + Fin est = Fin (recorded u lc limits rs + est)"
    using assms(6-9) by (intro grid_add) auto
  moreover have "representable (Fin est)" using mk_on_grid [OF assms(7)] representable_mk [of est] assms(8,9) by (simp del: representable.simps representable_mk)
  ultimately show ?thesis using Check_spent [OF assms(1), where now = now and u = u and t = t'] s unfolding t'_def [symmetric]
    by (simp del: plus_f64.simps)
qed

theorem daily_gate_exact_witness:
  "Check 7 ''u'' ''claude-opus-4.6'' demo_limits (Fin 1)
     (fold (\<lambda>(t, v, m, c). Record t v m (Fin c) demo_limits) [(5, ''u'', ''claude-opus-4'', 12), (6, ''v'', ''claude-opus-4'', 19)] NewSpendTracker) =
   (True, Fin 12, Fin 20)"
proof -
  have m: "matchSpendLimit ''claude-opus-4.6'' demo_limits = Some \<lparr>sl_Model = ''claude-opus-4'', MaxDailyUSD = Fin 20\<rparr>"
    "matchSpendLimit ''claude-opus-4'' demo_limits = Some \<lparr>sl_Model = ''claude-opus-4'', MaxDailyUSD = Fin 20\<rparr>" by code_simp+
  have d: "today_utc 5 = today_utc 7" "today_utc 6 = today_utc 7" by code_simp+
  show ?thesis
    using daily_gate_exact [OF m(1), of "''u''" NewSpendTracker 7 "[(5, ''u'', ''claude-opus-4'', 12), (6, ''v'', ''claude-opus-4'', 19)]" 1]
    by (simp add: NewSpendTracker_def cost_record_ok_def d on_grid_def recorded_def m(2))
qed

end
