(* ===== verification/Caches.thy ===== *)
theory Caches
  imports SpendControl ReadThrough
begin

text \<open>
  The read-through caches: per-user model limits (\<^verbatim>\<open>pkg/proxy/model_limit_cache.go\<close>), task budgets
  (\<^verbatim>\<open>pkg/taskspend/cache.go\<close>) and user identifiers (\<^verbatim>\<open>pkg/connecthandlers/usercache.go\<close>).

  Each interprets the contract \<open>read_through\<close>.  The source is an argument of the operations; a lookup with
  its double check under the write lock is one step.
\<close>

section \<open>Model limits of a user (model_limit_cache.go)\<close>

record mlCacheEntry =
  mlc_limits :: "SpendLimitConfig list"
  mlc_fetchedAt :: gotime

record modelLimitCache =
  mlc_entries :: "(string \<times> mlCacheEntry) list"
  mlc_ttl :: duration

definition newModelLimitCache :: "duration \<Rightarrow> modelLimitCache" where
  "newModelLimitCache ttl = \<lparr>mlc_entries = [], mlc_ttl = ttl\<rparr>"

definition getUserLimits ::
    "gotime \<Rightarrow> (string \<Rightarrow> 'e + ModelLimitRecord list) \<Rightarrow> string \<Rightarrow> modelLimitCache \<Rightarrow> SpendLimitConfig list \<times> modelLimitCache" where
  "getUserLimits now store userID c =
     (let fetch = (case store userID of
                     Inl e \<Rightarrow> ([], c)
                   | Inr records \<Rightarrow>
                       let limits = recordsToLimits records
                       in (limits, c\<lparr>mlc_entries := AList.update userID \<lparr>mlc_limits = limits, mlc_fetchedAt = now\<rparr> (mlc_entries c)\<rparr>))
      in case map_of (mlc_entries c) userID of
           Some e \<Rightarrow> if time_sub now (mlc_fetchedAt e) < mlc_ttl c then (mlc_limits e, c) else fetch
         | None \<Rightarrow> fetch)"

definition mergedLimits ::
    "gotime \<Rightarrow> (string \<Rightarrow> 'e + ModelLimitRecord list) \<Rightarrow> string \<Rightarrow> SpendLimitConfig list \<Rightarrow> modelLimitCache \<Rightarrow> SpendLimitConfig list \<times> modelLimitCache" where
  "mergedLimits now store userID yamlLimits c =
     (let (userLimits, c') = getUserLimits now store userID c in (merge_limits userLimits yamlLimits, c'))"

section \<open>Task budgets (taskspend/cache.go)\<close>

definition DefaultTTL :: duration where
  "DefaultTTL = 5 * ns_second"

record ts_entry =
  ts_budget :: TaskBudget
  ts_fetchedAt :: gotime

record ts_Cache =
  ts_entries :: "(string \<times> ts_entry) list"
  ts_ttl :: duration

record SpendSnapshot =
  ss_TaskID :: string
  ss_LimitUSD :: f64
  ss_SpentUSD :: f64
  ss_RemainingUSD :: f64
  ss_Expired :: bool
  ss_CachedAt :: gotime
  ss_OwnerID :: string

datatype 'e ts_error = TaskIDMissing | FetchFailed 'e

definition ts_New :: "duration \<Rightarrow> ts_Cache" where
  "ts_New ttl = \<lparr>ts_entries = [], ts_ttl = (if ttl \<le> 0 then DefaultTTL else ttl)\<rparr>"

definition toSnapshot :: "gotime \<Rightarrow> ts_entry \<Rightarrow> SpendSnapshot" where
  "toSnapshot now e =
     (let b = ts_budget e
      in \<lparr>ss_TaskID = t_TaskID b, ss_LimitUSD = t_LimitUSD b, ss_SpentUSD = t_SpentUSD b, ss_RemainingUSD = Task_Remaining b,
          ss_Expired = Task_IsExpired now b, ss_CachedAt = ts_fetchedAt e, ss_OwnerID = t_UserID b\<rparr>)"

definition ts_read :: "gotime \<Rightarrow> (string \<Rightarrow> 'e + TaskBudget) \<Rightarrow> string \<Rightarrow> ts_Cache \<Rightarrow> ('e ts_error + SpendSnapshot) \<times> ts_Cache" where
  "ts_read now store taskID c =
     (let fetch = (case store taskID of
                     Inl e \<Rightarrow> (Inl (FetchFailed e), c)
                   | Inr budget \<Rightarrow>
                       let e = \<lparr>ts_budget = budget, ts_fetchedAt = now\<rparr>
                       in (Inr (toSnapshot now e), c\<lparr>ts_entries := AList.update taskID e (ts_entries c)\<rparr>))
      in case map_of (ts_entries c) taskID of
           Some e \<Rightarrow> if time_sub now (ts_fetchedAt e) < ts_ttl c then (Inr (toSnapshot now e), c) else fetch
         | None \<Rightarrow> fetch)"

definition ts_Get :: "gotime \<Rightarrow> (string \<Rightarrow> 'e + TaskBudget) \<Rightarrow> string \<Rightarrow> ts_Cache \<Rightarrow> ('e ts_error + SpendSnapshot) \<times> ts_Cache" where
  "ts_Get now store taskID c = (if taskID = [] then (Inl TaskIDMissing, c) else ts_read now store taskID c)"

definition ts_Invalidate :: "string \<Rightarrow> ts_Cache \<Rightarrow> ts_Cache" where
  "ts_Invalidate taskID c = c\<lparr>ts_entries := AList.delete taskID (ts_entries c)\<rparr>"

definition ts_Evict :: "gotime \<Rightarrow> ts_Cache \<Rightarrow> ts_Cache" where
  "ts_Evict now c = c\<lparr>ts_entries := filter (\<lambda>(i, e). \<not> ts_ttl c \<le> time_sub now (ts_fetchedAt e)) (ts_entries c)\<rparr>"

definition ts_Len :: "ts_Cache \<Rightarrow> nat" where
  "ts_Len c = length (ts_entries c)"

section \<open>User identifiers (usercache.go)\<close>

record userIDEntry =
  ue_userID :: string
  ue_found :: bool
  ue_expiresAt :: gotime

type_synonym userIDCache = "(string \<times> userIDEntry) list"

definition userIDCacheTTL :: duration where
  "userIDCacheTTL = 60 * ns_second"

definition userIDCacheNegativeTTL :: duration where
  "userIDCacheNegativeTTL = 5 * ns_second"

definition uid_evictExpired :: "gotime \<Rightarrow> userIDCache \<Rightarrow> userIDCache" where
  "uid_evictExpired now c = filter (\<lambda>(k, e). \<not> ue_expiresAt e < now) c"

datatype 'e lookup_error = UserNotFound | LookupFailed 'e

text \<open>
  The user store answers \<open>Inr (Some id)\<close>, \<open>Inr None\<close> for \<^verbatim>\<open>ErrNotFound\<close> (or a nil record), or another error.
\<close>

definition resolveUserID ::
    "gotime \<Rightarrow> (string \<Rightarrow> 'e + string option) \<Rightarrow> string \<Rightarrow> userIDCache \<Rightarrow> ('e lookup_error + string) \<times> userIDCache" where
  "resolveUserID now users email c =
     (let key = ToLower email;
          slow = (case users email of
                    Inl e \<Rightarrow> (Inl (LookupFailed e), c)
                  | Inr None \<Rightarrow> (Inl UserNotFound, AList.update key \<lparr>ue_userID = [], ue_found = False, ue_expiresAt = now + userIDCacheNegativeTTL\<rparr> c)
                  | Inr (Some i) \<Rightarrow> (Inr i, AList.update key \<lparr>ue_userID = i, ue_found = True, ue_expiresAt = now + userIDCacheTTL\<rparr> c))
      in case map_of c key of
           Some e \<Rightarrow> if now < ue_expiresAt e then (if ue_found e then Inr (ue_userID e) else Inl UserNotFound, c) else slow
         | None \<Rightarrow> slow)"

section \<open>The caches keep the contract\<close>

lemma time_sub_less: "0 < d \<Longrightarrow> d < 2 ^ 63 \<Longrightarrow> time_sub now t < d \<longleftrightarrow> now - t < d"
  by (auto simp: time_sub_def)

definition ml_answer :: "gotime \<Rightarrow> 'e + (SpendLimitConfig list \<times> gotime) \<Rightarrow> SpendLimitConfig list" where
  "ml_answer now r = (case r of Inl e \<Rightarrow> [] | Inr (ls, t) \<Rightarrow> ls)"

definition ml_held :: "modelLimitCache \<Rightarrow> string \<Rightarrow> (SpendLimitConfig list \<times> gotime) option" where
  "ml_held c u = map_option (\<lambda>e. (mlc_limits e, mlc_fetchedAt e)) (map_of (mlc_entries c) u)"

interpretation limits: read_through
  "\<lambda>c. 0 < mlc_ttl c \<and> mlc_ttl c < 2 ^ 63" ml_held "\<lambda>c _. mlc_ttl c" "(=)" recordsToLimits getUserLimits ml_answer
  by unfold_locales
    (auto simp: ml_held_def ml_answer_def getUserLimits_def Let_def time_sub_less split: option.splits sum.splits if_splits)

definition ts_answer :: "gotime \<Rightarrow> 'e + (TaskBudget \<times> gotime) \<Rightarrow> 'e ts_error + SpendSnapshot" where
  "ts_answer now r = (case r of Inl e \<Rightarrow> Inl (FetchFailed e) | Inr (b, t) \<Rightarrow> Inr (toSnapshot now \<lparr>ts_budget = b, ts_fetchedAt = t\<rparr>))"

definition ts_held :: "ts_Cache \<Rightarrow> string \<Rightarrow> (TaskBudget \<times> gotime) option" where
  "ts_held c i = map_option (\<lambda>e. (ts_budget e, ts_fetchedAt e)) (map_of (ts_entries c) i)"

interpretation tasks: read_through
  "\<lambda>c. 0 < ts_ttl c \<and> ts_ttl c < 2 ^ 63" ts_held "\<lambda>c _. ts_ttl c" "(=)" "\<lambda>b. b" ts_read ts_answer
  by unfold_locales
    (auto simp: ts_held_def ts_answer_def ts_read_def toSnapshot_def Let_def time_sub_less split: option.splits sum.splits if_splits)

text \<open>An entry of the identifier cache holds a value (an identifier or its absence) fetched a lifetime before it expires.\<close>

definition uid_value :: "userIDEntry \<Rightarrow> string option" where
  "uid_value e = (if ue_found e then Some (ue_userID e) else None)"

definition uid_life :: "string option \<Rightarrow> duration" where
  "uid_life v = (if v = None then userIDCacheNegativeTTL else userIDCacheTTL)"

definition uid_held :: "userIDCache \<Rightarrow> string \<Rightarrow> (string option \<times> gotime) option" where
  "uid_held c email = map_option (\<lambda>e. (uid_value e, ue_expiresAt e - uid_life (uid_value e))) (map_of c (ToLower email))"

definition uid_answer :: "gotime \<Rightarrow> 'e + (string option \<times> gotime) \<Rightarrow> 'e lookup_error + string" where
  "uid_answer now r =
     (case r of Inl e \<Rightarrow> Inl (LookupFailed e) | Inr (None, t) \<Rightarrow> Inl UserNotFound | Inr (Some i, t) \<Rightarrow> Inr i)"

lemma uid_stale:
  "(\<forall>v t. uid_held c email = Some (v, t) \<longrightarrow> \<not> now - t < uid_life v) \<longleftrightarrow>
     (\<forall>e. map_of c (ToLower email) = Some e \<longrightarrow> \<not> now < ue_expiresAt e)"
  by (auto simp: uid_held_def)

lemma uid_hit:
  "uid_held c email = Some (v, t) \<Longrightarrow> now - t < uid_life v \<Longrightarrow> resolveUserID now f email c = (uid_answer now (Inr (v, t)), c)"
  by (auto simp: uid_held_def uid_answer_def uid_value_def resolveUserID_def Let_def)

lemma uid_slow:
  assumes "\<forall>e. map_of c (ToLower email) = Some e \<longrightarrow> \<not> now < ue_expiresAt e"
  shows "resolveUserID now f email c =
    (case f email of
       Inl e \<Rightarrow> (uid_answer now (Inl e), c)
     | Inr v \<Rightarrow> (uid_answer now (Inr (v, now)),
         AList.update (ToLower email) \<lparr>ue_userID = (case v of None \<Rightarrow> [] | Some i \<Rightarrow> i), ue_found = (v \<noteq> None), ue_expiresAt = now + uid_life v\<rparr> c))"
  using assms by (auto simp: resolveUserID_def Let_def uid_answer_def uid_life_def split: option.split sum.split)

interpretation ids: read_through
  "\<lambda>c. True" uid_held "\<lambda>_. uid_life" "\<lambda>j k. ToLower j = ToLower k" "\<lambda>v. v" resolveUserID uid_answer
proof
  fix c :: userIDCache and email now and f :: "string \<Rightarrow> 'e + string option" and r e
  assume "\<forall>v t. uid_held c email = Some (v, t) \<longrightarrow> \<not> now - t < uid_life v"
  note slow = uid_slow [OF this [unfolded uid_stale]]
  show "f email = Inr r \<Longrightarrow> fst (resolveUserID now f email c) = uid_answer now (Inr (r, now)) \<and>
      (\<forall>j x. uid_held (snd (resolveUserID now f email c)) j = Some x \<longrightarrow> uid_held c j = Some x \<or> ToLower j = ToLower email \<and> x = (r, now))"
    by (cases r) (auto simp: slow uid_held_def uid_value_def split: if_splits)
  show "f email = Inl e \<Longrightarrow> fst (resolveUserID now f email c) = uid_answer now (Inl e) \<and>
      (\<forall>j x. uid_held (snd (resolveUserID now f email c)) j = Some x \<longrightarrow> uid_held c j = Some x)" by (simp add: slow)
qed (simp_all add: uid_hit)

section \<open>Properties\<close>

text \<open>
  An administrator's change of a user's model limits takes effect within the lifetime of a cache entry
  (a minute).  If the store returns \<open>recs\<close> from \<open>T\<close> on, then a lookup at least \<open>ttl\<close> later returns them,
  whatever was looked up before, when, and for whom.
\<close>

lemma limit_change_shows:
  assumes "0 < ttl" and "ttl < 2 ^ 63" and "sorted (t0 # map fst rs @ [now])" and "\<forall>u \<ge> T. store u uid = Inr recs" and "T + ttl \<le> now"
  shows "fst (getUserLimits now (store now) uid
    (fold (\<lambda>(t, k) c. snd (getUserLimits t (store t) k c)) rs (newModelLimitCache ttl))) = recordsToLimits recs"
proof -
  have "limits.sound store t0 (newModelLimitCache ttl)" unfolding limits.sound_def using assms(1,2)
    by (simp add: newModelLimitCache_def ml_held_def)
  moreover have "fold (\<lambda>(t, k) c. snd (getUserLimits t (store t) k c)) rs c = limits.gets store rs c" for c
    by (induction store rs c rule: limits.gets.induct) simp_all
  ultimately show ?thesis
    using limits.change_shows [of store t0 "newModelLimitCache ttl" rs now T uid recs] assms
    by (auto simp: limits.uniform_def newModelLimitCache_def ml_answer_def)
qed

text \<open>
  A polled task budget is never older than the lifetime of an entry: after any lookups, invalidations left
  out, the snapshot of a task is that of the budget the store held at some moment less than \<open>ttl\<close> ago or now,
  and an error is the store's error of now.
\<close>

lemma task_snapshot_recent:
  assumes "0 < ttl" and "ttl < 2 ^ 63" and "sorted (t0 # map fst rs @ [now])" and "i \<noteq> []" and "list_all (\<lambda>(t, k). k \<noteq> []) rs"
  shows "(\<exists>e. store now i = Inl e \<and> fst (ts_Get now (store now) i (fold (\<lambda>(t, k) c. snd (ts_Get t (store t) k c)) rs (ts_New ttl))) = Inl (FetchFailed e)) \<or>
    (\<exists>b t. t \<le> now \<and> now - t < ttl \<and> store t i = Inr b \<and>
       fst (ts_Get now (store now) i (fold (\<lambda>(t, k) c. snd (ts_Get t (store t) k c)) rs (ts_New ttl))) =
         Inr (toSnapshot now \<lparr>ts_budget = b, ts_fetchedAt = t\<rparr>))"
proof -
  have s: "tasks.sound store t0 (ts_New ttl)" and u: "tasks.uniform store"
    unfolding tasks.sound_def tasks.uniform_def using assms(1,2) by (simp_all add: ts_New_def ts_held_def)
  have f: "fold (\<lambda>(t, k) c. snd (ts_Get t (store t) k c)) rs c = tasks.gets store rs c" for c
    using assms(5) by (induction store rs c rule: tasks.gets.induct) (simp_all add: ts_Get_def)
  note g = tasks.gets_sound [OF u s assms(3)]
  have life: "ts_ttl (tasks.gets store rs (ts_New ttl)) = ttl"
    using g assms(1) by (simp add: fun_eq_iff ts_New_def)
  have r: "ts_Get now (store now) i c = ts_read now (store now) i c" for c using assms(4) by (simp add: ts_Get_def)
  have "tasks.recent store (tasks.gets store rs (ts_New ttl)) now i (fst (ts_read now (store now) i (tasks.gets store rs (ts_New ttl))))"
    using tasks.get_sound [OF u conjunct1 [OF g] order_refl] by blast
  moreover have "t = now \<or> now - t < ttl \<longleftrightarrow> now - t < ttl" for t using assms(1) by auto
  ultimately show ?thesis unfolding f r tasks.recent_def life by (simp add: ts_answer_def)
qed

definition demo_task :: TaskBudget where
  "demo_task = \<lparr>t_TaskID = ''t'', t_UserID = ''u'', t_LimitUSD = Fin 10, t_SpentUSD = Fin 4, t_CreatedAt = 0, t_ExpiresAt = 0\<rparr>"

end
