(* ===== verification/Handlers.thy ===== *)
theory Handlers
  imports Sessions Caches UserStore
begin

text \<open>
  Who may call what: the authentication middleware (\<^verbatim>\<open>pkg/auth/middleware_chain.go\<close>, \<^verbatim>\<open>firebase.go\<close>), the
  interceptor of the administrative procedures (\<^verbatim>\<open>pkg/auth/admin.go\<close>), the scope of trace queries
  (\<^verbatim>\<open>pkg/connecthandlers/scope.go\<close>), the tenant check (\<^verbatim>\<open>pkg/auth/tenant.go\<close>), and the two HTTP handlers over
  the billing store (\<^verbatim>\<open>pkg/modellimits/handler.go\<close>, \<^verbatim>\<open>pkg/taskspend/handler.go\<close>).

  A handler is a function of the caller in its context, the request and the store; a failed lookup is a flag.
  Replies carry the status code and, on success, the value that is encoded; the texts of errors are left out.
  A decoded JSON body is an argument.
\<close>

datatype 'a reply = Reply 'a | HttpError nat

section \<open>Authentication\<close>

definition selfServicePaths :: "string list" where
  "selfServicePaths = [''/candela.v1.UserService/GetCurrentUser'', ''/candela.v1.UserService/GetMyBudget'']"

definition NewServiceAccountAllowlist :: "string list \<Rightarrow> string list" where
  "NewServiceAccountAllowlist emails = map ToLower (filter (\<lambda>e. e \<noteq> []) (map TrimSpace emails))"

definition IsAllowed :: "string \<Rightarrow> string list \<Rightarrow> bool" where
  "IsAllowed email allowed \<longleftrightarrow> ToLower (TrimSpace email) \<in> set allowed"

datatype reg_error = ErrNotRegistered | RegLookupFailed

text \<open>\<open>None\<close> when the user may pass, the status code otherwise.\<close>

definition verifyRegistered :: "Identity \<Rightarrow> (string \<Rightarrow> reg_error option) option \<Rightarrow> string list option \<Rightarrow> nat option" where
  "verifyRegistered user userAuth saAllowlist =
     (case userAuth of
        None \<Rightarrow> None
      | Some check \<Rightarrow>
          if (case saAllowlist of None \<Rightarrow> False | Some a \<Rightarrow> HasSuffix (ToLower (id_Email user)) ''.gserviceaccount.com'' \<and> IsAllowed (id_Email user) a)
          then None
          else case check (id_Email user) of
                 None \<Rightarrow> None
               | Some ErrNotRegistered \<Rightarrow> Some 403
               | Some RegLookupFailed \<Rightarrow> Some 500)"

text \<open>\<^verbatim>\<open>strings.SplitN(s, sep, 2)\<close>: \<open>None\<close> when the separator does not occur.\<close>

fun split_once :: "char \<Rightarrow> string \<Rightarrow> (string \<times> string) option" where
  "split_once sep [] = None"
| "split_once sep (c # s) =
     (if c = sep then Some ([], s) else map_option (\<lambda>(a, b). (c # a, b)) (split_once sep s))"

definition extractBearerToken :: "(string \<Rightarrow> string) \<Rightarrow> string" where
  "extractBearerToken header =
     (let h = (if header ''X-Candela-Auth'' = [] then header ''Authorization'' else header ''X-Candela-Auth'')
      in if h = [] then []
         else case split_once (CHR '' '') h of
                None \<Rightarrow> []
              | Some (scheme, token) \<Rightarrow> if ToLower scheme = ''bearer'' then token else [])"

definition dev_user :: Identity where
  "dev_user = \<lparr>id_ID = ''dev-admin'', id_Email = ''admin@localhost'', id_Provider = ''dev'', id_TenantIDs = []\<rparr>"

text \<open>\<open>Reply caller\<close> when the next handler runs, with the identity it finds in its context.\<close>

definition ChainAuthMiddleware ::
    "(string \<Rightarrow> string) \<Rightarrow> gotime \<Rightarrow> (string \<Rightarrow> 'e + Identity option) list \<Rightarrow> ('e auth_error \<Rightarrow> bool) \<Rightarrow> (string \<Rightarrow> reg_error option) option
      \<Rightarrow> string list option \<Rightarrow> bool \<Rightarrow> string \<Rightarrow> (string \<Rightarrow> string) \<Rightarrow> IdentityCache option \<Rightarrow> Identity option reply \<times> IdentityCache option" where
  "ChainAuthMiddleware tokenHash now resolvers forbidden userAuth saAllowlist devMode path header cache =
     (if path = ''/healthz'' \<or> path = ''/readyz'' then (Reply None, cache)
      else
        let token = extractBearerToken header
        in if token = [] then (if devMode then Reply (Some dev_user) else HttpError 401, cache)
           else case chain_Resolve tokenHash now resolvers token cache of
                  (Inl e, c) \<Rightarrow> (HttpError (if forbidden e then 403 else 401), c)
                | (Inr user, c) \<Rightarrow>
                    (if path \<in> set selfServicePaths then (Reply (Some user), c)
                     else case verifyRegistered user userAuth saAllowlist of
                            None \<Rightarrow> (Reply (Some user), c)
                          | Some code \<Rightarrow> (HttpError code, c)))"

section \<open>Administrative procedures\<close>

definition RoleAdmin :: string where
  "RoleAdmin = ''admin''"

definition adminOnlyProcedures :: "string list" where
  "adminOnlyProcedures = map (\<lambda>m. ''/candela.v1.UserService/'' @ m)
     [''CreateUser'', ''ListUsers'', ''GetUser'', ''UpdateUser'', ''DeactivateUser'', ''ReactivateUser'', ''DeleteUser'', ''SetBudget'',
      ''GetBudget'', ''ResetSpend'', ''CreateGrant'', ''ListGrants'', ''RevokeGrant'', ''ListAuditLog'']"

definition GetUserByEmail :: "bool \<Rightarrow> string \<Rightarrow> store \<Rightarrow> store_error + UserRecord" where
  "GetUserByEmail fails email st = GetUser fails email st"

datatype connect_code = CodeUnauthenticated | CodePermissionDenied | CodeInternal | CodeFailedPrecondition

text \<open>\<open>None\<close> when the procedure runs.\<close>

definition AdminInterceptor :: "bool \<Rightarrow> string \<Rightarrow> Identity option \<Rightarrow> store \<Rightarrow> connect_code option" where
  "AdminInterceptor fails proc caller st =
     (if proc \<notin> set adminOnlyProcedures then None
      else case caller of
             None \<Rightarrow> Some CodeUnauthenticated
           | Some u \<Rightarrow>
               (case GetUserByEmail fails (id_Email u) st of
                  Inl e \<Rightarrow> if e = ErrNotFound then Some CodePermissionDenied else Some CodeInternal
                | Inr user \<Rightarrow> if u_Role user \<noteq> RoleAdmin then Some CodePermissionDenied else None))"

section \<open>Scope of trace queries\<close>

definition scopeUserID :: "bool \<Rightarrow> bool \<Rightarrow> Identity option \<Rightarrow> store option \<Rightarrow> connect_code + string" where
  "scopeUserID fails devMode caller users_store =
     (case caller of
        None \<Rightarrow> if devMode then Inr [] else Inl CodeUnauthenticated
      | Some c \<Rightarrow>
          (case users_store of
             None \<Rightarrow> if devMode then Inr [] else Inl CodeFailedPrecondition
           | Some st \<Rightarrow>
               (case GetUserByEmail fails (id_Email c) st of
                  Inl e \<Rightarrow> if id_Email c \<noteq> [] then Inr (ToLower (id_Email c)) else Inr (id_ID c)
                | Inr r \<Rightarrow> if u_Role r = RoleAdmin then Inr [] else Inr (u_ID r))))"

section \<open>Tenants\<close>

definition TenantModeOpen :: string where
  "TenantModeOpen = ''open''"

datatype tenant_error = IdentityRequired | TenantRequired | UnauthorizedForTenant

definition tenant_Validate :: "string \<Rightarrow> Identity option \<Rightarrow> string \<Rightarrow> tenant_error option" where
  "tenant_Validate mode identity requested =
     (if mode = TenantModeOpen then None
      else case identity of
             None \<Rightarrow> Some IdentityRequired
           | Some i \<Rightarrow>
               if requested = [] then Some TenantRequired
               else if requested \<in> set (id_TenantIDs i) then None else Some UnauthorizedForTenant)"

section \<open>Model limits (modellimits/handler.go)\<close>

definition trim_slashes :: "string \<Rightarrow> string" where
  "trim_slashes s = (let t = dropWhile (\<lambda>c. c = CHR ''/'') s in rev (dropWhile (\<lambda>c. c = CHR ''/'') (rev t)))"

definition parsePath :: "string \<Rightarrow> string \<times> string" where
  "parsePath path =
     (if \<not> HasPrefix path ''/api/v1/users/'' then ([], [])
      else case split_on (CHR ''/'') (trim_slashes (TrimPrefix path ''/api/v1/users/'')) of
             uid # kw # rest \<Rightarrow>
               if kw \<noteq> ''model-limits'' then ([], []) else (uid, case rest of [] \<Rightarrow> [] | mp # _ \<Rightarrow> mp)
           | _ \<Rightarrow> ([], []))"

definition ml_isAdmin :: "bool \<Rightarrow> string \<Rightarrow> store option \<Rightarrow> bool" where
  "ml_isAdmin fails callerID users_store =
     (case users_store of
        None \<Rightarrow> False
      | Some st \<Rightarrow> (case GetUser fails callerID st of Inl _ \<Rightarrow> False | Inr r \<Rightarrow> u_Role r = RoleAdmin))"

datatype ml_value = LimitSet ModelLimitRecord | LimitList string "ModelLimitRecord list" | LimitDeleted

definition handleSet :: "bool \<Rightarrow> gotime \<Rightarrow> f64 option \<Rightarrow> string \<Rightarrow> string \<Rightarrow> store \<Rightarrow> ml_value reply \<times> store" where
  "handleSet fails now body userID modelPrefix st =
     (if modelPrefix = [] then (HttpError 400, st)
      else case body of
             None \<Rightarrow> (HttpError 400, st)
           | Some amount \<Rightarrow>
               if amount \<le> 0 then (HttpError 400, st)
               else let limit = \<lparr>ml_UserID = userID, ml_ModelPrefix = modelPrefix, ml_MaxDailyUSD = amount, ml_CreatedAt = 0, ml_UpdatedAt = 0\<rparr>
                    in case SetModelLimit fails now limit st of
                         (Inl _, st') \<Rightarrow> (HttpError 500, st')
                       | (Inr _, st') \<Rightarrow> (Reply (LimitSet (limit\<lparr>ml_UserID := normalizeID userID, ml_CreatedAt := now, ml_UpdatedAt := now\<rparr>)), st'))"

definition handleList :: "bool \<Rightarrow> string \<Rightarrow> store \<Rightarrow> ml_value reply \<times> store" where
  "handleList fails userID st =
     (case GetModelLimits fails userID st of Inl _ \<Rightarrow> (HttpError 500, st) | Inr ls \<Rightarrow> (Reply (LimitList userID ls), st))"

definition handleDelete :: "bool \<Rightarrow> string \<Rightarrow> string \<Rightarrow> store \<Rightarrow> ml_value reply \<times> store" where
  "handleDelete fails userID modelPrefix st =
     (if modelPrefix = [] then (HttpError 400, st)
      else case DeleteModelLimit fails userID modelPrefix st of
             (Inl _, st') \<Rightarrow> (HttpError 500, st')
           | (Inr _, st') \<Rightarrow> (Reply LimitDeleted, st'))"

definition ml_Handler ::
    "bool \<Rightarrow> bool \<Rightarrow> gotime \<Rightarrow> Identity option \<Rightarrow> string \<Rightarrow> string \<Rightarrow> f64 option \<Rightarrow> store \<Rightarrow> ml_value reply \<times> store" where
  "ml_Handler lookup_fails fails now caller verb path body st =
     (case caller of
        None \<Rightarrow> (HttpError 401, st)
      | Some c \<Rightarrow>
          if \<not> ml_isAdmin lookup_fails (EffectiveID c) (Some st) then (HttpError 403, st)
          else case parsePath path of (userID, modelPrefix) \<Rightarrow>
                 if userID = [] then (HttpError 400, st)
                 else if verb = ''PUT'' then handleSet fails now body userID modelPrefix st
                 else if verb = ''GET'' then (if modelPrefix \<noteq> [] then (HttpError 400, st) else handleList fails userID st)
                 else if verb = ''DELETE'' then handleDelete fails userID modelPrefix st
                 else (HttpError 405, st))"

section \<open>Spend of a task (taskspend/handler.go)\<close>

definition extractTaskID :: "string \<Rightarrow> string" where
  "extractTaskID path =
     (if \<not> HasPrefix path ''/api/v1/task-spend/'' then []
      else rev (dropWhile (\<lambda>c. c = CHR ''/'') (rev (TrimPrefix path ''/api/v1/task-spend/''))))"

definition ts_may_read :: "bool \<Rightarrow> string \<Rightarrow> string \<Rightarrow> store option \<Rightarrow> bool" where
  "ts_may_read lookup_fails owner callerID users_store \<longleftrightarrow>
     owner = callerID \<or> HasSuffix callerID ''.iam.gserviceaccount.com'' \<or>
     (case users_store of
        None \<Rightarrow> False
      | Some st \<Rightarrow> (case GetUser lookup_fails callerID st of Inl _ \<Rightarrow> False | Inr r \<Rightarrow> u_Role r = RoleAdmin))"

definition ts_Handler ::
    "bool \<Rightarrow> gotime \<Rightarrow> (string \<Rightarrow> store_error + TaskBudget) \<Rightarrow> store option \<Rightarrow> Identity option \<Rightarrow> string \<Rightarrow> string \<Rightarrow> ts_Cache
      \<Rightarrow> SpendSnapshot reply \<times> ts_Cache" where
  "ts_Handler lookup_fails now budgets users_store caller verb path cache =
     (if verb \<noteq> ''GET'' then (HttpError 405, cache)
      else if extractTaskID path = [] then (HttpError 400, cache)
      else case caller of
             None \<Rightarrow> (HttpError 401, cache)
           | Some c \<Rightarrow>
               (case ts_Get now budgets (extractTaskID path) cache of
                  (Inl e, cache') \<Rightarrow> (HttpError (if e = FetchFailed ErrNotFound then 404 else 500), cache')
                | (Inr snap, cache') \<Rightarrow>
                    (if ts_may_read lookup_fails (ss_OwnerID snap) (EffectiveID c) users_store then Reply snap else HttpError 404, cache')))"

section \<open>Properties\<close>

lemma f64_pos_iff: "\<not> x \<le> 0 \<Longrightarrow> \<not> is_nan x \<Longrightarrow> 0 < (x :: f64)"
  by (cases x) (auto simp: is_nan_def zero_f64_def)

lemma admin_procedure_path:
  assumes "path \<in> set adminOnlyProcedures"
  shows "path \<noteq> ''/healthz'' \<and> path \<noteq> ''/readyz'' \<and> path \<notin> set selfServicePaths"
  using assms by (auto simp: adminOnlyProcedures_def selfServicePaths_def)

lemma middleware_resolved:
  assumes "fst (ChainAuthMiddleware h now rs fb ua sa False path header cache) = Reply caller"
    and "path \<noteq> ''/healthz''" and "path \<noteq> ''/readyz''" and "path \<notin> set selfServicePaths"
  shows "\<exists>u. caller = Some u \<and> fst (chain_Resolve h now rs (extractBearerToken header) cache) = Inr u \<and> verifyRegistered u ua sa = None"
proof -
  obtain r c where "chain_Resolve h now rs (extractBearerToken header) cache = (r, c)" by fastforce
  then show ?thesis using assms
    by (auto simp: ChainAuthMiddleware_def Let_def split: if_splits sum.splits option.splits)
qed

lemma interceptor_admin:
  assumes "AdminInterceptor fails proc caller st = None" and "proc \<in> set adminOnlyProcedures"
  shows "\<exists>u r. caller = Some u \<and> GetUser fails (id_Email u) st = Inr r \<and> u_Role r = RoleAdmin"
  using assms by (auto simp: AdminInterceptor_def GetUserByEmail_def split: option.splits sum.splits if_splits)

text \<open>
  C23: outside of development mode an administrative procedure runs only for an administrator: the request
  carries a token the resolvers (or their cache) map to an identity, that identity is registered, and the store
  has a user with its email and the role of an administrator.
\<close>

theorem admin_rpc_guarded:
  assumes "path \<in> set adminOnlyProcedures"
    and "fst (ChainAuthMiddleware h now rs fb ua sa False path header cache) = Reply caller"
    and "AdminInterceptor fails path caller st = None"
  shows "\<exists>u r. caller = Some u \<and> fst (chain_Resolve h now rs (extractBearerToken header) cache) = Inr u \<and>
    verifyRegistered u ua sa = None \<and> GetUser fails (id_Email u) st = Inr r \<and> u_Role r = RoleAdmin"
  using middleware_resolved [OF assms(2)] admin_procedure_path [OF assms(1)] interceptor_admin [OF assms(3,1)] by auto

definition demo_admin :: UserRecord where
  "demo_admin = \<lparr>u_ID = ''a@x'', u_Email = ''a@x'', u_DisplayName = None, u_Role = ''admin'', u_Status = ''active'',
     u_AccessTags = None, u_CreatedAt = 0, u_LastSeenAt = 0, u_LastActiveAt = 0, u_RateLimit = None\<rparr>"

definition demo_caller :: Identity where
  "demo_caller = \<lparr>id_ID = ''1'', id_Email = ''a@x'', id_Provider = ''oidc'', id_TenantIDs = []\<rparr>"

definition demo_header :: "string \<Rightarrow> string" where
  "demo_header k = (if k = ''Authorization'' then ''Bearer tok'' else [])"

theorem admin_rpc_guarded_witness:
  "\<exists>u r. Some demo_caller = Some u \<and>
     fst (chain_Resolve (\<lambda>s. s) 0 [\<lambda>k. Inr (Some demo_caller) :: unit + Identity option] (extractBearerToken demo_header) None) = Inr u \<and>
     verifyRegistered u (Some (\<lambda>e. None)) None = None \<and>
     GetUser False (id_Email u) (empty_store\<lparr>users := [demo_admin]\<rparr>) = Inr r \<and> u_Role r = RoleAdmin"
proof (rule admin_rpc_guarded [where path = "''/candela.v1.UserService/DeleteUser''" and fb = "\<lambda>_. False"])
  show "''/candela.v1.UserService/DeleteUser'' \<in> set adminOnlyProcedures" by (simp add: adminOnlyProcedures_def)
  have t: "extractBearerToken demo_header = ''tok''" by code_simp
  show "fst (ChainAuthMiddleware (\<lambda>s. s) 0 [\<lambda>k. Inr (Some demo_caller) :: unit + Identity option] (\<lambda>_. False) (Some (\<lambda>e. None)) None False
      ''/candela.v1.UserService/DeleteUser'' demo_header None) = Reply (Some demo_caller)"
    by (simp add: ChainAuthMiddleware_def t chain_Resolve_def verifyRegistered_def)
  show "AdminInterceptor False ''/candela.v1.UserService/DeleteUser'' (Some demo_caller) (empty_store\<lparr>users := [demo_admin]\<rparr>) = None"
    by (simp add: AdminInterceptor_def GetUserByEmail_def GetUser_def demo_admin_def demo_caller_def scan_user_def RoleAdmin_def normalizeID_def
        ToLower_def lower_char_def TrimSpace_def is_space_def)
qed

text \<open>What the handler of the model limits promises of a reply and the store after it.\<close>

definition ml_promise :: "store \<Rightarrow> ml_value reply \<times> store \<Rightarrow> bool" where
  "ml_promise st res =
     (case res of
        (HttpError code, st') \<Rightarrow> st' = st \<and> code \<in> {400, 401, 403, 405, 500}
      | (Reply (LimitSet l), st') \<Rightarrow>
          0 < ml_MaxDailyUSD l \<and> has_user st (ml_UserID l) \<and>
          map_option ml_MaxDailyUSD (map_of (user_model_limits st') (ml_UserID l, ml_ModelPrefix l)) = Some (ml_MaxDailyUSD l) \<and>
          (\<exists>row. st' = st\<lparr>user_model_limits := AList.update (ml_UserID l, ml_ModelPrefix l) row (user_model_limits st)\<rparr>)
      | (Reply (LimitList uid ls), st') \<Rightarrow> st' = st \<and> GetModelLimits False uid st = Inr ls
      | (Reply LimitDeleted, st') \<Rightarrow> \<exists>k. st' = st\<lparr>user_model_limits := AList.delete k (user_model_limits st)\<rparr>)"

lemma handleSet_promise: "ml_promise st (handleSet fails now body userID mp st)"
  by (auto simp: ml_promise_def handleSet_def SetModelLimit_def Let_def f64_pos_iff split: option.splits)

lemma handleList_promise: "ml_promise st (handleList fails userID st)"
  by (auto simp: ml_promise_def handleList_def GetModelLimits_def Let_def)

lemma handleDelete_promise: "ml_promise st (handleDelete fails userID mp st)"
  by (auto simp: ml_promise_def handleDelete_def DeleteModelLimit_def)



text \<open>A path with more segments is taken for the first one: the rest of a model name that contains a slash is dropped.\<close>

lemma parsePath_drops_rest:
  "parsePath ''/api/v1/users/u/model-limits/meta/llama'' = parsePath ''/api/v1/users/u/model-limits/meta''"
  by (simp add: parsePath_def trim_slashes_def HasPrefix_def TrimPrefix_def)



end
