(* ===== verification/Breaker.thy ===== *)
theory Breaker
  imports Prelude
begin

text \<open>
  The two circuit breakers: the proxy's (\<^verbatim>\<open>pkg/proxy/circuit_breaker.go\<close>), which decides whether a request
  is observed, and the processor's (\<^verbatim>\<open>pkg/processor/circuit_breaker.go\<close>), which decides whether a sink is
  written.  They differ in how a failure in the half-open state is treated; the locale \<open>breaker\<close> is what they
  have in common, and its lemmas, tripping, blocking and recovering, hold for both by interpretation.
  Each method holds the mutex and is one step; the clock is an argument.
\<close>

datatype CircuitState = CircuitClosed | CircuitOpen | CircuitHalfOpen

fun state_String :: "CircuitState \<Rightarrow> string" where
  "state_String CircuitClosed = ''closed''"
| "state_String CircuitOpen = ''open''"
| "state_String CircuitHalfOpen = ''half-open''"

section \<open>The breaker of the proxy\<close>

record CircuitBreakerConfig =
  Threshold :: int
  ResetTimeout :: duration
  HalfOpenMax :: int

definition DefaultCircuitBreakerConfig :: CircuitBreakerConfig where
  "DefaultCircuitBreakerConfig = \<lparr>Threshold = 5, ResetTimeout = 30 * ns_second, HalfOpenMax = 2\<rparr>"

record CircuitBreaker =
  cb_state :: CircuitState
  cb_failures :: int
  cb_successes :: int
  cb_lastFailureTime :: gotime
  cb_threshold :: int
  cb_resetTimeout :: duration
  cb_halfOpenMax :: int

definition NewCircuitBreaker :: "CircuitBreakerConfig \<Rightarrow> CircuitBreaker" where
  "NewCircuitBreaker cfg =
     \<lparr>cb_state = CircuitClosed, cb_failures = 0, cb_successes = 0, cb_lastFailureTime = 0,
      cb_threshold = (if Threshold cfg = 0 then 5 else Threshold cfg),
      cb_resetTimeout = (if ResetTimeout cfg = 0 then 30 * ns_second else ResetTimeout cfg),
      cb_halfOpenMax = (if HalfOpenMax cfg = 0 then 2 else HalfOpenMax cfg)\<rparr>"

definition AllowRequest :: "gotime \<Rightarrow> CircuitBreaker \<Rightarrow> bool \<times> CircuitBreaker" where
  "AllowRequest now cb =
     (case cb_state cb of
        CircuitClosed \<Rightarrow> (True, cb)
      | CircuitOpen \<Rightarrow>
          if cb_resetTimeout cb < time_sub now (cb_lastFailureTime cb)
          then (True, cb\<lparr>cb_state := CircuitHalfOpen, cb_successes := 0\<rparr>) else (False, cb)
      | CircuitHalfOpen \<Rightarrow> (True, cb))"

definition cb_RecordSuccess :: "CircuitBreaker \<Rightarrow> CircuitBreaker" where
  "cb_RecordSuccess cb =
     (let cb1 = cb\<lparr>cb_failures := 0\<rparr>
      in if cb_state cb1 = CircuitHalfOpen
         then let cb2 = cb1\<lparr>cb_successes := cb_successes cb1 + 1\<rparr>
              in if cb_halfOpenMax cb2 \<le> cb_successes cb2 then cb2\<lparr>cb_state := CircuitClosed\<rparr> else cb2
         else cb1)"

definition cb_RecordFailure :: "gotime \<Rightarrow> CircuitBreaker \<Rightarrow> CircuitBreaker" where
  "cb_RecordFailure now cb =
     (let n = (if cb_failures cb \<le> cb_threshold cb then cb_failures cb + 1 else cb_failures cb);
          cb1 = cb\<lparr>cb_failures := n, cb_lastFailureTime := now\<rparr>
      in if cb_threshold cb1 \<le> n then cb1\<lparr>cb_state := CircuitOpen\<rparr> else cb1)"

definition cb_IsOpen :: "gotime \<Rightarrow> CircuitBreaker \<Rightarrow> bool" where
  "cb_IsOpen now cb \<longleftrightarrow> cb_state cb = CircuitOpen \<and> time_sub now (cb_lastFailureTime cb) \<le> cb_resetTimeout cb"

section \<open>The breaker of the processor\<close>

record Breaker =
  br_state :: CircuitState
  br_failures :: int
  br_successes :: int
  br_lastFailureTime :: gotime
  br_threshold :: int
  br_resetTimeout :: duration
  br_halfOpenMax :: int

definition NewBreaker :: "CircuitBreakerConfig \<Rightarrow> Breaker" where
  "NewBreaker cfg =
     \<lparr>br_state = CircuitClosed, br_failures = 0, br_successes = 0, br_lastFailureTime = 0,
      br_threshold = (if Threshold cfg \<le> 0 then 5 else Threshold cfg),
      br_resetTimeout = (if ResetTimeout cfg \<le> 0 then 30 * ns_second else ResetTimeout cfg),
      br_halfOpenMax = (if HalfOpenMax cfg \<le> 0 then 2 else HalfOpenMax cfg)\<rparr>"

definition br_Allow :: "gotime \<Rightarrow> Breaker \<Rightarrow> bool \<times> Breaker" where
  "br_Allow now b =
     (case br_state b of
        CircuitClosed \<Rightarrow> (True, b)
      | CircuitOpen \<Rightarrow>
          if br_resetTimeout b < time_sub now (br_lastFailureTime b)
          then (True, b\<lparr>br_state := CircuitHalfOpen, br_successes := 0\<rparr>) else (False, b)
      | CircuitHalfOpen \<Rightarrow> (True, b))"

definition br_RecordSuccess :: "Breaker \<Rightarrow> Breaker" where
  "br_RecordSuccess b =
     (let b1 = b\<lparr>br_failures := 0\<rparr>
      in if br_state b1 = CircuitHalfOpen
         then let b2 = b1\<lparr>br_successes := br_successes b1 + 1\<rparr>
              in if br_halfOpenMax b2 \<le> br_successes b2 then b2\<lparr>br_state := CircuitClosed\<rparr> else b2
         else b1)"

definition br_RecordFailure :: "gotime \<Rightarrow> Breaker \<Rightarrow> Breaker" where
  "br_RecordFailure now b =
     (let n = (if br_failures b \<le> br_threshold b then br_failures b + 1 else br_failures b);
          b1 = b\<lparr>br_failures := n, br_lastFailureTime := now\<rparr>
      in case br_state b1 of
           CircuitClosed \<Rightarrow> if br_threshold b1 \<le> n then b1\<lparr>br_state := CircuitOpen\<rparr> else b1
         | CircuitHalfOpen \<Rightarrow> b1\<lparr>br_state := CircuitOpen\<rparr>
         | CircuitOpen \<Rightarrow> b1)"

definition ConsecutiveFailures :: "Breaker \<Rightarrow> int" where
  "ConsecutiveFailures b = br_failures b"

section \<open>What they have in common\<close>

locale breaker =
  fixes mode :: "'s \<Rightarrow> CircuitState"
    and failures successes threshold half_max :: "'s \<Rightarrow> int"
    and last_failure :: "'s \<Rightarrow> gotime"
    and reset :: "'s \<Rightarrow> duration"
    and allow :: "gotime \<Rightarrow> 's \<Rightarrow> bool \<times> 's"
    and success :: "'s \<Rightarrow> 's"
    and failure :: "gotime \<Rightarrow> 's \<Rightarrow> 's"
  assumes allow_open: "mode s = CircuitOpen \<Longrightarrow> \<not> reset s < time_sub now (last_failure s) \<Longrightarrow> allow now s = (False, s)"
    and allow_probe: "mode s = CircuitOpen \<Longrightarrow> reset s < time_sub now (last_failure s) \<Longrightarrow>
      fst (allow now s) \<and> mode (snd (allow now s)) = CircuitHalfOpen \<and> successes (snd (allow now s)) = 0 \<and> half_max (snd (allow now s)) = half_max s"
    and allow_other: "mode s \<noteq> CircuitOpen \<Longrightarrow> allow now s = (True, s)"
    and success_half: "mode s = CircuitHalfOpen \<Longrightarrow>
      successes (success s) = successes s + 1 \<and> half_max (success s) = half_max s \<and>
      mode (success s) = (if half_max s \<le> successes s + 1 then CircuitClosed else CircuitHalfOpen)"
    and success_closed: "mode s = CircuitClosed \<Longrightarrow> mode (success s) = CircuitClosed \<and> failures (success s) = 0"
    and failure_closed: "mode s = CircuitClosed \<Longrightarrow> failures s < threshold s \<Longrightarrow>
      failures (failure now s) = failures s + 1 \<and> last_failure (failure now s) = now \<and>
      threshold (failure now s) = threshold s \<and> reset (failure now s) = reset s \<and> half_max (failure now s) = half_max s \<and>
      mode (failure now s) = (if threshold s \<le> failures s + 1 then CircuitOpen else CircuitClosed)"
begin

text \<open>A run of failures shorter than the threshold leaves the breaker closed; the one that reaches it trips it.\<close>

lemma failures_count:
  "mode s = CircuitClosed \<Longrightarrow> failures s + int (length ts) < threshold s \<Longrightarrow>
     mode (fold failure ts s) = CircuitClosed \<and> failures (fold failure ts s) = failures s + int (length ts) \<and>
     threshold (fold failure ts s) = threshold s \<and> reset (fold failure ts s) = reset s \<and> half_max (fold failure ts s) = half_max s"
proof (induction ts arbitrary: s)
  case (Cons t ts)
  have "failures s < threshold s" using Cons.prems(2) by simp
  note f = failure_closed [OF Cons.prems(1) this, of t]
  then show ?case using Cons.prems Cons.IH [of "failure t s"] by simp
qed simp

lemma trips:
  assumes "mode s = CircuitClosed" and "failures s = 0" and "int (length ts) + 1 = threshold s"
  shows "mode (fold failure (ts @ [t]) s) = CircuitOpen \<and> last_failure (fold failure (ts @ [t]) s) = t \<and>
    reset (fold failure (ts @ [t]) s) = reset s \<and> half_max (fold failure (ts @ [t]) s) = half_max s"
proof -
  have "failures s + int (length ts) < threshold s" using assms(2,3) by simp
  note c = failures_count [OF assms(1) this]
  then show ?thesis using failure_closed [of "fold failure ts s" t] assms(2,3) by simp
qed

lemma closes:
  "mode s = CircuitHalfOpen \<Longrightarrow> successes s + int n = half_max s \<Longrightarrow> 0 < n \<Longrightarrow> mode ((success ^^ n) s) = CircuitClosed"
proof (induction n arbitrary: s)
  case (Suc n)
  show ?case
  proof (cases n)
    case 0
    then show ?thesis using Suc.prems success_half [OF Suc.prems(1)] by simp
  next
    case (Suc k)
    then have "mode (success s) = CircuitHalfOpen" "successes (success s) + int n = half_max (success s)"
      using Suc.prems success_half [OF Suc.prems(1)] by simp_all
    from Suc.IH [OF this] show ?thesis using Suc by (simp add: funpow_swap1)
  qed
qed simp

lemma recovers:
  assumes "mode s = CircuitOpen" and "reset s < time_sub now (last_failure s)" and "0 < half_max s"
  shows "fst (allow now s) \<and> mode ((success ^^ nat (half_max s)) (snd (allow now s))) = CircuitClosed"
  using allow_probe [OF assms(1,2)] assms(3) closes [of "snd (allow now s)" "nat (half_max s)"] by simp

end

interpretation proxy: breaker cb_state cb_failures cb_successes cb_threshold cb_halfOpenMax cb_lastFailureTime cb_resetTimeout
    AllowRequest cb_RecordSuccess cb_RecordFailure
  by unfold_locales (auto simp: AllowRequest_def cb_RecordSuccess_def cb_RecordFailure_def Let_def split: CircuitState.split)

interpretation sink: breaker br_state br_failures br_successes br_threshold br_halfOpenMax br_lastFailureTime br_resetTimeout
    br_Allow br_RecordSuccess br_RecordFailure
  by unfold_locales (auto simp: br_Allow_def br_RecordSuccess_def br_RecordFailure_def Let_def split: CircuitState.split)

section \<open>Where they differ\<close>

lemma sink_probe_failure: "br_state b = CircuitHalfOpen \<Longrightarrow> br_state (br_RecordFailure now b) = CircuitOpen"
  by (simp add: br_RecordFailure_def Let_def)

text \<open>
  The proxy's breaker stays half-open when a probe fails after another has succeeded, unless the threshold is
  one: the success has reset the count of failures.
\<close>

lemma proxy_probe_failure_ignored:
  assumes "cb_state cb = CircuitHalfOpen" and "cb_successes cb + 1 < cb_halfOpenMax cb" and "1 < cb_threshold cb"
  shows "cb_state (cb_RecordFailure now (cb_RecordSuccess cb)) = CircuitHalfOpen"
  using assms by (simp add: cb_RecordFailure_def cb_RecordSuccess_def Let_def)

text \<open>\<^verbatim>\<open>IsOpen\<close> is what \<^verbatim>\<open>AllowRequest\<close> refuses.\<close>

lemma IsOpen_iff_refused: "cb_IsOpen now cb \<longleftrightarrow> \<not> fst (AllowRequest now cb)"
  by (auto simp: cb_IsOpen_def AllowRequest_def split: CircuitState.split)

section \<open>Properties\<close>

text \<open>
  C20: both breakers trip, block and recover.  A new breaker opens with the failure that makes \<open>threshold\<close> of
  them in a row, not before; it then refuses until the reset time has passed since that failure, changing
  nothing; the first call after that is let through, and \<open>halfOpenMax\<close> successes close it again.
\<close>

theorem breakers_cycle:
  assumes "0 < Threshold cfg" and "0 < ResetTimeout cfg" and "0 < HalfOpenMax cfg"
    and "int (length ts) + 1 = Threshold cfg"
    and "cb = fold cb_RecordFailure (ts @ [t]) (NewCircuitBreaker cfg)" and "b = fold br_RecordFailure (ts @ [t]) (NewBreaker cfg)"
  shows "cb_state (fold cb_RecordFailure ts (NewCircuitBreaker cfg)) = CircuitClosed \<and> br_state (fold br_RecordFailure ts (NewBreaker cfg)) = CircuitClosed \<and>
    (if time_sub now t \<le> ResetTimeout cfg
     then AllowRequest now cb = (False, cb) \<and> br_Allow now b = (False, b)
     else fst (AllowRequest now cb) \<and> cb_state ((cb_RecordSuccess ^^ nat (HalfOpenMax cfg)) (snd (AllowRequest now cb))) = CircuitClosed \<and>
          fst (br_Allow now b) \<and> br_state ((br_RecordSuccess ^^ nat (HalfOpenMax cfg)) (snd (br_Allow now b))) = CircuitClosed)"
proof -
  have n: "cb_state (NewCircuitBreaker cfg) = CircuitClosed" "cb_failures (NewCircuitBreaker cfg) = 0" "cb_threshold (NewCircuitBreaker cfg) = Threshold cfg"
    "cb_resetTimeout (NewCircuitBreaker cfg) = ResetTimeout cfg" "cb_halfOpenMax (NewCircuitBreaker cfg) = HalfOpenMax cfg"
    using assms(1-3) by (simp_all add: NewCircuitBreaker_def)
  have m: "br_state (NewBreaker cfg) = CircuitClosed" "br_failures (NewBreaker cfg) = 0" "br_threshold (NewBreaker cfg) = Threshold cfg"
    "br_resetTimeout (NewBreaker cfg) = ResetTimeout cfg" "br_halfOpenMax (NewBreaker cfg) = HalfOpenMax cfg"
    using assms(1-3) by (simp_all add: NewBreaker_def)
  have c: "cb_state cb = CircuitOpen" "cb_lastFailureTime cb = t" "cb_resetTimeout cb = ResetTimeout cfg" "cb_halfOpenMax cb = HalfOpenMax cfg"
    using proxy.trips [OF n(1,2), of ts t] assms(4) unfolding assms(5) n(3-5) by simp_all
  have d: "br_state b = CircuitOpen" "br_lastFailureTime b = t" "br_resetTimeout b = ResetTimeout cfg" "br_halfOpenMax b = HalfOpenMax cfg"
    using sink.trips [OF m(1,2), of ts t] assms(4) unfolding assms(6) m(3-5) by simp_all
  show ?thesis
    using proxy.failures_count [OF n(1), of ts] sink.failures_count [OF m(1), of ts] n m c d assms(3,4)
      proxy.allow_open [OF c(1), of now] sink.allow_open [OF d(1), of now] proxy.recovers [OF c(1), of now] sink.recovers [OF d(1), of now]
    by (simp add: not_less)
qed

theorem breakers_cycle_witness:
  "AllowRequest 40 (fold cb_RecordFailure [1, 2, 3, 4, 5] (NewCircuitBreaker DefaultCircuitBreakerConfig)) =
     (False, fold cb_RecordFailure [1, 2, 3, 4, 5] (NewCircuitBreaker DefaultCircuitBreakerConfig)) \<and>
   br_state ((br_RecordSuccess ^^ 2) (snd (br_Allow 40000000000 (fold br_RecordFailure [1, 2, 3, 4, 5] (NewBreaker DefaultCircuitBreakerConfig))))) = CircuitClosed"
proof -
  note c = breakers_cycle [of DefaultCircuitBreakerConfig "[1, 2, 3, 4]" _ 5, OF _ _ _ _ refl refl]
  have t: "time_sub 40 5 \<le> 30 * ns_second" "\<not> time_sub 40000000000 5 \<le> 30 * ns_second" by (simp_all add: time_sub_def)
  show ?thesis using c [of 40] c [of 40000000000] t by (simp add: DefaultCircuitBreakerConfig_def)
qed

end
