(* ===== verification/Policy.thy ===== *)
theory Policy
  imports CostCalc Breaker "HOL-Library.AList"
begin

text \<open>
  Which model a caller may use and where a request may go: the allowlist of models with its glob patterns
  (\<^verbatim>\<open>pkg/proxy/policy.go\<close>), the access tags and tenants of a model (\<^verbatim>\<open>pkg/proxy/access_gates.go\<close>), the static
  catalog (\<^verbatim>\<open>pkg/catalog/config_store.go\<close>), and the fallback chains of providers
  (\<^verbatim>\<open>pkg/proxy/fallback.go\<close>) with the gates \<^verbatim>\<open>handleProxy\<close> puts in front of them.
\<close>

section \<open>Glob patterns\<close>

fun glob_rest :: "string list \<Rightarrow> string \<Rightarrow> bool" where
  "glob_rest [] name = True"
| "glob_rest [p] name = HasSuffix name p"
| "glob_rest (p # q # ps) name =
     (case Index name p of None \<Rightarrow> False | Some idx \<Rightarrow> glob_rest (q # ps) (drop (idx + length p) name))"

definition matchGlob :: "string \<Rightarrow> string \<Rightarrow> bool" where
  "matchGlob pattern name =
     (case split_on (CHR ''*'') pattern of
        [_] \<Rightarrow> pattern = name
      | p # ps \<Rightarrow> HasPrefix name p \<and> glob_rest ps (drop (length p) name)
      | [] \<Rightarrow> False)"

section \<open>The allowlist\<close>

record ProviderModels =
  pm_Provider :: string
  pm_Models :: "string list"

type_synonym ModelPolicy = "(string \<times> string list) list"

fun policy_rules :: "ProviderModels list \<Rightarrow> ModelPolicy \<Rightarrow> ModelPolicy option" where
  "policy_rules [] rules = Some rules"
| "policy_rules (pm # pms) rules =
     (if pm_Models pm = [] then None else policy_rules pms (AList.update (ToLower (pm_Provider pm)) (pm_Models pm) rules))"

text \<open>\<open>None\<close> is the error of an empty list of models; the policy \<open>None\<close> allows everything.\<close>

definition NewModelPolicy :: "ProviderModels list option \<Rightarrow> ModelPolicy option option" where
  "NewModelPolicy cfg =
     (case cfg of
        None \<Rightarrow> Some None
      | Some rules \<Rightarrow> if rules = [] then Some None else map_option Some (policy_rules rules []))"

definition policy_IsAllowed :: "ModelPolicy option \<Rightarrow> string \<Rightarrow> string \<Rightarrow> bool" where
  "policy_IsAllowed policy provider model =
     (case policy of
        None \<Rightarrow> True
      | Some rules \<Rightarrow>
          (case map_of rules (ToLower provider) of
             None \<Rightarrow> False
           | Some patterns \<Rightarrow> list_ex (\<lambda>p. matchGlob (ToLower p) (ToLower model)) patterns))"

section \<open>Access gates\<close>

text \<open>\<open>True\<close> is access granted.\<close>

definition checkAccessTags :: "string list \<Rightarrow> string list \<Rightarrow> bool" where
  "checkAccessTags userTags requiredAccess \<longleftrightarrow>
     (if requiredAccess = [] then True
      else if userTags = [] then False
      else list_ex (\<lambda>t. t \<in> set requiredAccess) userTags)"

definition checkTenantAccess :: "string \<Rightarrow> string list \<Rightarrow> bool" where
  "checkTenantAccess tenantID allowedTenants \<longleftrightarrow>
     (if allowedTenants = [] then True
      else if tenantID = [] then False
      else tenantID \<in> set allowedTenants)"

section \<open>Fallback providers\<close>

record FallbackChain =
  fc_ModelPrefix :: string
  fc_Providers :: "string list"

record FallbackResolver =
  fr_chains :: "FallbackChain list"
  fr_providers :: "(string \<times> string) list"
  fr_enabled :: bool

text \<open>A provider is represented by its name.  \<^verbatim>\<open>sort.SliceStable\<close> by decreasing length of the prefix.\<close>

definition NewFallbackResolver :: "bool \<Rightarrow> FallbackChain list \<Rightarrow> string list \<Rightarrow> FallbackResolver" where
  "NewFallbackResolver enabled cs providers =
     \<lparr>fr_chains = sort_key (\<lambda>c. - int (length (fc_ModelPrefix c))) cs,
      fr_providers = fold (\<lambda>p. AList.update (ToLower p) p) providers [],
      fr_enabled = enabled\<rparr>"

definition known_providers :: "FallbackResolver \<Rightarrow> string list \<Rightarrow> string list" where
  "known_providers r names = List.map_filter (\<lambda>n. map_of (fr_providers r) (ToLower n)) names"

text \<open>The providers after the first occurrence of the primary; all of them when it does not occur.\<close>

fun after_primary :: "string \<Rightarrow> string list \<Rightarrow> string list option" where
  "after_primary primary [] = None"
| "after_primary primary (n # ns) = (if ToLower n = ToLower primary then Some ns else after_primary primary ns)"

definition FallbackProviders :: "FallbackResolver \<Rightarrow> string \<Rightarrow> string \<Rightarrow> string list" where
  "FallbackProviders r model primary =
     (if \<not> fr_enabled r then []
      else case find (\<lambda>c. HasPrefix (ToLower model) (ToLower (fc_ModelPrefix c))) (fr_chains r) of
             None \<Rightarrow> []
           | Some c \<Rightarrow> known_providers r (case after_primary primary (fc_Providers c) of None \<Rightarrow> fc_Providers c | Some ns \<Rightarrow> ns))"

text \<open>
  The list of attempts of \<^verbatim>\<open>handleProxy\<close>: the primary, then the fallback providers that pass the gates.  The
  price resolution and the allowlist are those of the request, \<open>canonical\<close> is \<^verbatim>\<open>pricingProvider\<close>.
\<close>

definition provider_attempts ::
    "gotime \<Rightarrow> Calculator \<Rightarrow> (string \<Rightarrow> string) \<Rightarrow> ModelPolicy option \<Rightarrow> (string \<times> CircuitBreaker) list \<Rightarrow> FallbackResolver option
      \<Rightarrow> string \<Rightarrow> string \<Rightarrow> string list" where
  "provider_attempts now calc canonical policy breakers resolver primary model =
     primary # (case resolver of
                  None \<Rightarrow> []
                | Some r \<Rightarrow>
                    filter (\<lambda>fp. \<not> (case map_of breakers fp of None \<Rightarrow> False | Some cb \<Rightarrow> cb_IsOpen now cb) \<and>
                        \<not> (model \<noteq> [] \<and> ToLower fp \<noteq> ''local'' \<and> \<not> HasPricing now calc (canonical fp) model) \<and>
                        \<not> (model \<noteq> [] \<and> \<not> policy_IsAllowed policy fp model))
                      (FallbackProviders r model primary))"

section \<open>What a pattern matches\<close>

text \<open>The usual meaning of a pattern: a star stands for any string, every other character for itself.\<close>

fun glob :: "string \<Rightarrow> string \<Rightarrow> bool" where
  "glob [] name \<longleftrightarrow> name = []"
| "glob (c # p) name \<longleftrightarrow>
     (if c = CHR ''*'' then list_ex (\<lambda>k. glob p (drop k name)) [0..<Suc (length name)]
      else case name of [] \<Rightarrow> False | d # n \<Rightarrow> c = d \<and> glob p n)"

lemma glob_star: "glob (CHR ''*'' # p) name \<longleftrightarrow> (\<exists>a b. name = a @ b \<and> glob p b)"
proof
  assume "glob (CHR ''*'' # p) name"
  then obtain k where "glob p (drop k name)" by (auto simp: list_ex_iff simp del: upt_Suc)
  then show "\<exists>a b. name = a @ b \<and> glob p b" by (metis append_take_drop_id)
next
  assume "\<exists>a b. name = a @ b \<and> glob p b"
  then obtain a b where "name = a @ b" "glob p b" by blast
  then have "length a \<in> set [0..<Suc (length name)]" "glob p (drop (length a) name)" by simp_all
  then show "glob (CHR ''*'' # p) name" unfolding glob.simps list_ex_iff by auto
qed

lemma glob_literal: "CHR ''*'' \<notin> set p \<Longrightarrow> glob (p @ q) name \<longleftrightarrow> (\<exists>m. name = p @ m \<and> glob q m)"
proof (induction p arbitrary: name)
  case (Cons c p)
  then show ?case by (cases name) auto
qed simp

text \<open>The parts between the stars, read in order.\<close>

fun parts_match :: "string list \<Rightarrow> string \<Rightarrow> bool" where
  "parts_match [] name \<longleftrightarrow> False"
| "parts_match [p] name \<longleftrightarrow> name = p"
| "parts_match (p # q # ps) name \<longleftrightarrow> (\<exists>a b. name = p @ a @ b \<and> parts_match (q # ps) b)"

lemma glob_parts: "ps \<noteq> [] \<Longrightarrow> \<forall>p \<in> set ps. CHR ''*'' \<notin> set p \<Longrightarrow> glob (join_on (CHR ''*'') ps) name \<longleftrightarrow> parts_match ps name"
proof (induction ps name rule: parts_match.induct)
  case (2 p name)
  then show ?case using glob_literal [of p "[]" name] by simp
next
  case (3 p q ps name)
  have star: "glob (CHR ''*'' # join_on (CHR ''*'') (q # ps)) m \<longleftrightarrow> (\<exists>a b. m = a @ b \<and> parts_match (q # ps) b)" for m
    unfolding glob_star using 3 by auto
  have lit: "CHR ''*'' \<notin> set p" using "3.prems" by simp
  show ?case using glob_literal [OF lit, of "CHR ''*'' # join_on (CHR ''*'') (q # ps)" name] by (auto simp: star simp del: glob.simps)
qed simp

text \<open>Searching the leftmost occurrence of a part loses nothing: what is left is longer than after any other.\<close>

lemma glob_rest_suffix: "ps \<noteq> [] \<Longrightarrow> glob_rest ps name \<longleftrightarrow> (\<exists>a b. name = a @ b \<and> parts_match ps b)"
proof (induction ps name rule: glob_rest.induct)
  case (2 p name)
  then show ?case by (auto simp: HasSuffix_iff)
next
  case (3 p q ps name)
  show ?case
  proof (cases "Index name p")
    case None
    then have "\<nexists>a b. name = a @ p @ b" by (simp add: Index_None_iff)
    then show ?thesis using None by (auto simp: append_assoc)
  next
    case (Some i)
    note split = Index_Some [OF Some]
    have IH: "glob_rest (p # q # ps) name \<longleftrightarrow> (\<exists>a b. drop (i + length p) name = a @ b \<and> parts_match (q # ps) b)"
      using "3.IH" [OF Some] Some by simp
    have "\<exists>a' b. drop (i + length p) name = a' @ b \<and> parts_match (q # ps) b"
      if n: "name = x @ p @ a @ b" "parts_match (q # ps) b" for x a b
    proof -
      have "i \<le> length x" using Index_leftmost [OF n(1)] Some by simp
      then have "drop (i + length p) name = drop (i + length p) (x @ p @ a) @ b" using n(1) by simp
      then show ?thesis using n(2) by blast
    qed
    moreover have "\<exists>a b. name = a @ b \<and> parts_match (p # q # ps) b"
      if "drop (i + length p) name = a @ b" "parts_match (q # ps) b" for a b
      using split that by (metis parts_match.simps(3))
    ultimately show ?thesis unfolding IH by (metis parts_match.simps(3))
  qed
qed simp

lemma matchGlob_glob: "matchGlob pattern name \<longleftrightarrow> glob pattern name"
proof -
  let ?ps = "split_on (CHR ''*'') pattern"
  have "glob pattern name \<longleftrightarrow> parts_match ?ps name"
    using glob_parts [of ?ps name] split_on_no_sep by (auto simp: join_split_on)
  also have "\<dots> \<longleftrightarrow> matchGlob pattern name"
  proof (cases "(?ps, name)" rule: parts_match.cases)
    case (2 p n)
    then have "pattern = p" using join_split_on [of "CHR ''*''" pattern] by simp
    then show ?thesis using 2 by (auto simp: matchGlob_def)
  next
    case (3 p q ps n)
    then have ps: "?ps = p # q # ps" by simp
    have "matchGlob pattern name \<longleftrightarrow> (\<exists>m. name = p @ m \<and> glob_rest (q # ps) m)"
      by (auto simp: matchGlob_def ps HasPrefix_iff)
    also have "\<dots> \<longleftrightarrow> parts_match ?ps name" unfolding ps by (simp add: glob_rest_suffix) blast
    finally show ?thesis by simp
  qed simp
  finally show ?thesis by simp
qed

section \<open>Property\<close>

lemma policy_rules_lookup:
  "policy_rules pms rules = Some rules' \<Longrightarrow>
     map_of rules' k = (case map_of (rev (map (\<lambda>pm. (ToLower (pm_Provider pm), pm_Models pm)) pms)) k of None \<Rightarrow> map_of rules k | Some ps \<Rightarrow> Some ps)"
proof (induction pms arbitrary: rules)
  case (Cons pm pms)
  then show ?case by (auto split: if_splits option.split simp: map_add_def)
qed simp

text \<open>
  C8: the allowlist means what its patterns say.  A model is allowed by a configured policy exactly when the last
  rule of its provider has a pattern that matches it, a star standing for any string and letters compared without
  case; the search for the parts of a pattern from left to right decides this match.
\<close>

theorem policy_exact:
  assumes "NewModelPolicy (Some cfg) = Some policy" and "cfg \<noteq> []"
  shows "policy_IsAllowed policy provider model \<longleftrightarrow>
    (\<exists>patterns pattern. map_of (rev (map (\<lambda>pm. (ToLower (pm_Provider pm), pm_Models pm)) cfg)) (ToLower provider) = Some patterns \<and>
       pattern \<in> set patterns \<and> glob (ToLower pattern) (ToLower model))"
proof -
  obtain rules where r: "policy_rules cfg [] = Some rules" "policy = Some rules"
    using assms by (auto simp: NewModelPolicy_def)
  show ?thesis using policy_rules_lookup [OF r(1), of "ToLower provider"]
    by (auto simp: r(2) policy_IsAllowed_def list_ex_iff matchGlob_glob split: option.splits)
qed

theorem policy_exact_witness:
  "policy_IsAllowed (Some [(''openai'', [''gpt-4*mini''])]) ''OpenAI'' ''GPT-4.1-mini''"
proof -
  let ?cfg = "[\<lparr>pm_Provider = ''openai'', pm_Models = [''gpt-4*mini'']\<rparr>]"
  have n: "NewModelPolicy (Some ?cfg) = Some (Some [(''openai'', [''gpt-4*mini''])])" by code_simp
  have m: "map_of (rev (map (\<lambda>pm. (ToLower (pm_Provider pm), pm_Models pm)) ?cfg)) (ToLower ''OpenAI'') = Some [''gpt-4*mini'']" by code_simp
  have g: "glob (ToLower ''gpt-4*mini'') (ToLower ''GPT-4.1-mini'')" by code_simp
  show ?thesis using policy_exact [OF n, of "''OpenAI''" "''GPT-4.1-mini''"] m g by auto
qed

end
