(* ===== verification/Outbox.thy ===== *)
theory Outbox
  imports SpendControl
begin

text \<open>
  The charge of a finished request and its retries: \<^verbatim>\<open>deductBudget\<close> of \<^verbatim>\<open>pkg/proxy/proxy.go\<close>, the durable
  queue of failed charges (\<^verbatim>\<open>pkg/proxy/spendoutbox/outbox.go\<close>) and the worker that retries them
  (\<^verbatim>\<open>pkg/proxy/spendoutbox/worker.go\<close>).

  The billing store is a state \<open>'u\<close> with the two operations the code calls, each returning whether it
  succeeded.  The queue is the list of its rows in the order of insertion; \<^verbatim>\<open>created_at\<close> and
  \<^verbatim>\<open>next_retry_at\<close> are kept as times and compared as the fixed-width text the table holds.  Every database
  statement can fail (an argument says which do), a random identifier is an argument, and the context of
  a charge may end while it waits to retry.  SQLite stores a NaN as NULL, which the table refuses.
  The timestamp of the last activity and the notification that follow a charge are best effort and left out.
\<close>

section \<open>The queue (outbox.go)\<close>

record SpendRecord =
  sr_ID :: string
  sr_UserID :: string
  sr_TaskID :: string
  sr_CostUSD :: f64
  sr_Tokens :: i64
  sr_AttemptCount :: int
  sr_CreatedAt :: gotime

record outbox_row = SpendRecord +
  sr_NextRetryAt :: gotime

type_synonym Outbox = "outbox_row list"

datatype outbox_error = IdGenerationFailed | NegativeCost f64 | InsertFailed

definition Enqueue :: "bool \<Rightarrow> gotime \<Rightarrow> string option \<Rightarrow> SpendRecord \<Rightarrow> Outbox \<Rightarrow> (outbox_error + unit) \<times> Outbox" where
  "Enqueue flt now random_id rec q =
     (case (if sr_ID rec = [] then random_id else Some (sr_ID rec)) of
        None \<Rightarrow> (Inl IdGenerationFailed, q)
      | Some i \<Rightarrow>
          if sr_CostUSD rec < 0 then (Inl (NegativeCost (sr_CostUSD rec)), q)
          else let created = (if sr_CreatedAt rec = 0 then now else sr_CreatedAt rec)
               in if flt \<or> sr_CostUSD rec = NaN \<or> i \<in> sr_ID ` set q then (Inl InsertFailed, q)
                  else (Inr (), q @ [\<lparr>sr_ID = i, sr_UserID = sr_UserID rec, sr_TaskID = sr_TaskID rec, sr_CostUSD = sr_CostUSD rec,
                                      sr_Tokens = sr_Tokens rec, sr_AttemptCount = sr_AttemptCount rec, sr_CreatedAt = created,
                                      sr_NextRetryAt = created\<rparr>]))"

definition row_due :: "gotime \<Rightarrow> outbox_row \<Rightarrow> bool" where
  "row_due now r \<longleftrightarrow> sqlite_time (sr_NextRetryAt r) \<le> sqlite_time now"

definition cost_credible :: "outbox_row \<Rightarrow> bool" where
  "cost_credible r \<longleftrightarrow> \<not> sr_CostUSD r < 0 \<and> \<not> Fin 1000 < sr_CostUSD r"

definition Peek :: "gotime \<Rightarrow> nat \<Rightarrow> Outbox \<Rightarrow> outbox_row list" where
  "Peek now limit q = filter cost_credible (take limit (sort_key (\<lambda>r. sqlite_time (sr_CreatedAt r)) (filter (row_due now) q)))"

definition chunkSize :: nat where
  "chunkSize = 500"

text \<open>\<^verbatim>\<open>Delete\<close> and \<^verbatim>\<open>IncrementAttempt\<close> run one statement per chunk; a failing one ends the loop.\<close>

function Delete_from :: "(nat \<Rightarrow> bool) \<Rightarrow> nat \<Rightarrow> string list \<Rightarrow> Outbox \<Rightarrow> bool \<times> Outbox" where
  "Delete_from flt k ids q =
     (if ids = [] then (True, q)
      else if flt k then (False, q)
      else Delete_from flt (k + 1) (drop chunkSize ids) (filter (\<lambda>r. sr_ID r \<notin> set (take chunkSize ids)) q))"
  by pat_completeness auto
termination by (relation "measure (\<lambda>(flt, k, ids, q). length ids)") (auto simp: chunkSize_def)

definition Delete :: "(nat \<Rightarrow> bool) \<Rightarrow> string list \<Rightarrow> Outbox \<Rightarrow> bool \<times> Outbox" where
  "Delete flt ids q = Delete_from flt 0 ids q"

function Increment_from :: "(nat \<Rightarrow> bool) \<Rightarrow> gotime \<Rightarrow> nat \<Rightarrow> string list \<Rightarrow> Outbox \<Rightarrow> bool \<times> Outbox" where
  "Increment_from flt now k ids q =
     (if ids = [] then (True, q)
      else if flt k then (False, q)
      else Increment_from flt now (k + 1) (drop chunkSize ids)
             (map (\<lambda>r. if sr_ID r \<in> set (take chunkSize ids) then r\<lparr>sr_AttemptCount := sr_AttemptCount r + 1, sr_NextRetryAt := now\<rparr> else r) q))"
  by pat_completeness auto
termination by (relation "measure (\<lambda>(flt, now, k, ids, q). length ids)") (auto simp: chunkSize_def)

definition IncrementAttempt :: "(nat \<Rightarrow> bool) \<Rightarrow> gotime \<Rightarrow> string list \<Rightarrow> Outbox \<Rightarrow> bool \<times> Outbox" where
  "IncrementAttempt flt now ids q = Increment_from flt now 0 ids q"

declare Delete_from.simps [simp del] Increment_from.simps [simp del]

text \<open>The delay of the next retry: the loop doubles ten seconds, at most ten times.\<close>

fun double_delay :: "nat \<Rightarrow> duration \<Rightarrow> duration" where
  "double_delay 0 d = d"
| "double_delay (Suc n) d = double_delay n (d * 2)"

definition backoffDelay :: "int \<Rightarrow> duration" where
  "backoffDelay attempt = min (double_delay (nat (min attempt 10)) (10 * ns_second)) ns_hour"

definition RetryLater :: "bool \<Rightarrow> gotime \<Rightarrow> string \<Rightarrow> int \<Rightarrow> Outbox \<Rightarrow> Outbox" where
  "RetryLater flt now i currentAttempt q =
     (if flt then q
      else map (\<lambda>r. if sr_ID r = i then r\<lparr>sr_AttemptCount := sr_AttemptCount r + 1, sr_NextRetryAt := now + backoffDelay currentAttempt\<rparr> else r) q)"

definition Outbox_Pending :: "Outbox \<Rightarrow> nat" where
  "Outbox_Pending q = length q"

section \<open>The worker (worker.go)\<close>

type_synonym 'u deduct = "string \<Rightarrow> f64 \<Rightarrow> i64 \<Rightarrow> 'u \<Rightarrow> bool \<times> 'u"
type_synonym 'u task_deduct = "string \<Rightarrow> f64 \<Rightarrow> 'u \<Rightarrow> bool \<times> 'u"

definition worker_maxAge :: duration where
  "worker_maxAge = 24 * ns_hour"

text \<open>One record: dropped when too old, else charged to its task and then to its user.\<close>

definition process_record ::
    "(string \<Rightarrow> bool) \<Rightarrow> gotime \<Rightarrow> 'u deduct \<Rightarrow> 'u task_deduct \<Rightarrow> outbox_row \<Rightarrow> 'u \<times> Outbox \<times> string list \<Rightarrow> 'u \<times> Outbox \<times> string list" where
  "process_record retry_flt now ded tsk rec = (\<lambda>(u, q, deleteIDs).
     if worker_maxAge < time_sub now (sr_CreatedAt rec) then (u, q, deleteIDs @ [sr_ID rec])
     else let u1 = (if sr_TaskID rec \<noteq> [] then snd (tsk (sr_TaskID rec) (sr_CostUSD rec) u) else u)
          in case ded (sr_UserID rec) (sr_CostUSD rec) (sr_Tokens rec) u1 of
               (True, u2) \<Rightarrow> (u2, q, deleteIDs @ [sr_ID rec])
             | (False, u2) \<Rightarrow> (u2, RetryLater (retry_flt (sr_ID rec)) now (sr_ID rec) (sr_AttemptCount rec) q, deleteIDs))"

definition processRetries ::
    "bool \<Rightarrow> (string \<Rightarrow> bool) \<Rightarrow> (nat \<Rightarrow> bool) \<Rightarrow> gotime \<Rightarrow> 'u deduct \<Rightarrow> 'u task_deduct \<Rightarrow> 'u \<times> Outbox \<Rightarrow> 'u \<times> Outbox" where
  "processRetries peek_flt retry_flt delete_flt now ded tsk = (\<lambda>(u, q).
     if peek_flt then (u, q)
     else case fold (process_record retry_flt now ded tsk) (Peek now 100 q) (u, q, []) of
            (u', q', deleteIDs) \<Rightarrow> (u', snd (Delete delete_flt deleteIDs q')))"

section \<open>The charge of a finished request (proxy.go)\<close>

definition pricingProvider :: "string \<Rightarrow> string" where
  "pricingProvider provider =
     (if provider \<in> {''gemini-vertex'', ''gemini-oai''} then ''google''
      else if provider \<in> {''anthropic-vertex'', ''anthropic-direct'', ''anthropic-bedrock''} then ''anthropic''
      else provider)"

definition isServiceAccountID :: "string \<Rightarrow> bool" where
  "isServiceAccountID i = HasSuffix i ''.iam.gserviceaccount.com''"

record 'u billing_state =
  b_users :: "'u option"
  b_outbox :: "Outbox option"
  b_tracker :: "SpendTracker option"
  b_calc :: Calculator
  saSpendMicroUSD :: i64

datatype 'u deduct_outcome = DeductCancelled 'u | DeductFailed 'u | DeductDone 'u

definition maxDeductAttempts :: nat where
  "maxDeductAttempts = 3"

text \<open>\<open>cancelled k\<close>: the context ends while the code waits before attempt \<open>k\<close>.\<close>

function deduct_attempts :: "(nat \<Rightarrow> bool) \<Rightarrow> (nat \<Rightarrow> 'u \<Rightarrow> bool \<times> 'u) \<Rightarrow> nat \<Rightarrow> 'u \<Rightarrow> 'u deduct_outcome" where
  "deduct_attempts cancelled ded k u =
     (if maxDeductAttempts \<le> k then DeductFailed u
      else if 0 < k \<and> cancelled k then DeductCancelled u
      else case ded k u of
             (True, u') \<Rightarrow> DeductDone u'
           | (False, u') \<Rightarrow> deduct_attempts cancelled ded (k + 1) u')"
  by pat_completeness auto
termination by (relation "measure (\<lambda>(cancelled, ded, k, u). maxDeductAttempts - k)") auto

declare deduct_attempts.simps [simp del]

definition request_cost :: "gotime \<Rightarrow> string \<Rightarrow> string \<Rightarrow> i64 \<Rightarrow> i64 \<Rightarrow> duration \<Rightarrow> Calculator \<Rightarrow> f64 \<times> Calculator" where
  "request_cost now provider model inputTokens outputTokens d c =
     (case Calculate now (pricingProvider provider) model inputTokens outputTokens c of
        (cost, c') \<Rightarrow> (if feq cost 0 then CalculateTimeBased now (pricingProvider provider) model d c' else cost, c'))"

definition enqueue_spend :: "bool \<Rightarrow> gotime \<Rightarrow> string option \<Rightarrow> string \<Rightarrow> string \<Rightarrow> f64 \<Rightarrow> i64 \<Rightarrow> Outbox option \<Rightarrow> Outbox option" where
  "enqueue_spend flt now random_id userID taskID cost tokens ob =
     map_option (\<lambda>q. snd (Enqueue flt now random_id
       \<lparr>sr_ID = [], sr_UserID = userID, sr_TaskID = taskID, sr_CostUSD = cost, sr_Tokens = tokens, sr_AttemptCount = 0, sr_CreatedAt = 0\<rparr> q)) ob"

text \<open>The charge itself: the user, then the task; what fails goes to the queue.\<close>

definition charge_request ::
    "(nat \<Rightarrow> bool) \<Rightarrow> bool \<Rightarrow> gotime \<Rightarrow> string option \<Rightarrow> 'u deduct \<Rightarrow> 'u task_deduct \<Rightarrow> string \<Rightarrow> string \<Rightarrow> f64 \<Rightarrow> i64
      \<Rightarrow> 'u \<times> Outbox option \<Rightarrow> 'u \<times> Outbox option" where
  "charge_request cancelled flt now random_id ded tsk userID jobID cost totalTokens = (\<lambda>(u, ob).
     case deduct_attempts cancelled (\<lambda>k. ded userID cost totalTokens) 0 u of
       DeductCancelled u' \<Rightarrow> (u', ob)
     | DeductFailed u' \<Rightarrow> (u', enqueue_spend flt now random_id userID jobID cost totalTokens ob)
     | DeductDone u' \<Rightarrow>
         if jobID \<noteq> [] \<and> 0 < cost then
           (case tsk jobID cost u' of
              (True, u'') \<Rightarrow> (u'', ob)
            | (False, u'') \<Rightarrow> (u'', enqueue_spend flt now random_id userID jobID cost 0 ob))
         else (u', ob))"

definition deductBudget ::
    "(nat \<Rightarrow> bool) \<Rightarrow> bool \<Rightarrow> gotime \<Rightarrow> string option \<Rightarrow> 'u deduct \<Rightarrow> 'u task_deduct \<Rightarrow> SpendLimitConfig list
      \<Rightarrow> string \<Rightarrow> string \<Rightarrow> string \<Rightarrow> string \<Rightarrow> i64 \<Rightarrow> i64 \<Rightarrow> duration \<Rightarrow> 'u billing_state \<Rightarrow> 'u billing_state" where
  "deductBudget cancelled flt now random_id ded tsk limits provider model userID jobID inputTokens outputTokens d b =
     (case b_users b of
        None \<Rightarrow> b
      | Some u \<Rightarrow>
          if userID = [] then b
          else let i = max 0 inputTokens; out = max 0 outputTokens; totalTokens = wrap64 (i + out);
                   (cost, c') = request_cost now provider model i out d (b_calc b);
                   sa = (if isServiceAccountID userID \<and> (0 < cost \<or> 0 < totalTokens)
                         then wrap64 (saSpendMicroUSD b + to_i64 (fround (cost * Fin 1000000))) else saSpendMicroUSD b);
                   tr = (if 0 < cost then map_option (Record now userID model cost limits) (b_tracker b) else b_tracker b);
                   b1 = b\<lparr>b_calc := c', saSpendMicroUSD := sa, b_tracker := tr\<rparr>
               in if cost \<le> 0 \<and> totalTokens \<le> 0 then b1
                  else case charge_request cancelled flt now random_id ded tsk userID jobID cost totalTokens (u, b_outbox b) of
                         (u', ob') \<Rightarrow> b1\<lparr>b_users := Some u', b_outbox := ob'\<rparr>)"

section \<open>Facts about the queue\<close>

lemma Delete_all: "Delete (\<lambda>_. False) ids q = (True, filter (\<lambda>r. sr_ID r \<notin> set ids) q)"
proof -
  have "Delete_from (\<lambda>_. False) k ids q = (True, filter (\<lambda>r. sr_ID r \<notin> set ids) q)" for k
  proof (induction "\<lambda>_ :: nat. False" k ids q rule: Delete_from.induct)
    case (1 k ids q)
    have "set ids = set (take chunkSize ids) \<union> set (drop chunkSize ids)" by (metis append_take_drop_id set_append)
    then show ?case
      using 1 by (subst Delete_from.simps) (auto simp: filter_filter conj_commute intro!: filter_cong)
  qed
  then show ?thesis by (simp add: Delete_def)
qed

lemma Peek_all: "length q \<le> n \<Longrightarrow> \<forall>r \<in> set q. row_due now r \<and> cost_credible r \<Longrightarrow> Peek now n q = sort_key (\<lambda>r. sqlite_time (sr_CreatedAt r)) q"
  by (simp add: Peek_def filter_id_conv)

lemma double_delay: "double_delay n d = d * 2 ^ n"
  by (induction n arbitrary: d) simp_all

text \<open>The delays grow from ten seconds to an hour.\<close>

lemma backoffDelay_range: "10 * ns_second \<le> backoffDelay a \<and> backoffDelay a \<le> ns_hour"
  by (simp add: backoffDelay_def double_delay)

lemma backoffDelay_mono: "a \<le> b \<Longrightarrow> backoffDelay a \<le> backoffDelay b"
  unfolding backoffDelay_def double_delay
  by (intro min.mono mult_left_mono power_increasing nat_mono) simp_all

text \<open>What one successful retry does to the billing store.\<close>

definition recharge :: "'u deduct \<Rightarrow> 'u task_deduct \<Rightarrow> outbox_row \<Rightarrow> 'u \<Rightarrow> 'u" where
  "recharge ded tsk r u =
     snd (ded (sr_UserID r) (sr_CostUSD r) (sr_Tokens r) (if sr_TaskID r \<noteq> [] then snd (tsk (sr_TaskID r) (sr_CostUSD r) u) else u))"

lemma process_records_ok:
  assumes "\<forall>i c n u. fst (ded i c n u)" and "\<forall>r \<in> set rs. time_sub now (sr_CreatedAt r) \<le> worker_maxAge"
  shows "fold (process_record rf now ded tsk) rs (u, q, ds) = (fold (recharge ded tsk) rs u, q, ds @ map sr_ID rs)"
  using assms(2)
proof (induction rs arbitrary: u ds)
  case (Cons r rs)
  define v where "v = (if sr_TaskID r \<noteq> [] then snd (tsk (sr_TaskID r) (sr_CostUSD r) u) else u)"
  obtain w where w: "ded (sr_UserID r) (sr_CostUSD r) (sr_Tokens r) v = (True, w)" using assms(1) by (metis prod.collapse)
  have "process_record rf now ded tsk r (u, q, ds) = (recharge ded tsk r u, q, ds @ [sr_ID r])"
    using Cons.prems w by (simp add: process_record_def recharge_def Let_def v_def)
  then show ?case using Cons.IH [of "recharge ded tsk r u" "ds @ [sr_ID r]"] Cons.prems by simp
qed simp

lemma attempt_next:
  "k < 3 \<Longrightarrow> \<not> cancelled k \<Longrightarrow>
     deduct_attempts cancelled d k u = (case d k u of (True, v) \<Rightarrow> DeductDone v | (False, v) \<Rightarrow> deduct_attempts cancelled d (Suc k) v)"
  unfolding Suc_eq_plus1 by (subst deduct_attempts.simps) (simp add: maxDeductAttempts_def)

lemma attempts_end: "deduct_attempts cancelled d (Suc (Suc (Suc 0))) u = DeductFailed u"
  by (subst deduct_attempts.simps) (simp add: maxDeductAttempts_def)

section \<open>Findings\<close>

text \<open>
  Rows that \<^verbatim>\<open>Peek\<close> rejects for their cost still use up its limit, and nothing removes them: once the hundred
  oldest due rows are such rows, the worker does nothing any more.
\<close>

lemma rejected_rows_starve:
  assumes "\<forall>r \<in> set (take 100 (sort_key (\<lambda>r. sqlite_time (sr_CreatedAt r)) (filter (row_due now) q))). \<not> cost_credible r"
  shows "processRetries pf rf (\<lambda>_. False) now ded tsk (u, q) = (u, q)"
proof -
  have "Peek now 100 q = []" using assms by (simp add: Peek_def filter_empty_conv)
  then show ?thesis by (simp add: processRetries_def Delete_all)
qed

text \<open>While the charge of the user keeps failing, every retry charges the task again.\<close>

lemma task_charged_per_retry:
  assumes "row_due now r" "cost_credible r" "time_sub now (sr_CreatedAt r) \<le> worker_maxAge" "sr_TaskID r \<noteq> []"
    and "tsk (sr_TaskID r) (sr_CostUSD r) u = (True, u1)" and "ded (sr_UserID r) (sr_CostUSD r) (sr_Tokens r) u1 = (False, u2)"
  shows "processRetries False (\<lambda>_. False) (\<lambda>_. False) now ded tsk (u, [r]) =
    (u2, [r\<lparr>sr_AttemptCount := sr_AttemptCount r + 1, sr_NextRetryAt := now + backoffDelay (sr_AttemptCount r)\<rparr>])"
  using assms by (simp add: processRetries_def Peek_all process_record_def Let_def RetryLater_def Delete_all)

section \<open>Properties\<close>


text \<open>A billing store that notes the charges it makes.\<close>

definition demo_ded :: "(string \<times> f64) list deduct" where
  "demo_ded i c n u = (True, u @ [(i, c)])"

definition demo_tsk :: "(string \<times> f64) list task_deduct" where
  "demo_tsk i c u = (False, u)"

definition demo_spend :: "gotime \<Rightarrow> string \<Rightarrow> outbox_row" where
  "demo_spend t i = \<lparr>sr_ID = i, sr_UserID = ''u'', sr_TaskID = [], sr_CostUSD = Fin 2, sr_Tokens = 7, sr_AttemptCount = 1, sr_CreatedAt = t, sr_NextRetryAt = t\<rparr>"



definition failing_ded :: "(string \<times> f64) list deduct" where
  "failing_ded i c n u = (False, u)"


text \<open>
  A charge is lost when its context ends between two attempts: after a failed first attempt the charge is
  neither made nor queued, and the state is what the failed attempt left.
\<close>

lemma cancelled_charge_lost:
  assumes "cancelled 1" and "ded userID cost tokens u = (False, u')"
  shows "charge_request cancelled flt now random_id ded tsk userID jobID cost tokens (u, ob) = (u', ob)"
proof -
  have "deduct_attempts cancelled (\<lambda>k. ded userID cost tokens) 0 u = DeductCancelled u'"
    using assms by (subst deduct_attempts.simps) (subst deduct_attempts.simps, simp add: maxDeductAttempts_def)
  then show ?thesis by (simp add: charge_request_def)
qed

text \<open>
  A failed charge of a task charges the user twice.  The user is charged, the charge of the task fails and
  is queued with the user's identifier; the next round of the worker charges the task and then the user
  again, for the same cost.
\<close>

lemma failed_task_charges_user_twice:
  assumes "ded userID cost tokens u = (True, u1)" and "jobID \<noteq> []" and "0 < cost" and "cost \<le> Fin 1000"
    and "tsk jobID cost u1 = (False, u2)"
    and "sqlite_time now \<le> sqlite_time later" and "time_sub later now \<le> worker_maxAge"
    and "tsk jobID cost u2 = (ok, u3)" and "ded userID cost 0 u3 = (True, u4)"
  shows "(case charge_request (\<lambda>_. False) False now (Some i) ded tsk userID jobID cost tokens (u, Some []) of
      (v, ob) \<Rightarrow> processRetries False (\<lambda>_. False) (\<lambda>_. False) later ded tsk (v, the ob)) = (u4, [])"
proof -
  define r where "r = \<lparr>sr_ID = i, sr_UserID = userID, sr_TaskID = jobID, sr_CostUSD = cost, sr_Tokens = 0, sr_AttemptCount = 0,
    sr_CreatedAt = now, sr_NextRetryAt = now\<rparr>"
  have c: "\<not> cost < 0" "\<not> Fin 1000 < cost" "cost \<noteq> NaN" using assms(3,4) by (cases cost; simp add: zero_f64_def)+
  have "deduct_attempts (\<lambda>_. False) (\<lambda>k. ded userID cost tokens) 0 u = DeductDone u1"
    using assms(1) by (simp add: attempt_next)
  then have "charge_request (\<lambda>_. False) False now (Some i) ded tsk userID jobID cost tokens (u, Some []) = (u2, Some [r])"
    using assms(2,3,5) c by (simp add: charge_request_def enqueue_spend_def Enqueue_def Let_def r_def)
  moreover have "Peek later 100 [r] = [r]" using assms(6) c by (intro Peek_all [THEN trans]) (simp_all add: r_def row_due_def cost_credible_def)
  ultimately show ?thesis using assms(2,7-9)
    by (simp add: processRetries_def process_record_def Let_def r_def Delete_all)
qed

end
