(* ===== verification/StoreBehaviour.thy ===== *)
theory StoreBehaviour
  imports Ledger
begin

text \<open>
  The behaviour of the user store across operations: integrity of every reachable state, what
  deleting a user leaves behind, the round trip of a budget, and two places where the code does not do what its callers rely on: \<^verbatim>\<open>TouchLastSeen\<close> lifts a
  deactivation, and a revoked grant can stay active for the rest of a second.
\<close>

section \<open>Lookups after updates\<close>

lemma find_map: "(\<And>x. P (f x) = P x) \<Longrightarrow> find P (map f xs) = map_option f (find P xs)"
  by (induction xs) auto

lemma touch_GetUser:
  assumes "GetUser False i st = Inr u" and "u_ID u = normalizeID i"
  shows "GetUser False i (snd (TouchLastSeen False t i st)) = Inr (u\<lparr>u_LastSeenAt := t, u_Status := ''active''\<rparr>)"
proof -
  obtain v where v: "find (\<lambda>u. u_ID u = normalizeID i \<or> u_Email u = normalizeID i) (users st) = Some v" "u = scan_user v"
    using assms(1) by (auto simp: GetUser_def split: option.splits)
  have "u_ID v = normalizeID i" using assms(2) v(2) by (simp add: scan_user_def)
  then show ?thesis using v
    by (simp add: GetUser_def TouchLastSeen_def update_users_def find_map scan_user_def)
qed

lemma touch_other: "budget_configs (snd (TouchLastSeen f t i st)) = budget_configs st"
  "user_budgets (snd (TouchLastSeen f t i st)) = user_budgets st" "user_grants (snd (TouchLastSeen f t i st)) = user_grants st"
  by (simp_all add: TouchLastSeen_def update_users_def)

lemma CheckBalance_users: "CheckBalance flt loc now uid est sb (st\<lparr>users := us\<rparr>) = CheckBalance flt loc now uid est sb st"
proof -
  have "ListGrants g now uid True (st\<lparr>users := us\<rparr>) = ListGrants g now uid True st" for g
    by (simp add: ListGrants_def active_grants_def Let_def)
  moreover have rows: "budget_configs (st\<lparr>users := us\<rparr>) = budget_configs st" "user_budgets (st\<lparr>users := us\<rparr>) = user_budgets st"
    by simp_all
  have "GetBudget g loc now uid (st\<lparr>users := us\<rparr>) = GetBudget g loc now uid st" for g
    unfolding GetBudget_def rows by (rule refl)
  ultimately show ?thesis by (simp only: CheckBalance_def)
qed

lemma CheckBalance_touch: "CheckBalance flt loc now uid est sb (snd (TouchLastSeen f t i st)) = CheckBalance flt loc now uid est sb st"
  by (simp add: TouchLastSeen_def update_users_def CheckBalance_users)

lemma GetUser_normalize: "GetUser f (normalizeID i) st = GetUser f i st"
  by (simp add: GetUser_def)

lemma active_expiry: "g \<in> set (active_grants now uid st) \<Longrightarrow> formatTime now < formatTime (g_ExpiresAt g)"
  by (simp add: active_grants_def)

lemma revoke_rows: "user_grants (snd (RevokeGrant False t i gid st)) =
    map (\<lambda>h. if g_UserID h = normalizeID i \<and> g_ID h = gid then h\<lparr>g_ExpiresAt := t\<rparr> else h) (user_grants st)"
  by (simp add: RevokeGrant_def Let_def)

lemma revoked_expiry:
  assumes "g \<in> set (user_grants (snd (RevokeGrant False t i gid st)))" and "g_UserID g = normalizeID i" and "g_ID g = gid"
  shows "g_ExpiresAt g = t"
proof -
  obtain h where "g = (if g_UserID h = normalizeID i \<and> g_ID h = gid then h\<lparr>g_ExpiresAt := t\<rparr> else h)"
    using assms(1) unfolding revoke_rows set_map by (rule imageE)
  then show ?thesis using assms(2,3) by (cases "g_UserID h = normalizeID i \<and> g_ID h = gid") simp_all
qed

section \<open>Properties\<close>

text \<open>
  C4: every state the operations reach from the empty database is well formed: primary keys and
  e-mail addresses are unique, no row references a user that is gone, and no money column is a NaN,
  whatever the arguments are and whichever statements fail.
\<close>

theorem reachable_store_ok: "store_step\<^sup>*\<^sup>* empty_store st \<Longrightarrow> store_ok st"
  by (induction rule: rtranclp_induct) (auto simp: empty_store_ok intro: store_step_ok)

theorem reachable_store_ok_witness: "store_ok (snd (CreateUser (\<lambda>_. False) 1 demo_user empty_store))"
  by (rule reachable_store_ok) (rule r_into_rtranclp, rule store_step.CreateUser)

text \<open>
  Deleting a user removes the user and every budget, grant, model limit and audit entry of that
  user, so that a later \<^verbatim>\<open>GetBudget\<close> or \<^verbatim>\<open>ListGrants\<close> finds nothing.
\<close>

lemma delete_user_erases:
  "let st' = snd (DeleteUser False i st) in
     \<not> has_user st' (normalizeID i) \<and> normalizeID i \<notin> referenced st' \<and>
     GetBudget (\<lambda>_. False) loc now i st' = Inr None \<and> ListGrants False now i activeOnly st' = Inr []"
proof -
  let ?st' = "snd (DeleteUser False i st)"
  have "\<not> has_user ?st' (normalizeID i)" by (auto simp: DeleteUser_def Let_def has_user_def)
  moreover have r: "normalizeID i \<notin> referenced ?st'" using DeleteUser_refs [of i st] by auto
  moreover have "map_of (budget_configs ?st') (normalizeID i) = None"
    using r by (auto simp: referenced_def map_of_eq_None_iff)
  moreover have "filter (\<lambda>g. g_UserID g = normalizeID i \<and> P g) (user_grants ?st') = []" for P
  proof -
    have "normalizeID i \<notin> g_UserID ` set (user_grants ?st')" using r by (simp add: referenced_def)
    then show ?thesis unfolding filter_empty_conv by (metis imageI)
  qed
  from this this [of "\<lambda>_. True"] have "ListGrants False now i activeOnly ?st' = Inr []"
    by (simp add: ListGrants_def active_grants_def Let_def)
  ultimately show ?thesis by (simp add: Let_def GetBudget_def)
qed

text \<open>
  A budget that is set is read back: with the user present and no fault, \<^verbatim>\<open>GetBudget\<close> after
  \<^verbatim>\<open>SetBudget\<close> returns the new limit and period, and what was already spent in the period.
\<close>

lemma set_get_budget:
  assumes "b_UserID b \<noteq> []" and "has_user st (normalizeID (b_UserID b))" and "b_LimitUSD b \<noteq> NaN"
  shows "\<exists>r. GetBudget (\<lambda>_. False) loc now (b_UserID b) (snd (SetBudget (\<lambda>_. False) loc now b st)) = Inr (Some r) \<and>
    b_LimitUSD r = b_LimitUSD b \<and> b_PeriodType r = or_daily (b_PeriodType b) \<and>
    b_PeriodKey r = currentPeriodKey (or_daily (b_PeriodType b)) loc now \<and>
    b_SpentUSD r = spent_of (normalizeID (b_UserID b)) (b_PeriodKey r) st"
proof -
  have "or_daily (or_daily pt) = or_daily pt" for pt by (simp add: or_daily_def)
  then show ?thesis using assms
    by (auto simp: SetBudget_def GetBudget_def Let_def is_nan_def spent_of_def split: option.splits)
qed

text \<open>
  \<^verbatim>\<open>TouchLastSeen\<close> lifts a deactivation.  An inactive user is denied by \<^verbatim>\<open>CheckBudget\<close>; after
  \<^verbatim>\<open>TouchLastSeen\<close>, which the profile request of the user triggers, the verdict depends on the
  balance alone, as for an active user.
\<close>

lemma touch_lifts_deactivation:
  assumes "GetUser False i st = Inr u" and "u_ID u = normalizeID i" and "u_Status u = ''inactive''" and "\<not> flt CheckUser"
  shows "CheckBudget flt loc now i est st = Inr (denied ReasonNoBudget est) \<and>
    CheckBudget flt loc now i est (snd (TouchLastSeen False t i st)) = CheckBalance flt loc now (normalizeID i) est
      (\<not> flt CheckSoft \<and> (\<exists>c. map_of (budget_configs st) (normalizeID i) = Some c \<and> c_soft_blocked c)) st"
proof -
  have "GetUser (flt CheckUser) (normalizeID i) st = Inr u" using assms(1,4) by (simp add: GetUser_normalize)
  then have "CheckBudget flt loc now i est st = Inr (denied ReasonNoBudget est)"
    using assms(3) by (simp add: CheckBudget_def Let_def)
  moreover have "GetUser (flt CheckUser) (normalizeID i) (snd (TouchLastSeen False t i st)) = Inr (u\<lparr>u_LastSeenAt := t, u_Status := ''active''\<rparr>)"
    using touch_GetUser [OF assms(1,2)] assms(4) by (simp add: GetUser_normalize)
  then have "CheckBudget flt loc now i est (snd (TouchLastSeen False t i st)) = CheckBalance flt loc now (normalizeID i) est
      (\<not> flt CheckSoft \<and> (\<exists>c. map_of (budget_configs st) (normalizeID i) = Some c \<and> c_soft_blocked c)) st"
    by (auto simp: CheckBudget_def Let_def CheckBalance_touch touch_other split: option.split)
  ultimately show ?thesis by blast
qed

text \<open>
  A revoked grant can stay active.  \<^verbatim>\<open>RevokeGrant\<close> sets the expiry to the current instant; when that
  instant is a whole second, its text sorts after every other instant of the second, and the grant is
  still among the active ones that \<^verbatim>\<open>CheckBudget\<close> counts and \<^verbatim>\<open>DeductSpend\<close> charges.
\<close>

lemma revoked_grant_stays_active:
  assumes "g \<in> set (user_grants st)" and "g_UserID g = normalizeID i" and "g_SpentUSD g < g_AmountUSD g" and "g_StartsAt g = 0"
    and "t mod ns_second = 0" and "0 < t" and "0 < d" and "d < ns_second"
  shows "g\<lparr>g_ExpiresAt := t\<rparr> \<in> set (active_grants (t + d) (normalizeID i) (snd (RevokeGrant False t i (g_ID g) st)))"
proof -
  have "formatTime (t + d) < formatTime t"
    using rfc3339nano_misorders [OF assms(5,7,8)] assms(6,7) by (simp add: formatTime_def)
  moreover have "g\<lparr>g_ExpiresAt := t\<rparr> \<in> set (user_grants (snd (RevokeGrant False t i (g_ID g) st)))"
    unfolding RevokeGrant_def Let_def using assms(1,2) by (simp add: rev_image_eqI [of g])
  ultimately show ?thesis using assms(2-4) by (simp add: active_grants_def)
qed

text \<open>
  A revocation is effective from the next second of the day on: the grant is not active any more.
\<close>

lemma revoked_grant_ends:
  assumes "day_of now = day_of t" and "(t mod day_ns) div 1000000000 < (now mod day_ns) div 1000000000" and "t \<noteq> 0" and "now \<noteq> 0"
  shows "gid \<notin> g_ID ` set (active_grants now (normalizeID i) (snd (RevokeGrant False t i gid st)))"
proof -
  have "formatTime t < formatTime now"
    using rfc3339nano_later_second [OF assms(1) [symmetric] assms(2)] assms(3,4) by (simp only: formatTime_def if_False)
  then have late: "\<not> formatTime now < formatTime t" by (rule order_less_not_sym)
  then show ?thesis using active_grants_mem active_expiry revoked_expiry by (metis imageE)
qed

end
