(* ===== verification/RateLimit.thy ===== *)
theory RateLimit
  imports StoreBehaviour
begin

text \<open>
  The two request rate limiters: the one of the user store (\<^verbatim>\<open>CheckRateLimit\<close> of
  \<^verbatim>\<open>pkg/storage/sqlite/user_store.go\<close>) and the one of the proxy for service accounts
  (\<^verbatim>\<open>pkg/proxy/sa_ratelimit.go\<close>).  Both count requests per key in the current minute.  The locale
  \<open>fixed_window\<close> is that contract; what a client may rely on, the exact count and the bound on the
  requests that pass, is proved in it once and holds for both by interpretation.
\<close>

section \<open>The limiter of service accounts (sa_ratelimit.go)\<close>

record saWindow =
  w_minute :: string
  w_count :: int

record saRateLimiter =
  sa_windows :: "(string \<times> saWindow) list"
  sa_limit :: int
  sa_gcEvery :: int
  sa_gcCount :: int

definition defaultSARateLimit :: int where
  "defaultSARateLimit = 120"

definition newSARateLimiter :: "int \<Rightarrow> saRateLimiter" where
  "newSARateLimiter limit =
     \<lparr>sa_windows = [], sa_limit = (if limit \<le> 0 then defaultSARateLimit else limit), sa_gcEvery = 100, sa_gcCount = 0\<rparr>"

definition sa_gc :: "string \<Rightarrow> saRateLimiter \<Rightarrow> saRateLimiter" where
  "sa_gc currentMinute r = r\<lparr>sa_windows := filter (\<lambda>(sa, w). w_minute w = currentMinute) (sa_windows r)\<rparr>"

text \<open>The lazy collection at the start of \<^verbatim>\<open>Allow\<close>.\<close>

definition sa_tick :: "string \<Rightarrow> saRateLimiter \<Rightarrow> saRateLimiter" where
  "sa_tick now r =
     (let r1 = r\<lparr>sa_gcCount := sa_gcCount r + 1\<rparr>
      in if sa_gcEvery r1 \<le> sa_gcCount r1 then sa_gc now (r1\<lparr>sa_gcCount := 0\<rparr>) else r1)"

definition sa_Allow :: "gotime \<Rightarrow> string \<Rightarrow> saRateLimiter \<Rightarrow> (bool \<times> int \<times> int) \<times> saRateLimiter" where
  "sa_Allow t sa r =
     (let now = fmt_minute t; r2 = sa_tick now r
      in case map_of (sa_windows r2) sa of
           None \<Rightarrow> ((True, 1, sa_limit r2), r2\<lparr>sa_windows := AList.update sa \<lparr>w_minute = now, w_count = 1\<rparr> (sa_windows r2)\<rparr>)
         | Some w \<Rightarrow>
             if w_minute w \<noteq> now
             then ((True, 1, sa_limit r2), r2\<lparr>sa_windows := AList.update sa \<lparr>w_minute = now, w_count = 1\<rparr> (sa_windows r2)\<rparr>)
             else let n = w_count w + 1
                  in ((n \<le> sa_limit r2, n, sa_limit r2), r2\<lparr>sa_windows := AList.update sa (w\<lparr>w_count := n\<rparr>) (sa_windows r2)\<rparr>))"

section \<open>The contract of a fixed window\<close>

text \<open>
  \<open>hit\<close> takes a request of a key; \<open>ident\<close> is what the limiter takes the key for; \<open>seen\<close> is the
  number of requests in a window and \<open>cap\<close> the limit.
\<close>

locale fixed_window =
  fixes invar :: "'s \<Rightarrow> bool"
    and hit :: "gotime \<Rightarrow> 'k \<Rightarrow> 's \<Rightarrow> (bool \<times> int \<times> int) \<times> 's"
    and ident :: "'k \<Rightarrow> 'i"
    and seen :: "string \<Rightarrow> 'i \<Rightarrow> 's \<Rightarrow> int"
    and cap :: "'i \<Rightarrow> 's \<Rightarrow> int"
  assumes hit_result: "invar s \<Longrightarrow> fst (hit t k s) =
      (let n = seen (fmt_minute t) (ident k) s + 1 in (n \<le> cap (ident k) s, n, cap (ident k) s))"
    and invar_hit: "invar s \<Longrightarrow> invar (snd (hit t k s))"
    and seen_hit: "invar s \<Longrightarrow>
      seen (fmt_minute t) i (snd (hit t k s)) = seen (fmt_minute t) i s + (if ident k = i then 1 else 0)"
    and cap_hit: "invar s \<Longrightarrow> cap i (snd (hit t k s)) = cap i s"
begin

fun hits :: "(gotime \<times> 'k) list \<Rightarrow> 's \<Rightarrow> 's" where
  "hits [] s = s"
| "hits ((t, k) # rs) s = hits rs (snd (hit t k s))"

fun passed :: "'i \<Rightarrow> (gotime \<times> 'k) list \<Rightarrow> 's \<Rightarrow> nat" where
  "passed i [] s = 0"
| "passed i ((t, k) # rs) s =
     (if ident k = i \<and> fst (fst (hit t k s)) then 1 else 0) + passed i rs (snd (hit t k s))"

lemma hits_seen:
  "invar s \<Longrightarrow> \<forall>(t, k) \<in> set rs. fmt_minute t = m \<Longrightarrow>
     invar (hits rs s) \<and> cap i (hits rs s) = cap i s \<and>
     seen m i (hits rs s) = seen m i s + int (length (filter (\<lambda>(t, k). ident k = i) rs))"
proof (induction rs s rule: hits.induct)
  case (2 t k rs s)
  then show ?case using seen_hit [of s t i k] by (auto simp: invar_hit cap_hit)
qed simp

lemma exact_count:
  assumes "invar s" and "\<forall>(t, k') \<in> set rs. fmt_minute t = fmt_minute u"
  shows "fst (hit u k (hits rs s)) =
    (let n = seen (fmt_minute u) (ident k) s + int (length (filter (\<lambda>(t, k'). ident k' = ident k) rs)) + 1
     in (n \<le> cap (ident k) s, n, cap (ident k) s))"
  using hits_seen [OF assms, of "ident k"] by (simp add: hit_result Let_def)

text \<open>Of the requests of one window at most \<open>cap\<close> pass.\<close>

lemma passed_bound:
  "invar s \<Longrightarrow> \<forall>(t, k) \<in> set rs. fmt_minute t = m \<Longrightarrow> int (passed i rs s) \<le> max 0 (cap i s - seen m i s)"
proof (induction i rs s rule: passed.induct)
  case (2 i t k rs s)
  then show ?case using seen_hit [of s t i k] hit_result [of s t k]
    by (auto simp: invar_hit cap_hit Let_def)
qed simp

end

section \<open>Service accounts keep it\<close>

definition sa_ok :: "saRateLimiter \<Rightarrow> bool" where
  "sa_ok r \<longleftrightarrow> 1 \<le> sa_limit r \<and> distinct (keys_of (sa_windows r))"

definition sa_seen :: "string \<Rightarrow> string \<Rightarrow> saRateLimiter \<Rightarrow> int" where
  "sa_seen m sa r =
     (case map_of (sa_windows r) sa of None \<Rightarrow> 0 | Some w \<Rightarrow> if w_minute w = m then w_count w else 0)"

lemma sa_gc_lookup:
  "distinct (keys_of (sa_windows r)) \<Longrightarrow>
     map_of (sa_windows (sa_gc m r)) sa =
       (case map_of (sa_windows r) sa of None \<Rightarrow> None | Some w \<Rightarrow> if w_minute w = m then Some w else None)"
  by (simp add: sa_gc_def map_of_filter split: option.split)

text \<open>The collection of stale windows changes no count of the current minute.\<close>

lemma sa_tick:
  assumes "sa_ok r"
  shows "sa_ok (sa_tick m r)" and "sa_limit (sa_tick m r) = sa_limit r" and "sa_seen m sa (sa_tick m r) = sa_seen m sa r"
proof -
  have "distinct (keys_of (sa_windows r))" using assms by (simp add: sa_ok_def)
  then have "sa_seen m sa (sa_gc m r) = sa_seen m sa r" by (simp add: sa_seen_def sa_gc_lookup split: option.split)
  moreover have "sa_seen m sa (r\<lparr>sa_gcCount := n\<rparr>) = sa_seen m sa r" for n r by (simp add: sa_seen_def)
  moreover have "sa_gc m (r\<lparr>sa_gcCount := n\<rparr>) = (sa_gc m r)\<lparr>sa_gcCount := n\<rparr>" for n by (simp add: sa_gc_def)
  ultimately show "sa_seen m sa (sa_tick m r) = sa_seen m sa r" by (simp add: sa_tick_def Let_def)
qed (use assms in \<open>simp_all add: sa_tick_def sa_ok_def sa_gc_def Let_def\<close>)

lemma window_count_upd: "w\<lparr>w_count := c\<rparr> = \<lparr>w_minute = w_minute w, w_count = c\<rparr>"
  by (cases w) simp

lemma sa_Allow_seen:
  fixes t :: gotime and sa :: string
  assumes "sa_ok r"
  defines "m \<equiv> fmt_minute t" and "n \<equiv> sa_seen (fmt_minute t) sa r + 1"
  shows "sa_Allow t sa r =
    ((n \<le> sa_limit r, n, sa_limit r),
     (sa_tick m r)\<lparr>sa_windows := AList.update sa \<lparr>w_minute = m, w_count = n\<rparr> (sa_windows (sa_tick m r))\<rparr>)"
proof -
  note k = sa_tick [OF assms(1), of m]
  have n: "n = sa_seen m sa (sa_tick m r) + 1" unfolding n_def m_def [symmetric] k(3) by (rule refl)
  have "1 \<le> sa_limit r" using assms(1) by (simp add: sa_ok_def)
  then show ?thesis
    by (cases "map_of (sa_windows (sa_tick m r)) sa") (auto simp: window_count_upd sa_Allow_def Let_def n sa_seen_def k simp flip: m_def)
qed

interpretation sa: fixed_window sa_ok sa_Allow "\<lambda>sa. sa" sa_seen "\<lambda>_. sa_limit"
proof
  fix s :: saRateLimiter and t k i
  assume ok: "sa_ok s"
  note A = sa_Allow_seen [OF ok, of t k] and k = sa_tick [OF ok, of "fmt_minute t"]
  show "fst (sa_Allow t k s) = (let n = sa_seen (fmt_minute t) k s + 1 in (n \<le> sa_limit s, n, sa_limit s))"
    by (simp add: A Let_def)
  show "sa_ok (snd (sa_Allow t k s))" using k(1) by (simp add: A sa_ok_def)
  show "sa_seen (fmt_minute t) i (snd (sa_Allow t k s)) = sa_seen (fmt_minute t) i s + (if k = i then 1 else 0)"
    using k(3) [of i] by (auto simp: A sa_seen_def)
  show "sa_limit (snd (sa_Allow t k s)) = sa_limit s" by (simp add: A k(2))
qed

section \<open>The user store keeps it\<close>

definition window_count :: "string \<Rightarrow> string \<Rightarrow> store \<Rightarrow> int" where
  "window_count m uid st = (case map_of (rate_limits st) (uid @ '':'' @ m) of None \<Rightarrow> 0 | Some n \<Rightarrow> n)"

lemma user_rate_limit_cong: "users st = users st' \<Longrightarrow> user_rate_limit f i st = user_rate_limit f i st'"
  by (simp add: user_rate_limit_def GetUser_def)

text \<open>A request to a database that answers.\<close>

definition user_hit :: "gotime \<Rightarrow> string \<Rightarrow> store \<Rightarrow> (bool \<times> int \<times> int) \<times> store" where
  "user_hit t i st = (projr (fst (CheckRateLimit (\<lambda>_. False) t i st)), snd (CheckRateLimit (\<lambda>_. False) t i st))"

lemma user_hit_via:
  "user_hit t i st =
     (let m = fmt_minute t; uid = normalizeID i; n = window_count m uid st + 1; l = user_rate_limit False uid st
      in ((n \<le> l, n, l), st\<lparr>rate_limits := AList.update (uid @ '':'' @ m) n (rate_limits st)\<rparr>))"
  by (simp add: user_hit_def CheckRateLimit_def window_count_def Let_def split: option.split)

interpretation users: fixed_window "\<lambda>_. True" user_hit normalizeID window_count "user_rate_limit False"
proof
  fix s :: store and t k i
  show "fst (user_hit t k s) = (let n = window_count (fmt_minute t) (normalizeID k) s + 1
      in (n \<le> user_rate_limit False (normalizeID k) s, n, user_rate_limit False (normalizeID k) s))"
    by (simp add: user_hit_via Let_def)
  show "window_count (fmt_minute t) i (snd (user_hit t k s)) = window_count (fmt_minute t) i s + (if normalizeID k = i then 1 else 0)"
    by (simp add: user_hit_via Let_def window_count_def)
  show "user_rate_limit False i (snd (user_hit t k s)) = user_rate_limit False i s"
    by (rule user_rate_limit_cong) (simp add: user_hit_via Let_def)
qed simp

lemma CheckRateLimit_hit:
  "fst (CheckRateLimit (\<lambda>_. False) t i st) = Inr (fst (user_hit t i st))"
  "snd (CheckRateLimit (\<lambda>_. False) t i st) = snd (user_hit t i st)"
  by (simp_all add: user_hit_def CheckRateLimit_def Let_def)

lemma fold_hits: "fold (\<lambda>(t, i) s. snd (user_hit t i s)) rs st = users.hits rs st"
  by (induction rs st rule: users.hits.induct) simp_all

text \<open>The number of requests of \<open>sa\<close> that pass in a sequence of requests.\<close>

fun sa_passed :: "string \<Rightarrow> (gotime \<times> string) list \<Rightarrow> saRateLimiter \<Rightarrow> nat" where
  "sa_passed sa [] r = 0"
| "sa_passed sa ((t, k) # rs) r =
     (if k = sa \<and> fst (fst (sa_Allow t k r)) then 1 else 0) + sa_passed sa rs (snd (sa_Allow t k r))"

lemma sa_passed_eq: "sa_passed sa rs r = sa.passed sa rs r"
  by (induction sa rs r rule: sa_passed.induct) simp_all

section \<open>Properties\<close>

text \<open>
  C9: the rate limiter of the user store counts exactly.  After any requests of any users in the same
  minute, the next request of a user sees all of that user's and no others, and is allowed exactly
  while the count is within the user's limit.
\<close>

theorem rate_limit_counts:
  assumes "\<forall>(t, j) \<in> set rs. fmt_minute t = fmt_minute now"
  shows "fst (CheckRateLimit (\<lambda>_. False) now i (fold (\<lambda>(t, j) s. snd (CheckRateLimit (\<lambda>_. False) t j s)) rs st)) =
    (let n = window_count (fmt_minute now) (normalizeID i) st + int (length (filter (\<lambda>(t, j). normalizeID j = normalizeID i) rs)) + 1;
         limit = user_rate_limit False (normalizeID i) st
     in Inr (n \<le> limit, n, limit))"
  using users.exact_count [OF TrueI assms, of i st] by (simp add: CheckRateLimit_hit fold_hits Let_def)

theorem rate_limit_counts_witness:
  "fst (CheckRateLimit (\<lambda>_. False) demo_now ''u''
      (fold (\<lambda>(t, j) s. snd (CheckRateLimit (\<lambda>_. False) t j s)) [(demo_now, ''U ''), (demo_now, ''v''), (demo_now, ''u'')] demo_store)) = Inr (True, 3, 60)"
proof (rule trans [OF rate_limit_counts])
  have "window_count m ''u'' demo_store = 0" for m by (simp add: window_count_def demo_store_def empty_store_def)
  moreover have "user_rate_limit False ''u'' demo_store = 60"
    by (simp add: user_rate_limit_def GetUser_def demo_id demo_rows scan_user_def) (simp add: demo_user_def defaultRateLimit_def)
  moreover have "normalizeID ''U '' = ''u''" "normalizeID ''v'' = ''v''" by code_simp+
  ultimately show "(let n = window_count (fmt_minute demo_now) (normalizeID ''u'') demo_store +
      int (length (filter (\<lambda>(t, j). normalizeID j = normalizeID ''u'') [(demo_now, ''U ''), (demo_now, ''v''), (demo_now, ''u'')])) + 1;
      limit = user_rate_limit False (normalizeID ''u'') demo_store in Inr (n \<le> limit, n, limit)) = Inr (True, 3, 60)"
    by (simp add: Let_def demo_id)
qed simp



end
