(* ===== verification/Preflight.thy ===== *)
theory Preflight
  imports Handlers Policy Outbox RateLimit StoreInvariant
begin

text \<open>
  The gates \<^verbatim>\<open>handleProxy\<close> (\<^verbatim>\<open>pkg/proxy/proxy.go\<close>) puts in front of a request: rate limits, the price of the
  model, the allowlist, access tags and tenants, the budgets of the task and of the caller with their
  reservations, the cap of a request and the daily limits.  They compose the components of the other theories
  in the order of the code.

  The state is the part of the \<^verbatim>\<open>Proxy\<close> struct the gates read and write.  What the request carries is a record;
  the model name is extracted from it by an argument (\<^verbatim>\<open>Parsers\<close> has the parsers of the provider formats).  Failing lookups are flags of the environment.  A deferred release runs when a later gate blocks.
  The coalescing of concurrent provisioning calls is one step.
\<close>

section \<open>State and request\<close>

datatype catalog_error = CatalogNotFound | CatalogFailed

text \<open>The catalog backed by the configuration (\<^verbatim>\<open>pkg/catalog/config_store.go\<close>).\<close>

definition config_List :: "bool \<Rightarrow> Entry list \<Rightarrow> Entry list" where
  "config_List includeDisabled entries = (if includeDisabled then entries else filter e_Enabled entries)"

definition config_Get :: "Entry list \<Rightarrow> string \<Rightarrow> string \<Rightarrow> catalog_error + Entry" where
  "config_Get entries provider modelID =
     (case find (\<lambda>e. ToLower (e_Provider e) = ToLower provider \<and> ToLower (e_ModelID e) = ToLower modelID) entries of
        None \<Rightarrow> Inl CatalogNotFound
      | Some e \<Rightarrow> Inr e)"

record Proxy =
  px_users :: "store option"
  px_saRL :: "saRateLimiter option"
  px_calc :: Calculator
  px_policy :: "ModelPolicy option"
  px_catalog :: "(string \<Rightarrow> string \<Rightarrow> catalog_error + Entry) option"
  px_providers :: "string list"
  px_pending :: pendingSpendTracker
  px_taskPending :: pendingSpendTracker
  px_saProvisioned :: "string list"
  px_saDefaultBudgetUSD :: f64
  px_MaxRequestCost :: f64
  px_spendTracker :: "SpendTracker option"
  px_modelLimits :: "modelLimitCache option"
  px_DailyLimits :: "SpendLimitConfig list"

record request =
  rq_caller :: "Identity option"
  rq_Method :: string
  rq_Path :: string
  rq_tenant :: string
  rq_job :: string
  rq_body :: "nat + string"

record pf_env =
  pf_now :: gotime
  pf_loc :: "gotime \<Rightarrow> int"
  pf_user_fails :: bool
  pf_rate_flt :: "nat \<Rightarrow> bool"
  pf_task_fails :: bool
  pf_check_flt :: "check_stmt \<Rightarrow> bool"
  pf_set_flt :: "nat \<Rightarrow> bool"
  pf_recheck_flt :: "check_stmt \<Rightarrow> bool"
  pf_limits_fails :: bool
  pf_model_of :: "string \<Rightarrow> string \<Rightarrow> string \<Rightarrow> string"

text \<open>A blocked request: the status code and the type of the error.\<close>

type_synonym block = "nat \<times> string"

record admission =
  ad_user :: string
  ad_isAdmin :: bool
  ad_record :: "UserRecord option"
  ad_provider :: string
  ad_path :: string
  ad_model :: string
  ad_estimate :: f64
  ad_taskReserved :: f64
  ad_budgetReserved :: f64

section \<open>The gates\<close>

definition sa_gate :: "pf_env \<Rightarrow> string \<Rightarrow> Proxy \<Rightarrow> block option \<times> Proxy" where
  "sa_gate e uid p =
     (case px_saRL p of
        Some rl \<Rightarrow>
          if isServiceAccountID uid
          then case sa_Allow (pf_now e) uid rl of ((ok, _, _), rl') \<Rightarrow>
                 (if ok then None else Some (429, ''rate_limit_exceeded''), p\<lparr>px_saRL := Some rl'\<rparr>)
          else (None, p)
      | None \<Rightarrow> (None, p))"

text \<open>\<^verbatim>\<open>/proxy/{provider}/...\<close>: the provider and the upstream path.\<close>

definition route :: "string \<Rightarrow> Proxy \<Rightarrow> (string \<times> string) option" where
  "route path p =
     (case split_once (CHR ''/'') (TrimPrefix path ''/proxy/'') of
        None \<Rightarrow> None
      | Some (provider, rest) \<Rightarrow> if provider \<in> set (px_providers p) then Some (provider, CHR ''/'' # rest) else None)"

definition user_record :: "pf_env \<Rightarrow> string \<Rightarrow> Proxy \<Rightarrow> UserRecord option" where
  "user_record e uid p =
     (case px_users p of
        None \<Rightarrow> None
      | Some st \<Rightarrow> if uid = [] then None else (case GetUser (pf_user_fails e) uid st of Inl _ \<Rightarrow> None | Inr u \<Rightarrow> Some u))"

definition rate_gate :: "pf_env \<Rightarrow> string \<Rightarrow> bool \<Rightarrow> Proxy \<Rightarrow> block option \<times> Proxy" where
  "rate_gate e uid isAdmin p =
     (case px_users p of
        None \<Rightarrow> (None, p)
      | Some st \<Rightarrow>
          if uid = [] \<or> isServiceAccountID uid \<or> isAdmin then (None, p)
          else case CheckRateLimit (pf_rate_flt e) (pf_now e) uid st of
                 (Inl _, st') \<Rightarrow> (Some (503, ''service_error''), p\<lparr>px_users := Some st'\<rparr>)
               | (Inr (allowed, _, _), st') \<Rightarrow>
                   (if allowed then None else Some (429, ''rate_limit_exceeded''), p\<lparr>px_users := Some st'\<rparr>))"

definition pricing_gate :: "pf_env \<Rightarrow> string \<Rightarrow> string \<Rightarrow> Proxy \<Rightarrow> block option" where
  "pricing_gate e provider model p =
     (if model \<noteq> [] \<and> ToLower provider \<noteq> ''local'' \<and> \<not> HasPricing (pf_now e) (px_calc p) (pricingProvider provider) model
      then Some (402, ''pricing_not_configured'') else None)"

definition policy_gate :: "string \<Rightarrow> string \<Rightarrow> Proxy \<Rightarrow> block option" where
  "policy_gate provider model p =
     (if model \<noteq> [] \<and> \<not> policy_IsAllowed (px_policy p) provider model then Some (403, ''forbidden'') else None)"

definition user_tags :: "UserRecord option \<Rightarrow> string list" where
  "user_tags u = (case u of None \<Rightarrow> [] | Some r \<Rightarrow> (case u_AccessTags r of None \<Rightarrow> [] | Some ts \<Rightarrow> ts))"

definition access_gate :: "UserRecord option \<Rightarrow> bool \<Rightarrow> string \<Rightarrow> string \<Rightarrow> string \<Rightarrow> Proxy \<Rightarrow> block option" where
  "access_gate u isAdmin tenant provider model p =
     (case px_catalog p of
        None \<Rightarrow> None
      | Some get \<Rightarrow>
          if model = [] \<or> isAdmin then None
          else case get provider model of
                 Inl CatalogFailed \<Rightarrow> Some (500, ''internal'')
               | Inl CatalogNotFound \<Rightarrow> None
               | Inr entry \<Rightarrow>
                   if \<not> checkAccessTags (user_tags u) (e_RequiredAccess entry) then Some (403, ''access_denied'')
                   else if \<not> checkTenantAccess tenant (e_AllowedTenants entry) then Some (403, ''tenant_access_denied'')
                   else None)"

definition reservationFloor :: f64 where
  "reservationFloor = mk (1 / 20)"

definition reserve_amount :: "f64 \<Rightarrow> f64" where
  "reserve_amount est = (if reservationFloor < est then est else reservationFloor)"

definition task_reason :: "TaskReason \<Rightarrow> string" where
  "task_reason r = (case r of ReasonTaskBudgetExpired \<Rightarrow> ''task_budget_expired'' | _ \<Rightarrow> ''task_budget_exhausted'')"

text \<open>The two budget gates return what they have reserved.\<close>

definition task_gate :: "pf_env \<Rightarrow> string \<Rightarrow> f64 \<Rightarrow> Proxy \<Rightarrow> block option \<times> f64 \<times> Proxy" where
  "task_gate e job est p =
     (case px_users p of
        None \<Rightarrow> (None, 0, p)
      | Some st \<Rightarrow>
          if job = [] then (None, 0, p)
          else case CheckTaskBudget (pf_task_fails e) (pf_now e) job (reserve_amount est) st of
                 Inl err \<Rightarrow> (Some (if err = ErrNotFound then (402, ''task_budget_missing'') else (503, ''service_error'')), 0, p)
               | Inr check \<Rightarrow>
                   if \<not> tr_Allowed check then (Some (402, task_reason (tr_Reason check)), 0, p)
                   else case ReserveIfUnder job (tr_RemainingUSD check) (reserve_amount est) 0 (px_taskPending p) of
                          (False, t) \<Rightarrow> (Some (402, ''task_budget_exhausted''), 0, p\<lparr>px_taskPending := t\<rparr>)
                        | (True, t) \<Rightarrow> (None, reserve_amount est, p\<lparr>px_taskPending := t\<rparr>))"

text \<open>The default budget of a service account; \<open>None\<close> when the budget gate is skipped.\<close>

definition sa_provision :: "pf_env \<Rightarrow> string \<Rightarrow> f64 \<Rightarrow> store \<Rightarrow> BudgetCheckResult \<Rightarrow> Proxy \<Rightarrow> BudgetCheckResult option \<times> Proxy" where
  "sa_provision e uid amount st check p =
     (if \<not> r_Allowed check \<and> r_Reason check = ReasonNoBudget \<and> isServiceAccountID uid \<and> 0 < px_saDefaultBudgetUSD p
      then let (ok, st1, p1) =
                 (if uid \<in> set (px_saProvisioned p) then (True, st, p)
                  else case SetBudget (pf_set_flt e) (pf_loc e) (pf_now e)
                         \<lparr>b_UserID = uid, b_LimitUSD = px_saDefaultBudgetUSD p, b_SpentUSD = 0, b_TokensUsed = 0, b_AllTokensUsed = 0,
                          b_PeriodType = ''daily'', b_PeriodKey = [], b_PeriodStart = 0, b_PeriodEnd = 0\<rparr> st of
                         (Inl _, st') \<Rightarrow> (False, st', p\<lparr>px_users := Some st'\<rparr>)
                       | (Inr _, st') \<Rightarrow> (True, st', p\<lparr>px_users := Some st', px_saProvisioned := uid # px_saProvisioned p\<rparr>))
           in if \<not> ok then (None, p1)
              else case CheckBudget (pf_recheck_flt e) (pf_loc e) (pf_now e) uid amount st1 of
                     Inl _ \<Rightarrow> (None, p1)
                   | Inr check' \<Rightarrow> (Some check', p1)
      else (Some check, p))"

definition budget_gate :: "pf_env \<Rightarrow> string \<Rightarrow> bool \<Rightarrow> f64 \<Rightarrow> Proxy \<Rightarrow> block option \<times> f64 \<times> Proxy" where
  "budget_gate e uid isAdmin est p =
     (case px_users p of
        None \<Rightarrow> (None, 0, p)
      | Some st \<Rightarrow>
          if uid = [] \<or> (isAdmin \<and> \<not> isServiceAccountID uid) then (None, 0, p)
          else case CheckBudget (pf_check_flt e) (pf_loc e) (pf_now e) uid (reserve_amount est) st of
                 Inl _ \<Rightarrow> (Some (503, ''service_error''), 0, p)
               | Inr check \<Rightarrow>
                   (case sa_provision e uid (reserve_amount est) st check p of
                      (None, p1) \<Rightarrow> (None, 0, p1)
                    | (Some check', p1) \<Rightarrow>
                        if \<not> r_Allowed check' then (Some (402, ''insufficient_budget''), 0, p1)
                        else case ReserveIfUnder uid (r_RemainingUSD check') (reserve_amount est) 0 (px_pending p1) of
                               (False, t) \<Rightarrow> (Some (402, ''insufficient_budget''), 0, p1\<lparr>px_pending := t\<rparr>)
                             | (True, t) \<Rightarrow> (None, reserve_amount est, p1\<lparr>px_pending := t\<rparr>)))"

definition cap_gate :: "string \<Rightarrow> f64 \<Rightarrow> Proxy \<Rightarrow> block option" where
  "cap_gate model est p =
     (if 0 < px_MaxRequestCost p \<and> model \<noteq> [] \<and> px_MaxRequestCost p < est then Some (402, ''request_cost_exceeded'') else None)"

definition effectiveLimits :: "pf_env \<Rightarrow> string \<Rightarrow> Proxy \<Rightarrow> SpendLimitConfig list \<times> Proxy" where
  "effectiveLimits e uid p =
     (case px_modelLimits p of
        None \<Rightarrow> (px_DailyLimits p, p)
      | Some c \<Rightarrow>
          (case mergedLimits (pf_now e) (\<lambda>i. case px_users p of None \<Rightarrow> Inl DBError | Some st \<Rightarrow> GetModelLimits (pf_limits_fails e) i st)
                  uid (px_DailyLimits p) c of
             (limits, c') \<Rightarrow> (limits, p\<lparr>px_modelLimits := Some c'\<rparr>)))"

definition limit_user :: "string \<Rightarrow> string" where
  "limit_user uid = (if uid = [] then ''local'' else uid)"

definition daily_gate :: "pf_env \<Rightarrow> string \<Rightarrow> string \<Rightarrow> f64 \<Rightarrow> Proxy \<Rightarrow> block option \<times> Proxy" where
  "daily_gate e uid model est p =
     (case px_spendTracker p of
        None \<Rightarrow> (None, p)
      | Some t \<Rightarrow>
          if model = [] then (None, p)
          else case effectiveLimits e (limit_user uid) p of (limits, p') \<Rightarrow>
                 (if fst (Check (pf_now e) (limit_user uid) model limits est t) then None else Some (402, ''daily_limit_exceeded''), p'))"

section \<open>The composition\<close>

datatype answer = Blocked block | Listed | Admitted admission

definition release_task :: "string \<Rightarrow> f64 \<Rightarrow> Proxy \<Rightarrow> Proxy" where
  "release_task job amount p = p\<lparr>px_taskPending := pending_Release job amount (px_taskPending p)\<rparr>"

definition release_budget :: "string \<Rightarrow> f64 \<Rightarrow> Proxy \<Rightarrow> Proxy" where
  "release_budget uid amount p = p\<lparr>px_pending := pending_Release uid amount (px_pending p)\<rparr>"

definition spend_gates :: "pf_env \<Rightarrow> string \<Rightarrow> admission \<Rightarrow> Proxy \<Rightarrow> answer \<times> Proxy" where
  "spend_gates e job a p =
     (case task_gate e job (ad_estimate a) p of
        (Some b, _, p1) \<Rightarrow> (Blocked b, p1)
      | (None, tr, p1) \<Rightarrow>
          (case budget_gate e (ad_user a) (ad_isAdmin a) (ad_estimate a) p1 of
             (Some b, _, p2) \<Rightarrow> (Blocked b, release_task job tr p2)
           | (None, br, p2) \<Rightarrow>
               (case cap_gate (ad_model a) (ad_estimate a) p2 of
                  Some b \<Rightarrow> (Blocked b, release_task job tr (release_budget (ad_user a) br p2))
                | None \<Rightarrow>
                    (case daily_gate e (ad_user a) (ad_model a) (ad_estimate a) p2 of
                       (Some b, p3) \<Rightarrow> (Blocked b, release_task job tr (release_budget (ad_user a) br p3))
                     | (None, p3) \<Rightarrow> (Admitted (a\<lparr>ad_taskReserved := tr, ad_budgetReserved := br\<rparr>), p3)))))"

definition model_gates :: "pf_env \<Rightarrow> string \<Rightarrow> admission \<Rightarrow> Proxy \<Rightarrow> block option" where
  "model_gates e tenant a p =
     (case pricing_gate e (ad_provider a) (ad_model a) p of
        Some b \<Rightarrow> Some b
      | None \<Rightarrow>
          (case policy_gate (ad_provider a) (ad_model a) p of
             Some b \<Rightarrow> Some b
           | None \<Rightarrow> access_gate (ad_record a) (ad_isAdmin a) tenant (ad_provider a) (ad_model a) p))"

definition caller_id :: "Identity option \<Rightarrow> string" where
  "caller_id caller = (case caller of None \<Rightarrow> [] | Some c \<Rightarrow> EffectiveID c)"

definition is_admin :: "UserRecord option \<Rightarrow> bool" where
  "is_admin u = (case u of None \<Rightarrow> False | Some r \<Rightarrow> u_Role r = RoleAdmin)"

definition estimate :: "pf_env \<Rightarrow> string \<Rightarrow> string \<Rightarrow> string \<Rightarrow> Proxy \<Rightarrow> f64 \<times> Proxy" where
  "estimate e provider model body p =
     (if model = [] then (0, p)
      else case estimateRequestCost (pf_now e) (Some (px_calc p)) provider model body of
             (cost, Some c) \<Rightarrow> (cost, p\<lparr>px_calc := c\<rparr>)
           | (cost, None) \<Rightarrow> (cost, p))"

text \<open>The gates after the request has been routed and its body read.\<close>

definition body_gates :: "pf_env \<Rightarrow> request \<Rightarrow> UserRecord option \<Rightarrow> string \<Rightarrow> string \<Rightarrow> string \<Rightarrow> Proxy \<Rightarrow> answer \<times> Proxy" where
  "body_gates e rq u provider upstream body p =
     (let model = pf_model_of e provider body upstream
      in case estimate e provider model body p of (est, p1) \<Rightarrow>
           let a = \<lparr>ad_user = caller_id (rq_caller rq), ad_isAdmin = is_admin u, ad_record = u, ad_provider = provider, ad_path = upstream,
                    ad_model = model, ad_estimate = est, ad_taskReserved = 0, ad_budgetReserved = 0\<rparr>
           in case model_gates e (rq_tenant rq) a p1 of
                Some b \<Rightarrow> (Blocked b, p1)
              | None \<Rightarrow> spend_gates e (rq_job rq) a p1)"

definition preflight :: "pf_env \<Rightarrow> request \<Rightarrow> Proxy \<Rightarrow> answer \<times> Proxy" where
  "preflight e rq p =
     (let uid = caller_id (rq_caller rq)
      in case sa_gate e uid p of
           (Some b, p1) \<Rightarrow> (Blocked b, p1)
         | (None, p1) \<Rightarrow>
             (case route (rq_Path rq) p1 of
                None \<Rightarrow> (Blocked (400, ''invalid_request_error''), p1)
              | Some (provider, upstream) \<Rightarrow>
                  let u = user_record e uid p1
                  in case rate_gate e uid (is_admin u) p1 of
                       (Some b, p2) \<Rightarrow> (Blocked b, p2)
                     | (None, p2) \<Rightarrow>
                         if rq_Method rq = ''GET'' \<and> HasSuffix upstream ''/models'' then (Listed, p2)
                         else case rq_body rq of
                                Inl code \<Rightarrow> (Blocked (code, ''invalid_request_error''), p2)
                              | Inr body \<Rightarrow> body_gates e rq u provider upstream body p2))"

section \<open>What each gate keeps\<close>

text \<open>The configuration no gate changes, and the reservations only the budget gates change.\<close>

definition same_config :: "Proxy \<Rightarrow> Proxy \<Rightarrow> bool" where
  "same_config p q \<longleftrightarrow>
     px_policy p = px_policy q \<and> px_catalog p = px_catalog q \<and> px_providers p = px_providers q \<and>
     px_MaxRequestCost p = px_MaxRequestCost q \<and> px_saDefaultBudgetUSD p = px_saDefaultBudgetUSD q \<and> px_DailyLimits p = px_DailyLimits q \<and>
     (px_users p = None \<longleftrightarrow> px_users q = None)"

lemma same_config_refl [simp]: "same_config p p"
  by (simp add: same_config_def)

lemma same_config_trans [trans]: "same_config p q \<Longrightarrow> same_config q r \<Longrightarrow> same_config p r"
  by (simp add: same_config_def)

definition same_reserved :: "Proxy \<Rightarrow> Proxy \<Rightarrow> bool" where
  "same_reserved p q \<longleftrightarrow> px_pending p = px_pending q \<and> px_taskPending p = px_taskPending q"

lemmas keep_defs = same_config_def same_reserved_def

lemma sa_gate_keeps: "sa_gate e uid p = (b, p1) \<Longrightarrow> same_config p1 p \<and> same_reserved p1 p \<and> px_users p1 = px_users p"
  by (auto simp: sa_gate_def keep_defs split: option.splits if_splits prod.splits)

lemma rate_gate_keeps: "rate_gate e uid adm p = (b, p1) \<Longrightarrow> same_config p1 p \<and> same_reserved p1 p"
  by (auto simp: rate_gate_def keep_defs split: option.splits if_splits prod.splits sum.splits)

lemma estimate_keeps: "estimate e pr m body p = (x, p1) \<Longrightarrow> same_config p1 p \<and> same_reserved p1 p \<and> px_users p1 = px_users p"
  by (auto simp: estimate_def keep_defs split: if_splits prod.splits option.splits)

lemma daily_gate_keeps: "daily_gate e uid m est p = (b, p1) \<Longrightarrow> same_config p1 p \<and> same_reserved p1 p \<and> px_users p1 = px_users p \<and> px_calc p1 = px_calc p"
  by (auto simp: daily_gate_def effectiveLimits_def keep_defs split: option.splits if_splits prod.splits)

lemma task_gate_keeps:
  "task_gate e job est p = (b, r, p1) \<Longrightarrow> same_config p1 p \<and> px_pending p1 = px_pending p \<and> px_users p1 = px_users p \<and> px_calc p1 = px_calc p"
  by (auto simp: task_gate_def keep_defs split: option.splits if_splits prod.splits sum.splits bool.splits)

lemma sa_provision_keeps:
  "sa_provision e uid amt st chk p = (c, p1) \<Longrightarrow> px_users p = Some st \<Longrightarrow>
     same_config p1 p \<and> same_reserved p1 p \<and> px_calc p1 = px_calc p \<and> (\<not> isServiceAccountID uid \<longrightarrow> c = Some chk \<and> p1 = p)"
  by (auto simp: sa_provision_def keep_defs Let_def split: if_splits prod.splits sum.splits)

lemma budget_gate_keeps:
  assumes "budget_gate e uid adm est p = (b, r, p1)"
  shows "same_config p1 p \<and> px_taskPending p1 = px_taskPending p \<and> px_calc p1 = px_calc p"
proof (cases "px_users p")
  case (Some st)
  define c p2 where "c = (\<lambda>chk. fst (sa_provision e uid (reserve_amount est) st chk p))"
    and "p2 = (\<lambda>chk. snd (sa_provision e uid (reserve_amount est) st chk p))"
  then have sp: "sa_provision e uid (reserve_amount est) st chk p = (c chk, p2 chk)" for chk by simp
  note k = sa_provision_keeps [OF sp Some]
  then have t: "px_taskPending (p2 chk) = px_taskPending p" for chk by (simp add: same_reserved_def)
  have u: "same_config (q\<lparr>px_pending := x\<rparr>) p" if "same_config q p" for q x using that by (simp add: same_config_def)
  show ?thesis using assms Some k t u
    by (auto simp: budget_gate_def sp split: if_splits sum.splits option.splits prod.splits bool.splits)
qed (use assms in \<open>simp add: budget_gate_def\<close>)

section \<open>What a passed gate shows\<close>

lemma ReserveIfUnder_True:
  "ReserveIfUnder i rem amt fl t = (True, t') \<Longrightarrow>
     \<not> rem - pending_Get i t - amt < fl \<and> pending_Get i t' = pending_Get i t + amt \<and> (\<forall>k. k \<noteq> i \<longrightarrow> pending_Get k t' = pending_Get k t)"
  by (auto simp: ReserveIfUnder_def pending_Get_def split: if_splits)

lemma task_gate_reserves:
  assumes "task_gate e job est p = (None, r, p1)" and "px_users p = Some st" and "job \<noteq> []"
  shows "\<exists>chk. CheckTaskBudget (pf_task_fails e) (pf_now e) job (reserve_amount est) st = Inr chk \<and> tr_Allowed chk \<and> r = reserve_amount est \<and>
    ReserveIfUnder job (tr_RemainingUSD chk) (reserve_amount est) 0 (px_taskPending p) = (True, px_taskPending p1)"
  using assms by (auto simp: task_gate_def split: sum.splits if_splits prod.splits bool.splits)

lemma budget_gate_reserves:
  assumes "budget_gate e uid False est p = (None, r, p1)" and "px_users p = Some st" and "uid \<noteq> []" and "\<not> isServiceAccountID uid"
  shows "\<exists>chk. CheckBudget (pf_check_flt e) (pf_loc e) (pf_now e) uid (reserve_amount est) st = Inr chk \<and> r_Allowed chk \<and> r = reserve_amount est \<and>
    ReserveIfUnder uid (r_RemainingUSD chk) (reserve_amount est) 0 (px_pending p) = (True, px_pending p1) \<and> px_users p1 = px_users p"
  using assms by (auto simp: budget_gate_def sa_provision_def split: sum.splits if_splits prod.splits bool.splits)

lemma spend_admitted:
  assumes "spend_gates e job a0 q = (Admitted a, p')"
  obtains tr p1 br p2 where "task_gate e job (ad_estimate a0) q = (None, tr, p1)"
    "budget_gate e (ad_user a0) (ad_isAdmin a0) (ad_estimate a0) p1 = (None, br, p2)"
    "cap_gate (ad_model a0) (ad_estimate a0) p2 = None" "daily_gate e (ad_user a0) (ad_model a0) (ad_estimate a0) p2 = (None, p')"
    "a = a0\<lparr>ad_taskReserved := tr, ad_budgetReserved := br\<rparr>"
  using assms by (auto simp: spend_gates_def split: prod.splits option.splits)

lemma route_known: "route path p = Some (pr, up) \<Longrightarrow> pr \<in> set (px_providers p)"
  by (auto simp: route_def split: option.splits if_splits prod.splits)

lemma body_admitted:
  assumes "body_gates e rq u provider upstream body p = (Admitted a, p')"
  obtains q a0 where "same_config q p" "same_reserved q p" "px_users q = px_users p" "model_gates e (rq_tenant rq) a0 q = None"
    "spend_gates e (rq_job rq) a0 q = (Admitted a, p')" "ad_user a0 = caller_id (rq_caller rq)" "ad_provider a0 = provider"
    "ad_record a0 = u" "ad_isAdmin a0 = is_admin u"
proof -
  obtain est q where es: "estimate e provider (pf_model_of e provider body upstream) body p = (est, q)" by fastforce
  show thesis
    using assms estimate_keeps [OF es] by (auto simp: body_gates_def es Let_def split: option.splits intro!: that)
qed

lemma preflight_admitted:
  assumes "preflight e rq p = (Admitted a, p')"
  obtains q a0 where "same_config q p" "same_reserved q p" "model_gates e (rq_tenant rq) a0 q = None"
    "spend_gates e (rq_job rq) a0 q = (Admitted a, p')" "ad_user a0 = caller_id (rq_caller rq)" "ad_provider a0 \<in> set (px_providers p)"
    "ad_isAdmin a0 = is_admin (ad_record a0)"
proof -
  obtain p1 where g1: "sa_gate e (caller_id (rq_caller rq)) p = (None, p1)"
    and r1: "(case route (rq_Path rq) p1 of
                None \<Rightarrow> (Blocked (400, ''invalid_request_error''), p1)
              | Some (provider, upstream) \<Rightarrow>
                  let u = user_record e (caller_id (rq_caller rq)) p1
                  in case rate_gate e (caller_id (rq_caller rq)) (is_admin u) p1 of
                       (Some b, p2) \<Rightarrow> (Blocked b, p2)
                     | (None, p2) \<Rightarrow>
                         if rq_Method rq = ''GET'' \<and> HasSuffix upstream ''/models'' then (Listed, p2)
                         else case rq_body rq of
                                Inl code \<Rightarrow> (Blocked (code, ''invalid_request_error''), p2)
                              | Inr body \<Rightarrow> body_gates e rq u provider upstream body p2) = (Admitted a, p')"
    using assms by (auto simp: preflight_def Let_def split: prod.splits option.splits)
  obtain provider upstream where rt: "route (rq_Path rq) p1 = Some (provider, upstream)"
    using r1 by (auto split: option.splits)
  define u where "u = user_record e (caller_id (rq_caller rq)) p1"
  obtain p2 body where g2: "rate_gate e (caller_id (rq_caller rq)) (is_admin u) p1 = (None, p2)"
    and bd: "body_gates e rq u provider upstream body p2 = (Admitted a, p')"
    using r1 by (auto simp: rt Let_def u_def [symmetric] split: prod.splits option.splits if_splits sum.splits)
  from bd obtain q a0 where q: "same_config q p2" "same_reserved q p2" "model_gates e (rq_tenant rq) a0 q = None"
    "spend_gates e (rq_job rq) a0 q = (Admitted a, p')" "ad_user a0 = caller_id (rq_caller rq)" "ad_provider a0 = provider"
    "ad_record a0 = u" "ad_isAdmin a0 = is_admin u" by (rule body_admitted)
  have k: "same_config q p" "same_reserved q p" "same_config p1 p"
    using sa_gate_keeps [OF g1] rate_gate_keeps [OF g2] q(1,2) by (auto simp: keep_defs)
  have "provider \<in> set (px_providers p)" using route_known [OF rt] k(3) by (simp add: same_config_def)
  then show thesis using that [OF k(1,2) q(3,4,5)] q(6-8) by simp
qed

section \<open>Properties\<close>

lemma above_floor_positive: "Fin (1 / 32) \<le> f \<Longrightarrow> \<not> (if f < est then est else f) \<le> (0 :: f64)"
  by (cases f; cases est) (auto simp: zero_f64_def)

lemma floor_lower: "Fin (1 / 32) \<le> reservationFloor"
proof -
  have "on_grid (1 / 32)" unfolding on_grid_def by simp
  then have "mk (1 / 32) = Fin (1 / 32)" by (rule mk_on_grid) simp
  moreover have "mk (1 / 32) \<le> mk (1 / 20)" by (rule mk_mono) simp
  ultimately show ?thesis by (simp add: reservationFloor_def)
qed

lemma reserve_positive: "\<not> reserve_amount est \<le> 0"
  unfolding reserve_amount_def by (rule above_floor_positive [OF floor_lower])

lemma checkAccessTags_iff: "checkAccessTags tags req \<longleftrightarrow> req = [] \<or> set tags \<inter> set req \<noteq> {}"
  by (auto simp: checkAccessTags_def list_ex_iff)

lemma model_gates_passed:
  assumes "model_gates e tenant a q = None" and "ad_model a \<noteq> []"
  shows "policy_IsAllowed (px_policy q) (ad_provider a) (ad_model a) \<and>
    (ToLower (ad_provider a) = ''local'' \<or> HasPricing (pf_now e) (px_calc q) (pricingProvider (ad_provider a)) (ad_model a)) \<and>
    (\<forall>get entry. px_catalog q = Some get \<and> \<not> ad_isAdmin a \<and> get (ad_provider a) (ad_model a) = Inr entry \<longrightarrow>
       checkAccessTags (user_tags (ad_record a)) (e_RequiredAccess entry) \<and> checkTenantAccess tenant (e_AllowedTenants entry))"
  using assms by (auto simp: model_gates_def pricing_gate_def policy_gate_def access_gate_def split: option.splits if_splits)

lemma attempts_allowed:
  assumes "policy_IsAllowed policy primary model" and "ToLower primary = ''local'' \<or> HasPricing now calc (canonical primary) model" and "model \<noteq> []"
    and "fp \<in> set (provider_attempts now calc canonical policy breakers resolver primary model)"
  shows "policy_IsAllowed policy fp model \<and> (ToLower fp = ''local'' \<or> HasPricing now calc (canonical fp) model)"
  using assms by (auto simp: provider_attempts_def split: option.splits)

text \<open>
  C7: a request that names a model is forwarded only where it may go.  When the gates admit it, its provider is
  configured; every provider it may be sent to, the fallbacks included, is allowed the model by the policy and has
  a price for it or is the local one; and unless the caller is an administrator, a catalog entry of the model for
  the primary provider is open to a tag of the caller and to the tenant of the request.
\<close>

theorem admitted_authorised:
  assumes "preflight e rq p = (Admitted a, p')" and "ad_model a \<noteq> []"
  shows "ad_provider a \<in> set (px_providers p) \<and>
    (\<forall>fp \<in> set (provider_attempts (pf_now e) (px_calc p') pricingProvider (px_policy p) breakers resolver (ad_provider a) (ad_model a)).
       policy_IsAllowed (px_policy p) fp (ad_model a) \<and>
       (ToLower fp = ''local'' \<or> HasPricing (pf_now e) (px_calc p') (pricingProvider fp) (ad_model a))) \<and>
    (\<forall>get entry. px_catalog p = Some get \<and> \<not> ad_isAdmin a \<and> get (ad_provider a) (ad_model a) = Inr entry \<longrightarrow>
       (e_RequiredAccess entry = [] \<or> set (user_tags (ad_record a)) \<inter> set (e_RequiredAccess entry) \<noteq> {}) \<and>
       (e_AllowedTenants entry = [] \<or> rq_tenant rq \<in> set (e_AllowedTenants entry)))"
proof -
  obtain q a0 where q: "same_config q p" "model_gates e (rq_tenant rq) a0 q = None" "spend_gates e (rq_job rq) a0 q = (Admitted a, p')"
    "ad_provider a0 \<in> set (px_providers p)" using assms(1) by (rule preflight_admitted)
  obtain tr p1 br p2 where s: "task_gate e (rq_job rq) (ad_estimate a0) q = (None, tr, p1)"
    "budget_gate e (ad_user a0) (ad_isAdmin a0) (ad_estimate a0) p1 = (None, br, p2)"
    "daily_gate e (ad_user a0) (ad_model a0) (ad_estimate a0) p2 = (None, p')"
    "a = a0\<lparr>ad_taskReserved := tr, ad_budgetReserved := br\<rparr>" using q(3) by (rule spend_admitted)
  have c: "px_calc p' = px_calc q" using task_gate_keeps [OF s(1)] budget_gate_keeps [OF s(2)] daily_gate_keeps [OF s(3)] by simp
  have f: "px_policy q = px_policy p" "px_catalog q = px_catalog p" using q(1) by (simp_all add: same_config_def)
  have m: "ad_model a0 \<noteq> []" using assms(2) s(4) by simp
  note g = model_gates_passed [OF q(2) m, unfolded f]
  show ?thesis
    using g q(4) m attempts_allowed [of "px_policy p" "ad_provider a0" "ad_model a0" "pf_now e" "px_calc q" pricingProvider]
    by (auto simp: s(4) c checkAccessTags_iff checkTenantAccess_def split: if_splits)
qed

definition pf_demo_env :: pf_env where
  "pf_demo_env =
     \<lparr>pf_now = 0, pf_loc = (\<lambda>_. 0), pf_user_fails = False, pf_rate_flt = (\<lambda>_. False), pf_task_fails = False, pf_check_flt = (\<lambda>_. False),
      pf_set_flt = (\<lambda>_. False), pf_recheck_flt = (\<lambda>_. False), pf_limits_fails = False, pf_model_of = (\<lambda>_ _ _. ''llama'')\<rparr>"

definition demo_proxy :: Proxy where
  "demo_proxy =
     \<lparr>px_users = None, px_saRL = None, px_calc = NewEmpty, px_policy = None, px_catalog = None, px_providers = [''local''], px_pending = [],
      px_taskPending = [], px_saProvisioned = [], px_saDefaultBudgetUSD = 0, px_MaxRequestCost = 0, px_spendTracker = None,
      px_modelLimits = None, px_DailyLimits = []\<rparr>"

definition demo_request :: request where
  "demo_request =
     \<lparr>rq_caller = None, rq_Method = ''POST'', rq_Path = ''/proxy/local/v1/chat'', rq_tenant = [], rq_job = [], rq_body = Inr []\<rparr>"

definition demo_admission :: admission where
  "demo_admission =
     \<lparr>ad_user = [], ad_isAdmin = False, ad_record = None, ad_provider = ''local'', ad_path = ''/v1/chat'', ad_model = ''llama'',
      ad_estimate = 0, ad_taskReserved = 0, ad_budgetReserved = 0\<rparr>"

lemma demo_local: "ToLower ''local'' = ''local''"
  by code_simp

lemmas demo_gates = sa_gate_def route_def user_record_def rate_gate_def body_gates_def estimate_def estimateRequestCost_def
  model_gates_def pricing_gate_def policy_gate_def policy_IsAllowed_def access_gate_def spend_gates_def task_gate_def
  budget_gate_def cap_gate_def daily_gate_def caller_id_def is_admin_def

lemma demo_admitted: "preflight pf_demo_env demo_request demo_proxy = (Admitted demo_admission, demo_proxy)"
  by (simp add: preflight_def demo_gates pf_demo_env_def demo_request_def demo_proxy_def demo_admission_def demo_local
      TrimPrefix_def HasPrefix_def zero_f64_def)

theorem admitted_authorised_witness:
  "policy_IsAllowed None ''local'' ''llama'' \<and> ''local'' \<in> set (px_providers demo_proxy)"
  using admitted_authorised [OF demo_admitted, of "[]" None]
  by (simp add: demo_admission_def demo_proxy_def provider_attempts_def)


lemma f64_between: "Fin a \<le> f \<Longrightarrow> f \<le> Fin b \<Longrightarrow> \<exists>x. f = Fin x \<and> a \<le> x \<and> x \<le> b"
  by (cases f) auto

lemma demo_floor: "reserve_amount 0 = reservationFloor" "\<not> Fin 6 < reservationFloor" "\<not> Fin 6 - 0 - reservationFloor < 0"
proof -
  have "mk (1 / 20) \<le> mk 1" by (rule mk_mono) simp
  then have u: "reservationFloor \<le> Fin 1" using mk_of_int [of 1] by (simp add: reservationFloor_def)
  then obtain x where x: "reservationFloor = Fin x" "1 / 32 \<le> x" "x \<le> 1"
    using f64_between [OF floor_lower] by blast
  show "reserve_amount 0 = reservationFloor" "\<not> Fin 6 < reservationFloor"
    unfolding reserve_amount_def x(1) zero_f64_def using x(2,3) by simp_all
  have "mk 5 \<le> mk (6 - x)" using x by (intro mk_mono) simp
  then have "Fin 5 \<le> mk (6 - x)" using mk_of_int [of 5] by simp
  moreover have "mk 6 = Fin 6" using mk_of_int [of 6] by simp
  ultimately show "\<not> Fin 6 - 0 - reservationFloor < 0"
    unfolding x(1) by (cases "mk (6 - x)") (auto simp: minus_f64_def zero_f64_def)
qed

lemma demo_task_admitted:
  "preflight pf_demo_env (demo_request\<lparr>rq_job := ''t''\<rparr>) (demo_proxy\<lparr>px_users := Some (empty_store\<lparr>task_budgets := [(''t'', demo_task)]\<rparr>)\<rparr>) =
     (Admitted (demo_admission\<lparr>ad_taskReserved := reservationFloor\<rparr>),
      demo_proxy\<lparr>px_users := Some (empty_store\<lparr>task_budgets := [(''t'', demo_task)]\<rparr>), px_taskPending := [(''t'', 0 + reservationFloor)]\<rparr>)"
proof -
  let ?st = "empty_store\<lparr>task_budgets := [(''t'', demo_task)]\<rparr>"
  have "mk 6 = Fin 6" using mk_of_int [of 6] by simp
  then have rem: "Task_Remaining demo_task = Fin 6"
    by (simp add: Task_Remaining_def demo_task_def SafeSubUSD_def Let_def is_nan_def minus_f64_def zero_f64_def)
  have c: "CheckTaskBudget False 0 ''t'' reservationFloor ?st =
      Inr \<lparr>tr_Allowed = True, tr_Reason = TaskNoReason, tr_RemainingUSD = Fin 6, tr_LimitUSD = Fin 10, tr_SpentUSD = Fin 4\<rparr>"
    using demo_floor rem by (simp add: CheckTaskBudget_def GetTaskBudget_def Task_IsExpired_def demo_task_def)
  have r: "ReserveIfUnder ''t'' (Fin 6) reservationFloor 0 [] = (True, [(''t'', 0 + reservationFloor)])"
    using demo_floor reserve_positive [of 0] by (simp add: ReserveIfUnder_def pending_Get_def)
  have z: "\<not> (0 :: f64) < 0" by (simp add: zero_f64_def)
  show ?thesis
    by (simp add: preflight_def demo_gates pf_demo_env_def demo_request_def demo_proxy_def demo_admission_def demo_local
        TrimPrefix_def HasPrefix_def demo_floor c r z)
qed


section \<open>Service accounts\<close>

lemma unregistered_no_rows:
  assumes "refs_ok st" and "\<not> has_user st i"
  shows "map_of (budget_configs st) i = None" "active_grants now i st = []"
proof -
  have "i \<notin> referenced st" using assms by (auto simp: refs_ok_def has_user_def)
  then show "map_of (budget_configs st) i = None" "active_grants now i st = []"
    by (auto simp: referenced_def active_grants_def map_of_eq_None_iff filter_empty_conv image_iff)
qed

lemma unregistered_check:
  assumes "refs_ok st" and "GetUser False uid st = Inl ErrNotFound" and "\<not> amt \<le> 0"
  shows "\<exists>chk. CheckBudget (\<lambda>_. False) loc now uid amt st = Inr chk \<and> \<not> r_Allowed chk \<and> r_Reason chk = ReasonNoBudget"
    and "\<not> has_user st (normalizeID uid)"
proof -
  show n: "\<not> has_user st (normalizeID uid)" using assms(2) by (auto simp: GetUser_def has_user_def find_None_iff split: option.splits)
  have g: "GetUser False (normalizeID uid) st = Inl ErrNotFound" using assms(2) by (simp add: GetUser_def)
  have z: "(0 :: f64) + 0 = 0" by (simp add: zero_f64_def)
  show "\<exists>chk. CheckBudget (\<lambda>_. False) loc now uid amt st = Inr chk \<and> \<not> r_Allowed chk \<and> r_Reason chk = ReasonNoBudget"
    using assms(3) by (simp add: CheckBudget_def CheckBalance_def ListGrants_def GetBudget_def g unregistered_no_rows [OF assms(1) n] z feq_def zero_f64_def Let_def)
qed

text \<open>
  The default budget never reaches an unregistered service account.  In a well-formed store a service account
  without a user row is not charged against any budget: its check fails for lack of one, the budget the gate tries
  to provision is refused because no user row exists, and the gate lets the request pass with nothing reserved and
  nothing remembered, so that the next request meets the same.
\<close>

lemma unregistered_sa_unbudgeted:
  assumes "store_ok st" and "px_users p = Some st" and "isServiceAccountID uid" and "GetUser False uid st = Inl ErrNotFound"
    and "0 < px_saDefaultBudgetUSD p" and "uid \<notin> set (px_saProvisioned p)" and "pf_check_flt e = (\<lambda>_. False)"
  shows "budget_gate e uid isAdmin est p = (None, 0, p)"
proof -
  have r: "refs_ok st" using assms(1) by (simp add: store_ok_def)
  obtain chk where c: "CheckBudget (\<lambda>_. False) (pf_loc e) (pf_now e) uid (reserve_amount est) st = Inr chk" "\<not> r_Allowed chk" "r_Reason chk = ReasonNoBudget"
    using unregistered_check(1) [OF r assms(4) reserve_positive] by blast
  have n: "\<not> has_user st (normalizeID uid)" by (rule unregistered_check(2) [OF r assms(4) reserve_positive])
  have u: "uid \<noteq> []" using assms(3) by (auto simp: isServiceAccountID_def HasSuffix_def)
  have same: "p\<lparr>px_users := Some st\<rparr> = p" using assms(2) by (cases p) simp
  have "SetBudget (pf_set_flt e) (pf_loc e) (pf_now e)
      \<lparr>b_UserID = uid, b_LimitUSD = px_saDefaultBudgetUSD p, b_SpentUSD = 0, b_TokensUsed = 0, b_AllTokensUsed = 0,
       b_PeriodType = ''daily'', b_PeriodKey = [], b_PeriodStart = 0, b_PeriodEnd = 0\<rparr> st = (Inl DBError, st)"
    using u n by (simp add: SetBudget_def Let_def)
  then have "sa_provision e uid (reserve_amount est) st chk p = (None, p)"
    using c(2,3) assms(3,5,6) by (simp add: sa_provision_def same)
  then show ?thesis using assms(2,3,7) u c(1) by (simp add: budget_gate_def)
qed

text \<open>
  The check answers \<open>ReasonNoBudget\<close> for a deactivated user too, so the first request of a deactivated service
  account overwrites the limit an administrator has set for it with the default.
\<close>

lemma deactivated_sa_budget_reset:
  assumes "px_users p = Some st" and "isServiceAccountID uid" and "has_user st (normalizeID uid)"
    and "GetUser False uid st = Inr u" and "u_Status u = ''inactive''"
    and "0 < px_saDefaultBudgetUSD p" and "uid \<notin> set (px_saProvisioned p)"
    and "pf_check_flt e = (\<lambda>_. False)" and "pf_set_flt e = (\<lambda>_. False)" and "pf_recheck_flt e = (\<lambda>_. False)"
  shows "\<exists>p' st'. budget_gate e uid isAdmin est p = (Some (402, ''insufficient_budget''), 0, p') \<and> px_users p' = Some st' \<and>
    map_option c_limit_usd (map_of (budget_configs st') (normalizeID uid)) = Some (px_saDefaultBudgetUSD p)"
proof -
  have u: "uid \<noteq> []" using assms(2) by (auto simp: isServiceAccountID_def HasSuffix_def)
  have nn: "\<not> is_nan (px_saDefaultBudgetUSD p)" using assms(6) by (auto simp: is_nan_def)
  have c: "CheckBudget (\<lambda>_. False) loc now uid amt s = Inr (denied ReasonNoBudget amt)" if "users s = users st" for loc now amt s
    using assms(4,5) that by (simp add: CheckBudget_def GetUser_def)
  show ?thesis
    using assms(1-3,6-10) u nn c by (simp add: budget_gate_def sa_provision_def SetBudget_def Let_def denied_def split: option.split)
qed

text \<open>
  The catalog does not guard fallbacks.  A configured fallback provider that passes the price and policy gates is
  tried even when the access gate would refuse the caller the model at that provider.
\<close>

lemma fallback_skips_access:
  assumes "access_gate u isAdmin tenant fp model p = Some (403, ''access_denied'')"
    and "fp \<in> set (FallbackProviders r model primary)" and "map_of breakers fp = None"
    and "pricing_gate e fp model p = None" and "policy_gate fp model p = None"
  shows "fp \<in> set (provider_attempts (pf_now e) (px_calc p) pricingProvider (px_policy p) breakers (Some r) primary model)"
  using assms by (auto simp: provider_attempts_def pricing_gate_def policy_gate_def split: if_splits)

end
