(* ===== verification/Sink.thy ===== *)
theory Sink
  imports Breaker
begin

text \<open>
  The resilient writer around a storage sink (\<^verbatim>\<open>pkg/processor/resilient_writer.go\<close>): circuit breaker,
  bulkhead and counters.  A write has two steps that other writes may interleave with: \<open>rw_admit\<close>, up to the
  call of the wrapped writer, and \<open>rw_finish\<close>, from its return on.  The semaphore channel is the number of its
  occupied slots; whether the wrapped writer fails is an argument.  The counters of events are unbounded here,
  in the code they are 64 bits wide.
\<close>

record SinkConfig =
  sc_Name :: string
  sc_Timeout :: duration
  BreakerThreshold :: int
  BreakerResetTimeout :: duration
  BreakerHalfOpenMax :: int
  BulkheadSize :: int

record ResilientWriter =
  rw_name :: string
  rw_breaker :: Breaker
  semaphore :: nat
  sem_cap :: int
  rw_timeout :: duration
  totalWrites :: int
  totalFailures :: int
  totalDropped :: int
  lastSuccess :: gotime
  lastFailure :: gotime

definition NewResilientWriter :: "SinkConfig \<Rightarrow> ResilientWriter" where
  "NewResilientWriter cfg =
     \<lparr>rw_name = sc_Name cfg,
      rw_breaker = NewBreaker \<lparr>Threshold = BreakerThreshold cfg, ResetTimeout = BreakerResetTimeout cfg, HalfOpenMax = BreakerHalfOpenMax cfg\<rparr>,
      semaphore = 0, sem_cap = (if BulkheadSize cfg \<le> 0 then 4 else BulkheadSize cfg),
      rw_timeout = (if sc_Timeout cfg \<le> 0 then 30 * ns_second else sc_Timeout cfg),
      totalWrites = 0, totalFailures = 0, totalDropped = 0, lastSuccess = 0, lastFailure = 0\<rparr>"

definition rw_admit :: "gotime \<Rightarrow> 'a list \<Rightarrow> ResilientWriter \<Rightarrow> bool \<times> ResilientWriter" where
  "rw_admit now spans rw =
     (case br_Allow now (rw_breaker rw) of (ok, b) \<Rightarrow>
        let rw1 = rw\<lparr>rw_breaker := b\<rparr>; dropped = rw1\<lparr>totalDropped := totalDropped rw1 + int (length spans)\<rparr>
        in if \<not> ok then (False, dropped)
           else if int (semaphore rw1) < sem_cap rw1
           then (True, rw1\<lparr>semaphore := semaphore rw1 + 1, totalWrites := totalWrites rw1 + 1\<rparr>)
           else (False, dropped))"

definition rw_finish :: "gotime \<Rightarrow> bool \<Rightarrow> ResilientWriter \<Rightarrow> bool \<times> ResilientWriter" where
  "rw_finish now fails rw =
     (let rw1 = (if fails
                 then rw\<lparr>totalFailures := totalFailures rw + 1, lastFailure := now, rw_breaker := br_RecordFailure now (rw_breaker rw)\<rparr>
                 else rw\<lparr>lastSuccess := now, rw_breaker := br_RecordSuccess (rw_breaker rw)\<rparr>)
      in (\<not> fails, rw1\<lparr>semaphore := semaphore rw1 - 1\<rparr>))"

text \<open>A write that nothing interleaves with; \<open>False\<close> is the error of the wrapped writer.\<close>

definition rw_IngestSpans :: "gotime \<Rightarrow> gotime \<Rightarrow> bool \<Rightarrow> 'a list \<Rightarrow> ResilientWriter \<Rightarrow> bool \<times> ResilientWriter" where
  "rw_IngestSpans now t fails spans rw =
     (case rw_admit now spans rw of (ok, rw1) \<Rightarrow> if ok then rw_finish t fails rw1 else (True, rw1))"

record SinkHealth =
  sh_Name :: string
  sh_State :: string
  sh_TotalWrites :: int
  sh_TotalFailures :: int
  sh_TotalDropped :: int
  sh_LastSuccess :: "gotime option"
  sh_LastFailure :: "gotime option"

definition rw_Health :: "ResilientWriter \<Rightarrow> SinkHealth" where
  "rw_Health rw =
     \<lparr>sh_Name = rw_name rw, sh_State = state_String (br_state (rw_breaker rw)), sh_TotalWrites = totalWrites rw,
      sh_TotalFailures = totalFailures rw, sh_TotalDropped = totalDropped rw,
      sh_LastSuccess = (if 0 < lastSuccess rw then Some (lastSuccess rw) else None),
      sh_LastFailure = (if 0 < lastFailure rw then Some (lastFailure rw) else None)\<rparr>"

section \<open>Interleaved writes\<close>

text \<open>
  The states a writer reaches under writes in any interleaving.  The numbers are the spans offered, the spans
  of the writes that were admitted, and the writes that have succeeded.
\<close>

inductive rw_reach :: "SinkConfig \<Rightarrow> nat \<Rightarrow> nat \<Rightarrow> nat \<Rightarrow> ResilientWriter \<Rightarrow> bool" for cfg where
  new: "rw_reach cfg 0 0 0 (NewResilientWriter cfg)"
| admitted: "rw_reach cfg n a k rw \<Longrightarrow> rw_admit now (spans :: unit list) rw = (True, rw') \<Longrightarrow>
    rw_reach cfg (n + length spans) (a + length spans) k rw'"
| refused: "rw_reach cfg n a k rw \<Longrightarrow> rw_admit now (spans :: unit list) rw = (False, rw') \<Longrightarrow>
    rw_reach cfg (n + length spans) a k rw'"
| finished: "rw_reach cfg n a k rw \<Longrightarrow> 0 < semaphore rw \<Longrightarrow> rw_finish t fails rw = (ok, rw') \<Longrightarrow>
    rw_reach cfg n a (if ok then k + 1 else k) rw'"

lemma rw_admit_True:
  assumes "rw_admit now spans rw = (True, rw')"
  shows "int (semaphore rw) < sem_cap rw \<and> semaphore rw' = semaphore rw + 1 \<and> sem_cap rw' = sem_cap rw \<and>
    totalWrites rw' = totalWrites rw + 1 \<and> totalFailures rw' = totalFailures rw \<and> totalDropped rw' = totalDropped rw"
  using assms by (auto simp: rw_admit_def Let_def split: prod.splits if_splits)

lemma rw_admit_False:
  assumes "rw_admit now spans rw = (False, rw')"
  shows "semaphore rw' = semaphore rw \<and> sem_cap rw' = sem_cap rw \<and> totalWrites rw' = totalWrites rw \<and>
    totalFailures rw' = totalFailures rw \<and> totalDropped rw' = totalDropped rw + int (length spans)"
  using assms by (auto simp: rw_admit_def Let_def split: prod.splits if_splits)

lemma rw_finish_counts:
  assumes "rw_finish t fails rw = (ok, rw')"
  shows "ok = (\<not> fails) \<and> semaphore rw' = semaphore rw - 1 \<and> sem_cap rw' = sem_cap rw \<and> totalWrites rw' = totalWrites rw \<and>
    totalFailures rw' = totalFailures rw + (if fails then 1 else 0) \<and> totalDropped rw' = totalDropped rw"
  using assms by (auto simp: rw_finish_def Let_def)

section \<open>Property\<close>

text \<open>
  C22: whatever the interleaving of its writes and their failures, a sink has at most as many writes in flight
  as its bulkhead has slots; every write it started is in flight, has succeeded or is counted as failed; and
  every span offered belongs to a write that was started or is counted as dropped.
\<close>

theorem sink_accounts:
  assumes "rw_reach cfg n a k rw"
  shows "int (semaphore rw) \<le> sem_cap rw \<and> sem_cap rw = (if BulkheadSize cfg \<le> 0 then 4 else BulkheadSize cfg) \<and>
    totalWrites rw = int (semaphore rw) + int k + totalFailures rw \<and> int n = int a + totalDropped rw"
  using assms
proof induction
  case new
  then show ?case by (simp add: NewResilientWriter_def)
next
  case (admitted n a k rw now spans rw')
  then show ?case using rw_admit_True [OF admitted.hyps(2)] by simp
next
  case (refused n a k rw now spans rw')
  then show ?case using rw_admit_False [OF refused.hyps(2)] by simp
next
  case (finished n a k rw t fails ok rw')
  then show ?case using rw_finish_counts [OF finished.hyps(3)] by (auto simp: of_nat_diff)
qed

theorem sink_accounts_witness:
  "totalDropped (snd (rw_admit 2 [(), ()] (snd (rw_admit 1 [()] (NewResilientWriter
      \<lparr>sc_Name = ''bq'', sc_Timeout = 0, BreakerThreshold = 0, BreakerResetTimeout = 0, BreakerHalfOpenMax = 0, BulkheadSize = 1\<rparr>))))) = 2"
proof -
  define cfg where "cfg = \<lparr>sc_Name = ''bq'', sc_Timeout = 0, BreakerThreshold = 0, BreakerResetTimeout = 0, BreakerHalfOpenMax = 0, BulkheadSize = 1\<rparr>"
  define rw where "rw = snd (rw_admit 1 [()] (NewResilientWriter cfg))"
  define rw' where "rw' = snd (rw_admit 2 [(), ()] rw)"
  note d = rw_admit_def NewResilientWriter_def NewBreaker_def br_Allow_def
  have "rw_admit 1 [()] (NewResilientWriter cfg) = (True, rw)" by (simp add: cfg_def rw_def d)
  from rw_reach.admitted [OF rw_reach.new this] have "rw_reach cfg 1 1 0 rw" by simp
  moreover have "rw_admit 2 [(), ()] rw = (False, rw')" by (simp add: cfg_def rw_def rw'_def d)
  ultimately have "rw_reach cfg 3 1 0 rw'" using rw_reach.refused by (fastforce simp: numeral_eq_Suc)
  from sink_accounts [OF this] show ?thesis by (simp add: rw'_def rw_def cfg_def)
qed

end
