(* ===== verification/Processor.thy ===== *)
theory Processor
  imports Sink CostCalc "HOL-Library.AList"
begin

text \<open>
  The span processor (\<^verbatim>\<open>pkg/processor/processor.go\<close>): the bounded channel of submitted spans, the loop that
  collects them into batches, the flush to all sinks and the broadcast to watchers.

  A receive from or a send to the channel and a pass through the loop are atomic steps; which ready branch the
  \<^verbatim>\<open>select\<close> takes is left open by the relation \<open>run_trace\<close>.  The anomaly detector, the failures of the sinks
  and the clock are arguments, as is the order in which a Go map is iterated.  The sinks of a flush run in
  parallel but share nothing, so they are written one after the other.  The deep copies made for each sink are
  the values themselves.
\<close>

section \<open>Spans\<close>

datatype SpanKind = SpanKindUnspecified | SpanKindLLM | SpanKindAgent | SpanKindTool | SpanKindRetrieval
  | SpanKindEmbedding | SpanKindChain | SpanKindGeneral

datatype SpanStatus = SpanStatusUnspecified | SpanStatusOK | SpanStatusError

record GenAIAttributes =
  g_Model :: string
  g_Provider :: string
  InputTokens :: i64
  OutputTokens :: i64
  TotalTokens :: i64
  CostUSD :: f64
  Temperature :: f64
  MaxTokens :: i64
  TopP :: f64
  InputContent :: string
  OutputContent :: string
  ReasoningContent :: string
  CacheReadTokens :: i64
  CacheCreationTokens :: i64
  InputRate :: f64
  OutputRate :: f64
  g_DiscountPercent :: f64
  g_GlobalDiscount :: f64

record Span =
  SpanID :: string
  TraceID :: string
  ParentSpanID :: string
  s_Name :: string
  s_Kind :: SpanKind
  s_Status :: SpanStatus
  StatusMessage :: string
  StartTime :: gotime
  EndTime :: gotime
  s_Duration :: duration
  GenAI :: "GenAIAttributes option"
  Attributes :: "(string \<times> string) list option"
  s_ProjectID :: string
  Environment :: string
  ServiceName :: string
  s_UserID :: string
  s_SessionID :: string
  s_TenantID :: string
  JobID :: string
  TraceGroup :: string
  Labels :: "(string \<times> string) list option"

section \<open>Watchers\<close>

record TraceBroadcast =
  tb_TraceID :: string
  RootSpanName :: string
  tb_Model :: string
  tb_Provider :: string
  tb_CostUSD :: f64
  DurationMs :: int
  SpanCount :: int
  tb_Status :: string
  Timestamp :: string
  tb_ProjectID :: string

record WatchFilter =
  wf_ProjectID :: string
  wf_Model :: string
  wf_Provider :: string

record subscriber =
  sub_id :: nat
  sub_ch :: "TraceBroadcast list"
  sub_filter :: WatchFilter
  sub_dropped :: int

definition watch_cap :: nat where
  "watch_cap = 100"

definition millis :: "duration \<Rightarrow> int" where
  "millis d = (if d < 0 then - ((- d) div 1000000) else d div 1000000)"

definition new_broadcast :: "(gotime \<Rightarrow> string) \<Rightarrow> Span \<Rightarrow> TraceBroadcast" where
  "new_broadcast hms s =
     \<lparr>tb_TraceID = TraceID s, RootSpanName = [], tb_Model = [], tb_Provider = [], tb_CostUSD = 0, DurationMs = 0, SpanCount = 0,
      tb_Status = (if s_Status s = SpanStatusError then ''error'' else ''ok''), Timestamp = hms (StartTime s), tb_ProjectID = s_ProjectID s\<rparr>"

definition add_span :: "Span \<Rightarrow> TraceBroadcast \<Rightarrow> TraceBroadcast" where
  "add_span s tb =
     (let tb1 = tb\<lparr>SpanCount := SpanCount tb + 1\<rparr>;
          tb2 = (if ParentSpanID s = [] then tb1\<lparr>RootSpanName := s_Name s, DurationMs := millis (time_sub (EndTime s) (StartTime s))\<rparr> else tb1);
          tb3 = (case GenAI s of
                   None \<Rightarrow> tb2
                 | Some g \<Rightarrow>
                     let c = tb2\<lparr>tb_CostUSD := tb_CostUSD tb2 + CostUSD g\<rparr>
                     in if tb_Model c = [] then c\<lparr>tb_Model := g_Model g, tb_Provider := g_Provider g\<rparr> else c)
      in if s_Status s = SpanStatusError then tb3\<lparr>tb_Status := ''error''\<rparr> else tb3)"

fun group_traces :: "(gotime \<Rightarrow> string) \<Rightarrow> Span list \<Rightarrow> (string \<times> TraceBroadcast) list \<Rightarrow> (string \<times> TraceBroadcast) list" where
  "group_traces hms [] m = m"
| "group_traces hms (s # ss) m =
     group_traces hms ss
       (AList.update (TraceID s) (add_span s (case map_of m (TraceID s) of None \<Rightarrow> new_broadcast hms s | Some tb \<Rightarrow> tb)) m)"

definition watch_match :: "WatchFilter \<Rightarrow> TraceBroadcast \<Rightarrow> bool" where
  "watch_match f tb \<longleftrightarrow>
     \<not> (wf_ProjectID f \<noteq> [] \<and> wf_ProjectID f \<noteq> tb_ProjectID tb) \<and>
     \<not> (wf_Model f \<noteq> [] \<and> wf_Model f \<noteq> tb_Model tb) \<and>
     \<not> (wf_Provider f \<noteq> [] \<and> wf_Provider f \<noteq> tb_Provider tb)"

definition watch_send :: "TraceBroadcast \<Rightarrow> subscriber \<Rightarrow> subscriber" where
  "watch_send tb sub =
     (if \<not> watch_match (sub_filter sub) tb then sub
      else if length (sub_ch sub) < watch_cap then sub\<lparr>sub_ch := sub_ch sub @ [tb]\<rparr>
      else sub\<lparr>sub_dropped := sub_dropped sub + 1\<rparr>)"

section \<open>The processor\<close>

record SpanProcessor =
  writers :: "ResilientWriter list"
  sp_calc :: Calculator
  batchSize :: int
  spanCh :: "Span list"
  ch_closed :: bool
  sp_done :: bool
  droppedSpans :: int
  subscribers :: "subscriber list"

definition NewWithConfig :: "(nat \<Rightarrow> string) \<Rightarrow> SinkConfig list \<Rightarrow> Calculator \<Rightarrow> int \<Rightarrow> SpanProcessor" where
  "NewWithConfig show_nat configs c n =
     \<lparr>writers = map (\<lambda>(i, cfg). NewResilientWriter (if sc_Name cfg = [] then cfg\<lparr>sc_Name := ''sink-'' @ show_nat i\<rparr> else cfg))
                  (zip [0..<length configs] configs),
      sp_calc = c, batchSize = (if n \<le> 0 then 100 else n), spanCh = [], ch_closed = False, sp_done = False,
      droppedSpans = 0, subscribers = []\<rparr>"

definition span_cap :: "SpanProcessor \<Rightarrow> int" where
  "span_cap p = batchSize p * 10"

text \<open>A send on a closed channel panics, which is \<open>None\<close>.\<close>

definition Submit :: "Span \<Rightarrow> SpanProcessor \<Rightarrow> SpanProcessor option" where
  "Submit s p =
     (if ch_closed p then None
      else if int (length (spanCh p)) < span_cap p then Some (p\<lparr>spanCh := spanCh p @ [s]\<rparr>)
      else Some (p\<lparr>droppedSpans := droppedSpans p + 1\<rparr>))"

fun SubmitBatch :: "Span list \<Rightarrow> SpanProcessor \<Rightarrow> SpanProcessor option" where
  "SubmitBatch [] p = Some p"
| "SubmitBatch (s # ss) p = (case Submit s p of None \<Rightarrow> None | Some p' \<Rightarrow> SubmitBatch ss p')"

definition Stop :: "SpanProcessor \<Rightarrow> SpanProcessor" where
  "Stop p = p\<lparr>sp_done := True\<rparr>"

definition sp_SinkHealth :: "SpanProcessor \<Rightarrow> SinkHealth list" where
  "sp_SinkHealth p = map rw_Health (writers p)"

definition Subscribe :: "nat \<Rightarrow> WatchFilter \<Rightarrow> SpanProcessor \<Rightarrow> SpanProcessor" where
  "Subscribe i f p = p\<lparr>subscribers := subscribers p @ [\<lparr>sub_id = i, sub_ch = [], sub_filter = f, sub_dropped = 0\<rparr>]\<rparr>"

fun remove_sub :: "nat \<Rightarrow> subscriber list \<Rightarrow> subscriber list" where
  "remove_sub i [] = []"
| "remove_sub i (s # ss) = (if sub_id s = i then ss else s # remove_sub i ss)"

definition Unsubscribe :: "nat \<Rightarrow> SpanProcessor \<Rightarrow> SpanProcessor" where
  "Unsubscribe i p = p\<lparr>subscribers := remove_sub i (subscribers p)\<rparr>"

section \<open>Flush\<close>

definition enrich_span :: "gotime \<Rightarrow> Span \<Rightarrow> Calculator \<Rightarrow> Span \<times> Calculator" where
  "enrich_span now s c =
     (case GenAI s of
        None \<Rightarrow> (s, c)
      | Some g \<Rightarrow>
          if feq (CostUSD g) 0
          then case Calculate now (g_Provider g) (g_Model g) (InputTokens g) (OutputTokens g) c of
                 (cost, c') \<Rightarrow> (s\<lparr>GenAI := Some (g\<lparr>CostUSD := cost\<rparr>)\<rparr>, c')
          else (s, c))"

fun enrich :: "gotime \<Rightarrow> Span list \<Rightarrow> Calculator \<Rightarrow> Span list \<times> Calculator" where
  "enrich now [] c = ([], c)"
| "enrich now (s # ss) c =
     (case enrich_span now s c of (s', c1) \<Rightarrow> case enrich now ss c1 of (ss', c2) \<Rightarrow> (s' # ss', c2))"

definition AttrAnomaly :: string where
  "AttrAnomaly = ''candela.anomaly''"

definition AttrAnomalyReason :: string where
  "AttrAnomalyReason = ''candela.anomaly_reason''"

definition attr :: "Span \<Rightarrow> string \<Rightarrow> string" where
  "attr s k = (case Attributes s of None \<Rightarrow> [] | Some a \<Rightarrow> (case map_of a k of None \<Rightarrow> [] | Some v \<Rightarrow> v))"

definition stamp :: "Span \<Rightarrow> Span \<Rightarrow> Span" where
  "stamp r s =
     (let a = (case Attributes s of None \<Rightarrow> [] | Some a \<Rightarrow> a)
      in s\<lparr>Attributes := Some (AList.update AttrAnomalyReason (attr r AttrAnomalyReason) (AList.update AttrAnomaly (attr r AttrAnomaly) a))\<rparr>)"

text \<open>The index of a span identifier: of several spans with one identifier the last.\<close>

definition span_idx :: "Span list \<Rightarrow> string \<Rightarrow> nat option" where
  "span_idx batch = map_of (rev (zip (map SpanID batch) [0..<length batch]))"

fun stamp_all :: "(string \<Rightarrow> nat option) \<Rightarrow> Span list \<Rightarrow> Span list \<Rightarrow> Span list" where
  "stamp_all idx [] batch = batch"
| "stamp_all idx (r # rs) batch =
     stamp_all idx rs (case idx (SpanID r) of None \<Rightarrow> batch | Some i \<Rightarrow> batch[i := stamp r (batch ! i)])"

text \<open>The detector returns the flagged spans, or \<open>None\<close> for its error; without a detector nothing is flagged.\<close>

definition flag_anomalies :: "(Span list \<Rightarrow> Span list option) option \<Rightarrow> Span list \<Rightarrow> Span list" where
  "flag_anomalies detector batch =
     (case detector of
        None \<Rightarrow> batch
      | Some detect \<Rightarrow> (case detect batch of None \<Rightarrow> batch | Some rs \<Rightarrow> stamp_all (span_idx batch) rs batch))"

definition broadcastToWatchers :: "(gotime \<Rightarrow> string) \<Rightarrow> (TraceBroadcast list \<Rightarrow> TraceBroadcast list) \<Rightarrow> Span list \<Rightarrow> SpanProcessor \<Rightarrow> SpanProcessor" where
  "broadcastToWatchers hms order spans p =
     (if subscribers p = [] then p
      else p\<lparr>subscribers := map (fold watch_send (order (map snd (group_traces hms spans [])))) (subscribers p)\<rparr>)"

record flush_env =
  fe_now :: gotime
  fe_detector :: "(Span list \<Rightarrow> Span list option) option"
  fe_sink :: "nat \<Rightarrow> gotime \<times> gotime \<times> bool"
  fe_hms :: "gotime \<Rightarrow> string"
  fe_order :: "TraceBroadcast list \<Rightarrow> TraceBroadcast list"

definition write_sink :: "flush_env \<Rightarrow> Span list \<Rightarrow> nat \<Rightarrow> ResilientWriter \<Rightarrow> ResilientWriter" where
  "write_sink e batch i rw = (case fe_sink e i of (now, t, fails) \<Rightarrow> snd (rw_IngestSpans now t fails batch rw))"

text \<open>\<open>flush\<close> returns the batch as every sink is offered it.\<close>

definition flush :: "flush_env \<Rightarrow> Span list \<Rightarrow> SpanProcessor \<Rightarrow> Span list \<times> SpanProcessor" where
  "flush e batch p =
     (if batch = [] then ([], p)
      else case enrich (fe_now e) batch (sp_calc p) of (priced, c) \<Rightarrow>
        let out = flag_anomalies (fe_detector e) priced;
            p1 = p\<lparr>sp_calc := c, writers := map (\<lambda>(i, rw). write_sink e out i rw) (zip [0..<length (writers p)] (writers p))\<rparr>
        in (out, broadcastToWatchers (fe_hms e) (fe_order e) out p1))"

section \<open>The loop\<close>

text \<open>The branches of the \<^verbatim>\<open>select\<close>; each returns the collected batch, the flushed one and the processor.\<close>

definition run_receive :: "flush_env \<Rightarrow> Span \<Rightarrow> Span list \<Rightarrow> SpanProcessor \<Rightarrow> Span list \<times> Span list \<times> SpanProcessor" where
  "run_receive e s batch p =
     (let b = batch @ [s]
      in if batchSize p \<le> int (length b) then (case flush e b p of (out, p') \<Rightarrow> ([], out, p')) else (b, [], p))"

definition run_tick :: "flush_env \<Rightarrow> Span list \<Rightarrow> SpanProcessor \<Rightarrow> Span list \<times> Span list \<times> SpanProcessor" where
  "run_tick e batch p = (case flush e batch p of (out, p') \<Rightarrow> ([], out, p'))"

definition run_done :: "flush_env \<Rightarrow> Span list \<Rightarrow> SpanProcessor \<Rightarrow> Span list \<times> Span list \<times> SpanProcessor" where
  "run_done e batch p =
     (case flush e (batch @ spanCh p) (p\<lparr>ch_closed := True, spanCh := []\<rparr>) of (out, p') \<Rightarrow> ([], out, p'))"

definition run_cancelled :: "flush_env \<Rightarrow> Span list \<Rightarrow> SpanProcessor \<Rightarrow> Span list \<times> Span list \<times> SpanProcessor" where
  "run_cancelled e batch p =
     (case flush e (batch @ spanCh p) (p\<lparr>spanCh := []\<rparr>) of (out, p') \<Rightarrow> ([], out, p'))"

text \<open>
  The runs of a processor: the spans submitted so far, those the channel accepted, those flushed, the batch
  being collected, and whether the loop still runs.  A submission during a flush is a step before or after it:
  the flush does not touch the channel.
\<close>

inductive run_trace :: "SpanProcessor \<Rightarrow> Span list \<Rightarrow> Span list \<Rightarrow> Span list \<Rightarrow> Span list \<Rightarrow> bool \<Rightarrow> SpanProcessor \<Rightarrow> bool" for p0 where
  start: "run_trace p0 [] [] [] [] True p0"
| submit: "run_trace p0 sub acc out batch live p \<Longrightarrow> Submit s p = Some p' \<Longrightarrow>
    run_trace p0 (sub @ [s]) (if spanCh p' = spanCh p then acc else acc @ [s]) out batch live p'"
| receive: "run_trace p0 sub acc out batch True p \<Longrightarrow> spanCh p = s # rest \<Longrightarrow> run_receive e s batch (p\<lparr>spanCh := rest\<rparr>) = (b, fl, p') \<Longrightarrow>
    run_trace p0 sub acc (out @ fl) b True p'"
| tick: "run_trace p0 sub acc out batch True p \<Longrightarrow> run_tick e batch p = (b, fl, p') \<Longrightarrow> run_trace p0 sub acc (out @ fl) b True p'"
| stop: "run_trace p0 sub acc out batch live p \<Longrightarrow> run_trace p0 sub acc out batch live (Stop p)"
| finish: "run_trace p0 sub acc out batch True p \<Longrightarrow> sp_done p \<Longrightarrow> run_done e batch p = (b, fl, p') \<Longrightarrow>
    run_trace p0 sub acc (out @ fl) b False p'"
| cancel: "run_trace p0 sub acc out batch True p \<Longrightarrow> run_cancelled e batch p = (b, fl, p') \<Longrightarrow> run_trace p0 sub acc (out @ fl) b False p'"
| subscribe: "run_trace p0 sub acc out batch live p \<Longrightarrow> run_trace p0 sub acc out batch live (Subscribe i f p)"
| unsubscribe: "run_trace p0 sub acc out batch live p \<Longrightarrow> run_trace p0 sub acc out batch live (Unsubscribe i p)"

section \<open>What a flush changes\<close>

text \<open>A span without what the processor may write into it.\<close>

definition bare :: "Span \<Rightarrow> Span" where
  "bare s = s\<lparr>Attributes := None, GenAI := map_option (\<lambda>g. g\<lparr>CostUSD := 0\<rparr>) (GenAI s)\<rparr>"

lemma bare_enrich_span: "bare (fst (enrich_span now s c)) = bare s"
  by (simp add: enrich_span_def bare_def split: option.split prod.split)

lemma bare_enrich: "map bare (fst (enrich now ss c)) = map bare ss"
proof (induction ss arbitrary: c)
  case (Cons s ss)
  obtain s' c1 where e: "enrich_span now s c = (s', c1)" by fastforce
  obtain ss' c2 where r: "enrich now ss c1 = (ss', c2)" by fastforce
  show ?case using Cons [of c1] bare_enrich_span [of now s c] by (simp add: e r)
qed simp

lemma bare_stamp: "bare (stamp r s) = bare s"
  by (simp add: stamp_def bare_def Let_def)

lemma bare_stamp_at: "map bare (batch[i := stamp r (batch ! i)]) = map bare batch"
proof (cases "i < length batch")
  case True
  then have "(map bare batch)[i := bare (batch ! i)] = map bare batch" by (metis list_update_id nth_map)
  then show ?thesis by (simp add: map_update bare_stamp)
qed (simp add: list_update_beyond)

lemma bare_stamp_all: "map bare (stamp_all idx rs batch) = map bare batch"
  by (induction idx rs batch rule: stamp_all.induct) (auto simp: bare_stamp_at split: option.split)

lemma bare_flag: "map bare (flag_anomalies d batch) = map bare batch"
  by (simp add: flag_anomalies_def bare_stamp_all split: option.split)

definition same_queue :: "SpanProcessor \<Rightarrow> SpanProcessor \<Rightarrow> bool" where
  "same_queue p q \<longleftrightarrow> spanCh p = spanCh q \<and> ch_closed p = ch_closed q \<and> batchSize p = batchSize q \<and> droppedSpans p = droppedSpans q"

lemma flush_queue:
  assumes "flush e batch p = (out, p')"
  shows "map bare out = map bare batch \<and> same_queue p' p"
proof (cases "batch = []")
  case False
  obtain priced c where en: "enrich (fe_now e) batch (sp_calc p) = (priced, c)" by fastforce
  have "map bare priced = map bare batch" using bare_enrich [of "fe_now e" batch "sp_calc p"] by (simp add: en)
  then show ?thesis
    using assms False by (auto simp: flush_def en Let_def bare_flag same_queue_def broadcastToWatchers_def split: if_splits)
qed (use assms in \<open>simp add: flush_def same_queue_def\<close>)

section \<open>What watchers receive\<close>

definition watch_ok :: "subscriber \<Rightarrow> bool" where
  "watch_ok sub \<longleftrightarrow> length (sub_ch sub) \<le> watch_cap \<and> list_all (watch_match (sub_filter sub)) (sub_ch sub)"

lemma watch_send_ok: "watch_ok sub \<Longrightarrow> watch_ok (watch_send tb sub)"
  by (simp add: watch_ok_def watch_send_def)

lemma watch_sends_ok: "watch_ok sub \<Longrightarrow> watch_ok (fold watch_send tbs sub)"
  by (induction tbs arbitrary: sub) (simp_all add: watch_send_ok)

lemma broadcast_ok:
  assumes "list_all watch_ok (subscribers p)"
  shows "list_all watch_ok (subscribers (broadcastToWatchers hms order spans p))"
  using assms by (auto simp: broadcastToWatchers_def list_all_iff watch_sends_ok)

text \<open>Every span of a batch is counted in the summary of its trace, and in no other.\<close>

lemma add_span_count [simp]: "SpanCount (add_span s tb) = SpanCount tb + 1"
  by (simp add: add_span_def Let_def split: option.split)

lemma group_traces_count:
  "(case map_of (group_traces hms ss m) t of None \<Rightarrow> 0 | Some tb \<Rightarrow> SpanCount tb) =
     (case map_of m t of None \<Rightarrow> 0 | Some tb \<Rightarrow> SpanCount tb) + int (length (filter (\<lambda>s. TraceID s = t) ss))"
proof (induction ss arbitrary: m)
  case (Cons s ss)
  show ?case by (simp add: Cons.IH new_broadcast_def split: option.split)
qed simp

section \<open>Properties\<close>

definition run_ok :: "Span list \<Rightarrow> Span list \<Rightarrow> Span list \<Rightarrow> Span list \<Rightarrow> bool \<Rightarrow> SpanProcessor \<Rightarrow> bool" where
  "run_ok sub acc out batch live p \<longleftrightarrow>
     0 < batchSize p \<and> map bare acc = map bare (out @ batch @ spanCh p) \<and> int (length sub) = int (length acc) + droppedSpans p \<and>
     int (length (spanCh p)) \<le> span_cap p \<and> int (length batch) < batchSize p \<and>
     (live \<longrightarrow> \<not> ch_closed p) \<and> (\<not> live \<longrightarrow> batch = []) \<and> (ch_closed p \<longrightarrow> spanCh p = [])"

lemmas run_ok_simps = run_ok_def same_queue_def span_cap_def

lemma run_ok_submit:
  assumes "run_ok sub acc out batch live p" and "Submit s p = Some p'"
  shows "run_ok (sub @ [s]) (if spanCh p' = spanCh p then acc else acc @ [s]) out batch live p'"
  using assms by (auto simp: run_ok_simps Submit_def split: if_splits)

lemma run_ok_flush:
  assumes "run_ok sub acc out batch True p" and "flush e (batch @ new) q = (fl, p')"
    and "spanCh p = new @ spanCh q" and "batchSize q = batchSize p" and "droppedSpans q = droppedSpans p"
    and "ch_closed q \<longrightarrow> \<not> live \<and> spanCh q = []"
  shows "run_ok sub acc (out @ fl) [] live p'"
  using flush_queue [OF assms(2)] assms(1,3-6) by (auto simp: run_ok_simps)

lemma run_ok_receive:
  assumes "run_ok sub acc out batch True p" and "spanCh p = s # rest" and "run_receive e s batch (p\<lparr>spanCh := rest\<rparr>) = (b, fl, p')"
  shows "run_ok sub acc (out @ fl) b True p'"
proof (cases "batchSize p \<le> int (length (batch @ [s]))")
  case True
  obtain q where "flush e (batch @ [s]) (p\<lparr>spanCh := rest\<rparr>) = (fl, q)" "b = []" "p' = q"
    using assms(3) True by (auto simp: run_receive_def Let_def split: prod.splits)
  then show ?thesis using run_ok_flush [OF assms(1), of e "[s]" "p\<lparr>spanCh := rest\<rparr>" fl q True] assms(1,2) by (simp add: run_ok_def)
next
  case False
  then show ?thesis using assms by (auto simp: run_receive_def Let_def run_ok_simps)
qed

lemma run_ok_stop: "run_ok sub acc out batch live p \<Longrightarrow> run_ok sub acc out batch live (Stop p)"
  by (simp add: run_ok_simps Stop_def)

lemma run_ok_subscribe: "run_ok sub acc out batch live p \<Longrightarrow> run_ok sub acc out batch live (Subscribe i f p)"
  by (simp add: run_ok_simps Subscribe_def)

lemma run_ok_unsubscribe: "run_ok sub acc out batch live p \<Longrightarrow> run_ok sub acc out batch live (Unsubscribe i p)"
  by (simp add: run_ok_simps Unsubscribe_def)

lemma run_tick_flush: "run_tick e batch p = (b, fl, p') \<Longrightarrow> b = [] \<and> flush e batch p = (fl, p')"
  by (cases "flush e batch p") (simp add: run_tick_def)

lemma run_done_flush: "run_done e batch p = (b, fl, p') \<Longrightarrow> b = [] \<and> flush e (batch @ spanCh p) (p\<lparr>ch_closed := True, spanCh := []\<rparr>) = (fl, p')"
  by (cases "flush e (batch @ spanCh p) (p\<lparr>ch_closed := True, spanCh := []\<rparr>)") (simp add: run_done_def)

lemma run_cancelled_flush: "run_cancelled e batch p = (b, fl, p') \<Longrightarrow> b = [] \<and> flush e (batch @ spanCh p) (p\<lparr>spanCh := []\<rparr>) = (fl, p')"
  by (cases "flush e (batch @ spanCh p) (p\<lparr>spanCh := []\<rparr>)") (simp add: run_cancelled_def)

lemma run_ok_trace: "run_trace p0 sub acc out batch live p \<Longrightarrow> run_ok [] [] [] [] True p0 \<Longrightarrow> run_ok sub acc out batch live p"
proof (induction rule: run_trace.induct)
  case start
  then show ?case .
next
  case (submit sub acc out batch live p s p')
  then show ?case by (blast intro: run_ok_submit)
next
  case (receive sub acc out batch p s rest e b fl p')
  then show ?case by (blast intro: run_ok_receive)
next
  case (tick sub acc out batch p e b fl p')
  then have r: "run_ok sub acc out batch True p" by blast
  moreover have "\<not> ch_closed p" using r by (simp add: run_ok_def)
  ultimately show ?case using run_ok_flush [OF r, of e "[]" p fl p' True] run_tick_flush [OF tick.hyps(2)] by simp
next
  case (stop sub acc out batch live p)
  then show ?case by (blast intro: run_ok_stop)
next
  case (finish sub acc out batch p e b fl p')
  then have r: "run_ok sub acc out batch True p" by blast
  show ?case using run_ok_flush [OF r, of e "spanCh p" _ fl p' False] run_done_flush [OF finish.hyps(3)] by fastforce
next
  case (cancel sub acc out batch p e b fl p')
  then have r: "run_ok sub acc out batch True p" by blast
  show ?case using run_ok_flush [OF r, of e "spanCh p" _ fl p' False] run_cancelled_flush [OF cancel.hyps(2)] by fastforce
next
  case (subscribe sub acc out batch live p i f)
  then show ?case by (blast intro: run_ok_subscribe)
next
  case (unsubscribe sub acc out batch live p i)
  then show ?case by (blast intro: run_ok_unsubscribe)
qed

text \<open>
  C21: no span is lost, duplicated, reordered or altered between submission and flush.  In every run of a new
  processor the accepted spans are those flushed, then those of the batch, then those of the channel, up to
  their cost and their attributes; the others are counted as dropped; batch and channel stay within their
  bounds; and when the stopped loop has closed the channel every accepted span has been flushed.
\<close>

theorem spans_conserved:
  assumes "run_trace (NewWithConfig show_nat configs c n) sub acc out batch live p"
  shows "map bare acc = map bare out @ map bare batch @ map bare (spanCh p) \<and>
    int (length sub) = int (length acc) + droppedSpans p \<and>
    int (length (spanCh p)) \<le> batchSize p * 10 \<and> int (length batch) < batchSize p \<and>
    (ch_closed p \<longrightarrow> map bare acc = map bare out)"
proof -
  have "run_ok [] [] [] [] True (NewWithConfig show_nat configs c n)" by (simp add: run_ok_simps NewWithConfig_def)
  from run_ok_trace [OF assms this] show ?thesis by (auto simp: run_ok_simps)
qed

definition demo_span :: Span where
  "demo_span =
     \<lparr>SpanID = ''a1'', TraceID = ''t1'', ParentSpanID = [], s_Name = ''chat'', s_Kind = SpanKindTool, s_Status = SpanStatusOK,
      StatusMessage = [], StartTime = 0, EndTime = 5, s_Duration = 5, GenAI = None, Attributes = None, s_ProjectID = ''p'',
      Environment = [], ServiceName = [], s_UserID = [], s_SessionID = [], s_TenantID = [], JobID = [], TraceGroup = [], Labels = None\<rparr>"

definition demo_env :: flush_env where
  "demo_env = \<lparr>fe_now = 0, fe_detector = None, fe_sink = (\<lambda>_. (0, 0, False)), fe_hms = (\<lambda>_. ''00:00:00''), fe_order = id\<rparr>"

theorem spans_conserved_witness:
  "\<exists>p out p'. Submit demo_span (NewWithConfig (\<lambda>_. ''0'') [] NewEmpty 1) = Some p \<and>
     run_done demo_env [] (Stop p) = ([], out, p') \<and> ch_closed p' \<and> map bare out = [bare demo_span]"
proof -
  define p0 where "p0 = NewWithConfig (\<lambda>_. ''0'') [] NewEmpty 1"
  define p where "p = p0\<lparr>spanCh := [demo_span]\<rparr>"
  have s: "Submit demo_span p0 = Some p" by (simp add: p_def p0_def NewWithConfig_def Submit_def span_cap_def)
  obtain b out p' where d: "run_done demo_env [] (Stop p) = (b, out, p')" using prod_cases3 by blast
  have q: "spanCh p0 = []" by (simp add: p0_def NewWithConfig_def)
  have "run_trace p0 [demo_span] [demo_span] [] [] True p"
    using run_trace.submit [OF run_trace.start s] q by (simp add: p_def)
  from run_trace.finish [OF run_trace.stop [OF this] _ d]
  have t: "run_trace p0 [demo_span] [demo_span] out b False p'" by (simp add: Stop_def)
  note f = run_done_flush [OF d]
  then have "b = []" and "ch_closed p'" using flush_queue by (fastforce simp: same_queue_def)+
  then show ?thesis using spans_conserved [OF t [unfolded p0_def]] s d by (auto simp: p0_def)
qed

text \<open>
  A span submitted after the stopped loop has closed the channel makes the process panic; the loop closes it
  once it has seen the signal.
\<close>

lemma submit_after_stop_panics: "run_done e batch p = (b, fl, p') \<Longrightarrow> Submit s p' = None"
  using flush_queue run_done_flush by (fastforce simp: Submit_def same_queue_def)

end
