(* ===== verification/Parsers.thy ===== *)
theory Parsers
  imports Prelude Float64
begin

text \<open>
  What the proxy reads from the requests and answers of the providers (\<^verbatim>\<open>pkg/proxy/parsers.go\<close> and the helpers of
  \<^verbatim>\<open>pkg/proxy/proxy.go\<close> that call it): streaming flag, model, content, token counts and cached tokens, for whole answers
  and for recorded streams.

  Decoded JSON is a tree as \<^verbatim>\<open>encoding/json\<close> builds it for \<^verbatim>\<open>interface{}\<close>.  The text level is an argument: \<^verbatim>\<open>Unmarshal\<close> as a
  function from text to a tree, \<^verbatim>\<open>Marshal\<close> back, and the values a \<^verbatim>\<open>Decoder\<close> yields one after the other until its first
  error.  A type assertion that fails is a case that does not match.
\<close>

section \<open>JSON\<close>

datatype json = JNull | JBool bool | JNum f64 | JStr string | JArr "json list" | JObj "(string \<times> json) list"

type_synonym jobject = "(string \<times> json) list"

record json_lib =
  Unmarshal :: "string \<Rightarrow> json option"
  Marshal :: "json \<Rightarrow> string"
  DecodeAll :: "string \<Rightarrow> json list"

fun as_obj :: "json option \<Rightarrow> jobject option" where
  "as_obj (Some (JObj m)) = Some m"
| "as_obj _ = None"

fun as_arr :: "json option \<Rightarrow> json list option" where
  "as_arr (Some (JArr xs)) = Some xs"
| "as_arr _ = None"

fun as_str :: "json option \<Rightarrow> string option" where
  "as_str (Some (JStr s)) = Some s"
| "as_str _ = None"

fun as_bool :: "json option \<Rightarrow> bool option" where
  "as_bool (Some (JBool b)) = Some b"
| "as_bool _ = None"

definition str_of :: "json option \<Rightarrow> string" where
  "str_of v = (case as_str v of None \<Rightarrow> [] | Some s \<Rightarrow> s)"

text \<open>Decoding into a map accepts an object and \<^verbatim>\<open>null\<close>, which leaves the map empty; into a slice of maps an array of these.\<close>

fun to_map :: "json \<Rightarrow> jobject option" where
  "to_map (JObj m) = Some m"
| "to_map JNull = Some []"
| "to_map _ = None"

definition unmarshal_map :: "json_lib \<Rightarrow> string \<Rightarrow> jobject option" where
  "unmarshal_map lib s = Option.bind (Unmarshal lib s) to_map"

fun to_maps :: "json \<Rightarrow> jobject list option" where
  "to_maps (JArr xs) = those (map to_map xs)"
| "to_maps JNull = Some []"
| "to_maps _ = None"

definition unmarshal_maps :: "json_lib \<Rightarrow> string \<Rightarrow> jobject list option" where
  "unmarshal_maps lib s = Option.bind (Unmarshal lib s) to_maps"

text \<open>The loop over \<^verbatim>\<open>dec.More()\<close>: it stops at the first value that is not an object.\<close>

fun leading_maps :: "json list \<Rightarrow> jobject list" where
  "leading_maps [] = []"
| "leading_maps (v # vs) = (case to_map v of None \<Rightarrow> [] | Some m \<Rightarrow> m # leading_maps vs)"

definition decode_first :: "json_lib \<Rightarrow> string \<Rightarrow> jobject option" where
  "decode_first lib s = (case DecodeAll lib s of [] \<Rightarrow> None | v # _ \<Rightarrow> to_map v)"

definition toInt64 :: "json option \<Rightarrow> i64" where
  "toInt64 v = (case v of Some (JNum x) \<Rightarrow> max 0 (to_i64 x) | _ \<Rightarrow> 0)"

section \<open>Lines of a stream\<close>

definition sse_payload :: "string \<Rightarrow> string option" where
  "sse_payload l =
     (let line = TrimSpace l
      in if \<not> HasPrefix line ''data: '' then None
         else if TrimPrefix line ''data: '' = ''[DONE]'' then None
         else Some (TrimPrefix line ''data: ''))"

definition sse_chunks :: "json_lib \<Rightarrow> string \<Rightarrow> jobject list" where
  "sse_chunks lib data = List.map_filter (\<lambda>l. Option.bind (sse_payload l) (unmarshal_map lib)) (split_on (CHR ''\<newline>'') data)"

section \<open>Reasoning content\<close>

definition think_append :: "string \<Rightarrow> string \<Rightarrow> string" where
  "think_append buf s = (if 0 < length buf then buf @ ''\<newline>'' else buf) @ TrimSpace s"

lemma Index_Some_ne: "Index r sub = Some i \<Longrightarrow> sub \<noteq> [] \<Longrightarrow> r \<noteq> []"
  by auto

function think_loop :: "string \<Rightarrow> string \<Rightarrow> string \<Rightarrow> string \<times> string" where
  "think_loop clean think remaining =
     (case Index remaining ''<think>'' of
        None \<Rightarrow> (clean @ remaining, think)
      | Some openIdx \<Rightarrow>
          let clean' = clean @ take openIdx remaining; rest = drop (openIdx + length ''<think>'') remaining
          in case Index rest ''</think>'' of
               None \<Rightarrow> (clean', think_append think rest)
             | Some closeIdx \<Rightarrow>
                 think_loop clean' (think_append think (take closeIdx rest)) (drop (closeIdx + length ''</think>'') rest))"
  by pat_completeness auto
termination
  by (relation "measure (\<lambda>(_, _, r). length r)") (auto split: option.splits dest: Index_Some_ne)

definition extractThinking :: "string \<Rightarrow> string \<times> string" where
  "extractThinking content =
     (if \<not> Contains content ''<think>'' then (content, [])
      else case think_loop [] [] content of (clean, think) \<Rightarrow> (TrimSpace clean, think))"

definition isReasoningModel :: "string \<Rightarrow> bool" where
  "isReasoningModel m =
     (let model = ToLower m
      in list_ex (\<lambda>p. HasPrefix model p \<or> Contains model p) [''deepseek-r1'', ''deepseek-reasoner'', ''qwq'', ''qwen3''])"

section \<open>Parsers\<close>

datatype ProviderParser = openaiParser | anthropicParser | googleParser | fallbackParser

definition parserRegistry :: "(string \<times> ProviderParser) list" where
  "parserRegistry =
     [(''openai'', openaiParser), (''gemini-oai'', openaiParser), (''mistral'', openaiParser), (''deepseek'', openaiParser),
      (''deepseek-v3'', openaiParser), (''qwen'', openaiParser), (''zai'', openaiParser), (''meta'', openaiParser), (''xai'', openaiParser),
      (''anthropic'', anthropicParser), (''anthropic-direct'', anthropicParser), (''anthropic-vertex'', anthropicParser),
      (''anthropic-bedrock'', anthropicParser), (''google'', googleParser), (''gemini-vertex'', googleParser)]"

definition getParser :: "string \<Rightarrow> ProviderParser" where
  "getParser provider = (case map_of parserRegistry provider of Some p \<Rightarrow> p | None \<Rightarrow> fallbackParser)"

definition stream_flag :: "json_lib \<Rightarrow> string \<Rightarrow> bool" where
  "stream_flag lib body = (case unmarshal_map lib body of None \<Rightarrow> False | Some req \<Rightarrow> as_bool (map_of req ''stream'') = Some True)"

fun IsStreaming :: "ProviderParser \<Rightarrow> json_lib \<Rightarrow> string \<Rightarrow> bool" where
  "IsStreaming openaiParser lib body = stream_flag lib body"
| "IsStreaming anthropicParser lib body = stream_flag lib body"
| "IsStreaming googleParser lib body = False"
| "IsStreaming fallbackParser lib body = False"

definition arr_text :: "json_lib \<Rightarrow> json option \<Rightarrow> string" where
  "arr_text lib v = (case as_arr v of None \<Rightarrow> [] | Some xs \<Rightarrow> Marshal lib (JArr xs))"

definition chat_request :: "json_lib \<Rightarrow> string \<Rightarrow> string \<times> string" where
  "chat_request lib body =
     (case unmarshal_map lib body of
        None \<Rightarrow> ([], [])
      | Some req \<Rightarrow> (str_of (map_of req ''model''), arr_text lib (map_of req ''messages'')))"

fun ParseRequest :: "ProviderParser \<Rightarrow> json_lib \<Rightarrow> string \<Rightarrow> string \<times> string" where
  "ParseRequest openaiParser lib body = chat_request lib body"
| "ParseRequest anthropicParser lib body = chat_request lib body"
| "ParseRequest googleParser lib body =
     (case unmarshal_map lib body of None \<Rightarrow> ([], []) | Some req \<Rightarrow> ([], arr_text lib (map_of req ''contents'')))"
| "ParseRequest fallbackParser lib body = ([], [])"

text \<open>The first element of an array field, when it is an object.\<close>

definition first_obj :: "json option \<Rightarrow> jobject option" where
  "first_obj v = (case as_arr v of Some (x # _) \<Rightarrow> as_obj (Some x) | _ \<Rightarrow> None)"

definition field_of :: "jobject option \<Rightarrow> string \<Rightarrow> json option" where
  "field_of m k = Option.bind m (\<lambda>m. map_of m k)"

definition usage_tokens :: "string \<Rightarrow> string \<Rightarrow> jobject \<Rightarrow> i64 \<times> i64" where
  "usage_tokens inKey outKey resp =
     (case as_obj (map_of resp ''usage'') of
        None \<Rightarrow> (0, 0)
      | Some usage \<Rightarrow> (toInt64 (map_of usage inKey), toInt64 (map_of usage outKey)))"

definition google_tokens :: "jobject \<Rightarrow> i64 \<times> i64" where
  "google_tokens meta =
     (toInt64 (map_of meta ''promptTokenCount''),
      wrap64 (toInt64 (map_of meta ''candidatesTokenCount'') + toInt64 (map_of meta ''thoughtsTokenCount'')))"

definition google_text :: "jobject \<Rightarrow> string" where
  "google_text resp =
     (case as_arr (field_of (as_obj (field_of (first_obj (map_of resp ''candidates'')) ''content'')) ''parts'') of
        None \<Rightarrow> []
      | Some parts \<Rightarrow> concat (map (\<lambda>p. str_of (field_of (as_obj (Some p)) ''text'')) parts))"

definition openai_response :: "jobject \<Rightarrow> string \<times> i64 \<times> i64" where
  "openai_response resp =
     (str_of (field_of (as_obj (field_of (first_obj (map_of resp ''choices'')) ''message'')) ''content''),
      usage_tokens ''prompt_tokens'' ''completion_tokens'' resp)"

definition anthropic_response :: "jobject \<Rightarrow> string \<times> i64 \<times> i64" where
  "anthropic_response resp =
     (str_of (field_of (first_obj (map_of resp ''content'')) ''text''), usage_tokens ''input_tokens'' ''output_tokens'' resp)"

definition google_response :: "jobject \<Rightarrow> string \<times> i64 \<times> i64" where
  "google_response resp =
     (google_text resp, case as_obj (map_of resp ''usageMetadata'') of None \<Rightarrow> (0, 0) | Some meta \<Rightarrow> google_tokens meta)"

fun parse_object :: "ProviderParser \<Rightarrow> jobject \<Rightarrow> string \<times> i64 \<times> i64" where
  "parse_object openaiParser resp = openai_response resp"
| "parse_object anthropicParser resp = anthropic_response resp"
| "parse_object googleParser resp = google_response resp"
| "parse_object fallbackParser resp = ([], 0, 0)"

declare openai_response_def [simp] anthropic_response_def [simp] google_response_def [simp]

definition ParseResponse :: "ProviderParser \<Rightarrow> json_lib \<Rightarrow> string \<Rightarrow> string \<times> i64 \<times> i64" where
  "ParseResponse p lib body =
     (if p = fallbackParser then ([], 0, 0)
      else case unmarshal_map lib body of None \<Rightarrow> ([], 0, 0) | Some resp \<Rightarrow> parse_object p resp)"

section \<open>Recorded streams\<close>

definition openai_chunk :: "jobject \<Rightarrow> string \<times> i64 \<times> i64 \<Rightarrow> string \<times> i64 \<times> i64" where
  "openai_chunk chunk = (\<lambda>(content, inputTokens, outputTokens).
     (content @ str_of (field_of (as_obj (field_of (first_obj (map_of chunk ''choices'')) ''delta'')) ''content''),
      (case as_obj (map_of chunk ''usage'') of
         None \<Rightarrow> (inputTokens, outputTokens)
       | Some usage \<Rightarrow> (toInt64 (map_of usage ''prompt_tokens''), toInt64 (map_of usage ''completion_tokens'')))))"

definition anthropic_chunk :: "jobject \<Rightarrow> string \<times> i64 \<times> i64 \<Rightarrow> string \<times> i64 \<times> i64" where
  "anthropic_chunk chunk = (\<lambda>(content, inputTokens, outputTokens).
     (content @ str_of (field_of (as_obj (map_of chunk ''delta'')) ''text''),
      (case as_obj (field_of (as_obj (map_of chunk ''message'')) ''usage'') of
         None \<Rightarrow> inputTokens
       | Some usage \<Rightarrow> toInt64 (map_of usage ''input_tokens'')),
      (case as_obj (map_of chunk ''usage'') of
         None \<Rightarrow> outputTokens
       | Some usage \<Rightarrow> if 0 < toInt64 (map_of usage ''output_tokens'') then toInt64 (map_of usage ''output_tokens'') else outputTokens)))"

text \<open>The chunks of a Google stream: a JSON array, or one value after the other.\<close>

definition google_chunks :: "json_lib \<Rightarrow> string \<Rightarrow> jobject list" where
  "google_chunks lib data =
     (case unmarshal_maps lib data of
        Some (c # cs) \<Rightarrow> c # cs
      | _ \<Rightarrow> leading_maps (DecodeAll lib data))"

fun last_meta :: "jobject list \<Rightarrow> jobject option \<Rightarrow> jobject option" where
  "last_meta [] acc = acc"
| "last_meta (c # cs) acc = last_meta cs (case as_obj (map_of c ''usageMetadata'') of None \<Rightarrow> acc | Some m \<Rightarrow> Some m)"

definition scan_meta :: "json_lib \<Rightarrow> string \<Rightarrow> jobject option" where
  "scan_meta lib data =
     (case LastIndex data ''\"usageMetadata\"'' of
        None \<Rightarrow> None
      | Some idx \<Rightarrow>
          (case Index (drop idx data) ''{'' of
             None \<Rightarrow> None
           | Some relOpen \<Rightarrow> decode_first lib (drop (idx + relOpen) data)))"

definition google_stream :: "json_lib \<Rightarrow> string \<Rightarrow> string \<times> i64 \<times> i64" where
  "google_stream lib data =
     (case ParseResponse googleParser lib data of
        (content, inputTokens, outputTokens) \<Rightarrow>
          if 0 < inputTokens \<or> 0 < outputTokens then (content, inputTokens, outputTokens)
          else let chunks = google_chunks lib data;
                   meta = (case last_meta chunks None of Some m \<Rightarrow> Some m | None \<Rightarrow> scan_meta lib data)
               in (concat (map google_text chunks),
                   case meta of None \<Rightarrow> (inputTokens, outputTokens) | Some m \<Rightarrow> google_tokens m))"

fun ParseStreamingResponse :: "ProviderParser \<Rightarrow> json_lib \<Rightarrow> string \<Rightarrow> string \<times> i64 \<times> i64" where
  "ParseStreamingResponse openaiParser lib data = fold openai_chunk (sse_chunks lib data) ([], 0, 0)"
| "ParseStreamingResponse anthropicParser lib data = fold anthropic_chunk (sse_chunks lib data) ([], 0, 0)"
| "ParseStreamingResponse googleParser lib data = google_stream lib data"
| "ParseStreamingResponse fallbackParser lib data = ([], 0, 0)"

definition isStreamingRequest :: "json_lib \<Rightarrow> string \<Rightarrow> string \<Rightarrow> bool" where
  "isStreamingRequest lib provider body = IsStreaming (getParser provider) lib body"

definition extractRequestInfo :: "json_lib \<Rightarrow> string \<Rightarrow> string \<Rightarrow> string \<times> string" where
  "extractRequestInfo lib provider body = ParseRequest (getParser provider) lib body"

definition extractResponseInfo :: "json_lib \<Rightarrow> string \<Rightarrow> string \<Rightarrow> string \<times> i64 \<times> i64" where
  "extractResponseInfo lib provider body = ParseResponse (getParser provider) lib body"

definition extractStreamingUsage :: "json_lib \<Rightarrow> string \<Rightarrow> string \<Rightarrow> string \<times> i64 \<times> i64" where
  "extractStreamingUsage lib provider data = ParseStreamingResponse (getParser provider) lib data"

section \<open>The model an answer names\<close>

definition stripPublisherPrefix :: "string \<Rightarrow> string" where
  "stripPublisherPrefix model = (case LastIndex model ''/'' of Some i \<Rightarrow> drop (i + 1) model | None \<Rightarrow> model)"

definition maas_providers :: "string list" where
  "maas_providers = [''mistral'', ''deepseek'', ''deepseek-v3'', ''qwen'', ''zai'', ''meta'', ''xai'']"

definition openai_like :: "string list" where
  "openai_like = [''openai'', ''gemini-oai''] @ maas_providers"

definition anthropic_like :: "string list" where
  "anthropic_like = [''anthropic'', ''anthropic-direct'', ''anthropic-vertex'', ''anthropic-bedrock'']"

definition google_like :: "string list" where
  "google_like = [''google'', ''gemini-vertex'']"

definition extractModelFromResponse :: "json_lib \<Rightarrow> string \<Rightarrow> string \<Rightarrow> string" where
  "extractModelFromResponse lib provider body =
     (case unmarshal_map lib body of
        None \<Rightarrow> []
      | Some resp \<Rightarrow>
          if provider \<in> set google_like then str_of (map_of resp ''modelVersion'')
          else if provider \<in> set [''openai'', ''gemini-oai''] then str_of (map_of resp ''model'')
          else if provider \<in> set maas_providers then
            (if str_of (map_of resp ''model'') = [] then [] else stripPublisherPrefix (str_of (map_of resp ''model'')))
          else if provider \<in> set anthropic_like then str_of (map_of resp ''model'')
          else [])"

definition first_named :: "string \<Rightarrow> jobject list \<Rightarrow> string option" where
  "first_named k cs = map_option (\<lambda>c. str_of (map_of c k)) (find (\<lambda>c. str_of (map_of c k) \<noteq> []) cs)"

definition scan_version :: "string \<Rightarrow> string" where
  "scan_version data =
     (case LastIndex data ''\"modelVersion\"'' of
        None \<Rightarrow> []
      | Some idx \<Rightarrow>
          (case Index (drop idx data) '':'' of
             None \<Rightarrow> []
           | Some relColon \<Rightarrow>
               (case TrimSpace (drop (idx + relColon + 1) data) of
                  [] \<Rightarrow> []
                | q # rest \<Rightarrow>
                    if q \<noteq> CHR 0x22 then []
                    else case Index rest [CHR 0x22] of None \<Rightarrow> [] | Some endQuote \<Rightarrow> take endQuote rest)))"

definition extractModelFromStreamingResponse :: "json_lib \<Rightarrow> string \<Rightarrow> string \<Rightarrow> string" where
  "extractModelFromStreamingResponse lib provider data =
     (if provider \<in> set google_like then
        (case Option.bind (unmarshal_maps lib data) (first_named ''modelVersion'') of
           Some mv \<Rightarrow> mv
         | None \<Rightarrow>
             (case Option.bind (unmarshal_map lib data) (\<lambda>m. first_named ''modelVersion'' [m]) of
                Some mv \<Rightarrow> mv
              | None \<Rightarrow> scan_version data))
      else case first_named ''model'' (sse_chunks lib data) of
             None \<Rightarrow> []
           | Some m \<Rightarrow> if provider \<in> set maas_providers then stripPublisherPrefix m else m)"

section \<open>Cached tokens\<close>

record CacheTokens =
  ct_CacheReadTokens :: i64
  ct_CacheCreationTokens :: i64

definition no_cache :: CacheTokens where
  "no_cache = \<lparr>ct_CacheReadTokens = 0, ct_CacheCreationTokens = 0\<rparr>"

definition extractCacheTokens :: "json_lib \<Rightarrow> string \<Rightarrow> string \<Rightarrow> CacheTokens" where
  "extractCacheTokens lib provider body =
     (case unmarshal_map lib body of
        None \<Rightarrow> no_cache
      | Some resp \<Rightarrow>
          if provider \<in> set anthropic_like then
            (case as_obj (map_of resp ''usage'') of
               None \<Rightarrow> no_cache
             | Some usage \<Rightarrow> \<lparr>ct_CacheReadTokens = toInt64 (map_of usage ''cache_read_input_tokens''),
                               ct_CacheCreationTokens = toInt64 (map_of usage ''cache_creation_input_tokens'')\<rparr>)
          else if provider \<in> set openai_like then
            (case as_obj (field_of (as_obj (map_of resp ''usage'')) ''prompt_tokens_details'') of
               None \<Rightarrow> no_cache
             | Some details \<Rightarrow> no_cache\<lparr>ct_CacheReadTokens := toInt64 (map_of details ''cached_tokens'')\<rparr>)
          else if provider \<in> set google_like then
            (case as_obj (map_of resp ''usageMetadata'') of
               None \<Rightarrow> no_cache
             | Some meta \<Rightarrow> no_cache\<lparr>ct_CacheReadTokens := toInt64 (map_of meta ''cachedContentTokenCount'')\<rparr>)
          else no_cache)"

definition cache_from_usage :: "jobject option \<Rightarrow> CacheTokens \<Rightarrow> CacheTokens" where
  "cache_from_usage usage ct =
     (let r = toInt64 (field_of usage ''cache_read_input_tokens''); w = toInt64 (field_of usage ''cache_creation_input_tokens'');
          ct1 = (if 0 < r then ct\<lparr>ct_CacheReadTokens := r\<rparr> else ct)
      in if 0 < w then ct1\<lparr>ct_CacheCreationTokens := w\<rparr> else ct1)"

definition extractAnthropicStreamingCache :: "json_lib \<Rightarrow> string \<Rightarrow> CacheTokens" where
  "extractAnthropicStreamingCache lib data =
     fold (\<lambda>chunk ct. cache_from_usage (as_obj (map_of chunk ''usage''))
             (cache_from_usage (as_obj (field_of (as_obj (map_of chunk ''message'')) ''usage'')) ct))
       (sse_chunks lib data) no_cache"

definition extractOpenAIStreamingCache :: "json_lib \<Rightarrow> string \<Rightarrow> CacheTokens" where
  "extractOpenAIStreamingCache lib data =
     fold (\<lambda>chunk ct. case as_obj (field_of (as_obj (map_of chunk ''usage'')) ''prompt_tokens_details'') of
                          None \<Rightarrow> ct
                        | Some details \<Rightarrow> ct\<lparr>ct_CacheReadTokens := toInt64 (map_of details ''cached_tokens'')\<rparr>)
       (sse_chunks lib data) no_cache"

definition extractGoogleStreamingCache :: "json_lib \<Rightarrow> string \<Rightarrow> CacheTokens" where
  "extractGoogleStreamingCache lib data =
     (let chunks = (case unmarshal_maps lib data of Some cs \<Rightarrow> cs | None \<Rightarrow> leading_maps (DecodeAll lib data));
          ct = (case last_meta chunks None of
                  None \<Rightarrow> no_cache
                | Some meta \<Rightarrow> no_cache\<lparr>ct_CacheReadTokens := toInt64 (map_of meta ''cachedContentTokenCount'')\<rparr>)
      in if ct_CacheReadTokens ct = 0 then
           (case scan_meta lib data of
              None \<Rightarrow> ct
            | Some meta \<Rightarrow> ct\<lparr>ct_CacheReadTokens := toInt64 (map_of meta ''cachedContentTokenCount'')\<rparr>)
         else ct)"

definition extractStreamingCacheTokens :: "json_lib \<Rightarrow> string \<Rightarrow> string \<Rightarrow> CacheTokens" where
  "extractStreamingCacheTokens lib provider data =
     (if provider \<in> set anthropic_like then extractAnthropicStreamingCache lib data
      else if provider \<in> set openai_like then extractOpenAIStreamingCache lib data
      else if provider \<in> set google_like then extractGoogleStreamingCache lib data
      else no_cache)"

section \<open>Changes of a request\<close>

text \<open>The result \<open>None\<close> is the panic of an assignment to the nil map a body \<^verbatim>\<open>null\<close> decodes to.\<close>

definition injectStreamUsageOption :: "json_lib \<Rightarrow> string \<Rightarrow> string \<Rightarrow> string option" where
  "injectStreamUsageOption lib provider body =
     (if provider \<notin> set openai_like then Some body
      else case Unmarshal lib body of
             Some (JObj req) \<Rightarrow>
               if map_of req ''stream_options'' \<noteq> None then Some body
               else Some (Marshal lib (JObj (AList.update ''stream_options'' (JObj [(''include_usage'', JBool True)]) req)))
           | Some JNull \<Rightarrow> None
           | _ \<Rightarrow> Some body)"

definition isAnthropicProvider :: "string \<Rightarrow> bool" where
  "isAnthropicProvider provider \<longleftrightarrow> provider \<in> set anthropic_like \<or> HasPrefix provider ''anthropic-''"

definition hasCacheTTL1h :: "json \<Rightarrow> bool" where
  "hasCacheTTL1h block \<longleftrightarrow> str_of (field_of (as_obj (field_of (as_obj (Some block)) ''cache_control'')) ''ttl'') = ''1h''"

definition extractAnthropicCacheTTL :: "json_lib \<Rightarrow> string \<Rightarrow> bool" where
  "extractAnthropicCacheTTL lib body =
     (if \<not> Contains body ''\"ttl\"'' then False
      else case unmarshal_map lib body of
             None \<Rightarrow> False
           | Some req \<Rightarrow>
               (case as_arr (map_of req ''system'') of None \<Rightarrow> False | Some blocks \<Rightarrow> list_ex hasCacheTTL1h blocks) \<or>
               (case as_arr (map_of req ''messages'') of
                  None \<Rightarrow> False
                | Some msgs \<Rightarrow>
                    list_ex (\<lambda>msg. case as_arr (field_of (as_obj (Some msg)) ''content'') of None \<Rightarrow> False | Some blocks \<Rightarrow> list_ex hasCacheTTL1h blocks) msgs))"

definition isUtilityEndpoint :: "string \<Rightarrow> bool" where
  "isUtilityEndpoint path \<longleftrightarrow>
     HasSuffix path ''/count_tokens'' \<or> HasSuffix path ''/tokenize'' \<or> HasSuffix path ''/models'' \<or> path = ''/v1/models''"

definition extractModelFromURLPath :: "string \<Rightarrow> string" where
  "extractModelFromURLPath path =
     (case LastIndex path ''/models/'' of
        None \<Rightarrow> []
      | Some idx \<Rightarrow>
          let rest = drop (idx + length ''/models/'') path
          in case Index rest '':'' of Some colon \<Rightarrow> take colon rest | None \<Rightarrow> rest)"

definition safe_model_char :: "char \<Rightarrow> bool" where
  "safe_model_char c \<longleftrightarrow>
     (let n = (of_char c :: nat) in 97 \<le> n \<and> n \<le> 122 \<or> 65 \<le> n \<and> n \<le> 90 \<or> 48 \<le> n \<and> n \<le> 57) \<or> c \<in> set ''._@:/-''"

definition isSafeModelName :: "string \<Rightarrow> bool" where
  "isSafeModelName model \<longleftrightarrow> (model \<noteq> [] \<and> list_all safe_model_char model) \<and> \<not> Contains model ''..''"

section \<open>Headers\<close>

text \<open>Header names are canonical; \<open>src\<close> is what \<^verbatim>\<open>Get\<close> returns, the empty string when the header is missing.\<close>

definition allowedResponseHeaders :: "string list" where
  "allowedResponseHeaders =
     [''Content-Type'', ''Content-Length'', ''Content-Encoding'', ''Cache-Control'', ''Retry-After'', ''Vary'', ''Date'',
      ''Transfer-Encoding'', ''Connection'', ''Access-Control-Allow-Origin'', ''Access-Control-Expose-Headers'',
      ''Access-Control-Allow-Credentials'', ''Openai-Organization'', ''Openai-Processing-Ms'', ''X-Request-Id'']"

definition isAllowedResponseHeader :: "string \<Rightarrow> bool" where
  "isAllowedResponseHeader name \<longleftrightarrow> name \<in> set allowedResponseHeaders"

type_synonym headers = "(string \<times> string) list"

definition copy_headers :: "(string \<Rightarrow> string) \<Rightarrow> string list \<Rightarrow> headers \<Rightarrow> headers" where
  "copy_headers src hs dst = fold (\<lambda>h d. if src h \<noteq> [] then AList.update h (src h) d else d) hs dst"

definition forwardHeaders :: "(string \<Rightarrow> string) \<Rightarrow> string \<Rightarrow> bool \<Rightarrow> headers \<Rightarrow> headers" where
  "forwardHeaders src provider managedAuth dst =
     (let d1 = (if \<not> managedAuth then copy_headers src [''Authorization''] dst else dst);
          d2 = copy_headers src [''Content-Type'', ''Accept''] d1;
          d3 = copy_headers src [''Tracestate''] d2
      in if provider = ''anthropic'' \<or> provider = ''anthropic-direct''
         then copy_headers src [''X-Api-Key'', ''Anthropic-Version'', ''Anthropic-Beta''] d3 else d3)"

section \<open>Token counts\<close>

lemma toInt64_range: "0 \<le> toInt64 v" "in_i64 (toInt64 v)"
proof -
  have "in_i64 (to_i64 x)" for x by (cases x) (simp_all add: in_i64_def Let_def)
  then show "0 \<le> toInt64 v" "in_i64 (toInt64 v)"
    by (auto simp: toInt64_def in_i64_def max_def split: option.splits json.splits)
qed

text \<open>The sum of two counts of a Google answer may wrap; no other count is negative.\<close>

definition counts_ok :: "ProviderParser \<Rightarrow> i64 \<times> i64 \<Rightarrow> bool" where
  "counts_ok p = (\<lambda>(i, out). 0 \<le> i \<and> in_i64 i \<and> in_i64 out \<and> (p \<noteq> googleParser \<longrightarrow> 0 \<le> out))"

lemma counts_ok_simps [simp]: "counts_ok p (0, 0)" "counts_ok p (usage_tokens a b r)" "counts_ok googleParser (google_tokens m)"
  "counts_ok p (toInt64 x, toInt64 y)"
  by (simp add: counts_ok_def in_i64_def)
    (auto simp: counts_ok_def usage_tokens_def google_tokens_def toInt64_range split: option.splits, simp add: in_i64_def)

lemma parse_object_ok: "counts_ok p (snd (parse_object p resp))"
  by (cases p) (auto split: option.splits)

lemma ParseResponse_ok: "counts_ok p (snd (ParseResponse p lib body))"
  by (auto simp: ParseResponse_def parse_object_ok split: option.splits)

lemma fold_chunks_ok:
  assumes "\<And>c st. counts_ok p (snd st) \<Longrightarrow> counts_ok p (snd (f c st))" and "counts_ok p (snd st)"
  shows "counts_ok p (snd (fold f cs st))"
  using assms(2)
proof (induction cs arbitrary: st)
  case (Cons c cs)
  show ?case using Cons.IH [OF assms(1) [OF Cons.prems]] by simp
qed simp

lemma openai_chunk_ok: "counts_ok p (snd st) \<Longrightarrow> counts_ok p (snd (openai_chunk c st))"
  by (cases st) (auto simp: openai_chunk_def split: option.splits)

lemma anthropic_chunk_ok: "counts_ok p (snd st) \<Longrightarrow> counts_ok p (snd (anthropic_chunk c st))"
  by (cases st) (auto simp: anthropic_chunk_def counts_ok_def toInt64_range split: option.splits)

lemma google_stream_ok: "counts_ok googleParser (snd (google_stream lib data))"
  using ParseResponse_ok [of googleParser lib data]
  by (auto simp: google_stream_def Let_def split: prod.splits option.splits)

lemma ParseStreamingResponse_ok: "counts_ok p (snd (ParseStreamingResponse p lib data))"
  by (cases p) (auto simp: google_stream_ok intro!: fold_chunks_ok openai_chunk_ok anthropic_chunk_ok)

section \<open>Writing and reading a stream\<close>

text \<open>
  What a stream relies on of \<^verbatim>\<open>Marshal\<close>: a value decodes to itself, and its text is one line that neither is empty nor ends
  in a space (compact encoding).
\<close>

definition one_line :: "json_lib \<Rightarrow> jobject \<Rightarrow> bool" where
  "one_line lib c \<longleftrightarrow>
     (let t = Marshal lib (JObj c)
      in Unmarshal lib t = Some (JObj c) \<and> CHR ''\<newline>'' \<notin> set t \<and> t \<noteq> [] \<and> \<not> is_space (last t) \<and> t \<noteq> ''[DONE]'')"

definition sse_encode :: "json_lib \<Rightarrow> jobject list \<Rightarrow> string" where
  "sse_encode lib cs =
     concat (map (\<lambda>c. ''data: '' @ Marshal lib (JObj c) @ [CHR ''\<newline>'', CHR ''\<newline>'']) cs) @ ''data: [DONE]'' @ [CHR ''\<newline>'', CHR ''\<newline>'']"

lemma split_on_line: "c \<notin> set s \<Longrightarrow> split_on c (s @ c # t) = s # split_on c t"
  by (induction s) auto

lemma TrimSpace_id: "s = [] \<or> \<not> is_space (hd s) \<and> \<not> is_space (last s) \<Longrightarrow> TrimSpace s = s"
proof -
  assume a: "s = [] \<or> \<not> is_space (hd s) \<and> \<not> is_space (last s)"
  have "dropWhile is_space s = s" using a by (cases s) auto
  moreover have "dropWhile is_space (rev s) = rev s" using a by (cases s rule: rev_cases) auto
  ultimately show ?thesis by (simp add: TrimSpace_def)
qed

lemma sse_payload_line:
  assumes "t \<noteq> []" "\<not> is_space (last t)" "t \<noteq> ''[DONE]''"
  shows "sse_payload (''data: '' @ t) = Some t"
proof -
  have "TrimSpace (''data: '' @ t) = ''data: '' @ t"
    using assms by (intro TrimSpace_id) (simp add: is_space_def)
  then show ?thesis using assms by (simp add: sse_payload_def HasPrefix_def TrimPrefix_def)
qed

lemma sse_payload_none [simp]: "sse_payload [] = None" "sse_payload ''data: [DONE]'' = None"
  by (code_simp, code_simp)

lemma sse_chunks_encode:
  assumes "list_all (one_line lib) cs"
  shows "sse_chunks lib (sse_encode lib cs) = cs"
  using assms
proof (induction cs)
  case Nil
  have "split_on (CHR ''\<newline>'') (sse_encode lib []) = [''data: [DONE]'', [], []]"
    unfolding sse_encode_def by code_simp
  then show ?case by (simp add: sse_chunks_def List.map_filter_simps)
next
  case (Cons c cs)
  let ?t = "Marshal lib (JObj c)"
  have t: "CHR ''\<newline>'' \<notin> set (''data: '' @ ?t)" "?t \<noteq> []" "\<not> is_space (last ?t)" "?t \<noteq> ''[DONE]''" "Unmarshal lib ?t = Some (JObj c)"
    using Cons.prems by (auto simp: one_line_def Let_def)
  have "sse_encode lib (c # cs) = (''data: '' @ ?t) @ CHR ''\<newline>'' # [] @ CHR ''\<newline>'' # sse_encode lib cs"
    by (simp add: sse_encode_def)
  then have "split_on (CHR ''\<newline>'') (sse_encode lib (c # cs)) = (''data: '' @ ?t) # [] # split_on (CHR ''\<newline>'') (sse_encode lib cs)"
    using split_on_line [OF t(1)] split_on_line [of "CHR ''\<newline>''" "[]"] by simp
  then show ?case
    using Cons t sse_payload_line [of ?t] by (simp add: sse_chunks_def List.map_filter_simps unmarshal_map_def del: append.simps)
qed

section \<open>Properties\<close>




definition demo_lib :: json_lib where
  "demo_lib =
     \<lparr>Unmarshal = \<lambda>s. if s = ''A'' then Some (JObj [(''choices'', JArr [JObj [(''delta'', JObj [(''content'', JStr ''hi'')])]])])
        else if s = ''B'' then Some (JObj [(''usage'', JObj [(''prompt_tokens'', JNum (Fin 7)), (''completion_tokens'', JNum (Fin 2))])]) else None,
      Marshal = \<lambda>v. if v = JObj [(''usage'', JObj [(''prompt_tokens'', JNum (Fin 7)), (''completion_tokens'', JNum (Fin 2))])] then ''B'' else ''A'',
      DecodeAll = \<lambda>_. []\<rparr>"


section \<open>Names and headers\<close>

text \<open>A model name that passes the check cannot leave the path it is put into.\<close>

lemma safe_name_no_traversal: "isSafeModelName m \<Longrightarrow> \<nexists>a b. m = a @ ''..'' @ b"
  unfolding isSafeModelName_def Contains_def using Index_None_iff by blast

lemma copy_headers_other: "h \<notin> set hs \<Longrightarrow> map_of (copy_headers src hs dst) h = map_of dst h"
  unfolding copy_headers_def by (induction hs arbitrary: dst) auto

text \<open>
  The client's \<^verbatim>\<open>Authorization\<close> never reaches a provider whose credentials the proxy manages; a client key in
  \<^verbatim>\<open>X-Api-Key\<close> does, for the two Anthropic providers.
\<close>

lemma managed_auth_not_forwarded:
  assumes "map_of dst ''Authorization'' = None"
  shows "map_of (forwardHeaders src provider True dst) ''Authorization'' = None"
  using assms by (simp add: forwardHeaders_def copy_headers_other Let_def)

lemma api_key_forwarded:
  assumes "src ''X-Api-Key'' = key" "key \<noteq> []"
  shows "map_of (forwardHeaders src ''anthropic'' True dst) ''X-Api-Key'' = Some key"
proof -
  have "map_of (copy_headers src [''X-Api-Key'', ''Anthropic-Version'', ''Anthropic-Beta''] d) ''X-Api-Key'' = Some key" for d
    using assms by (simp add: copy_headers_def)
  then show ?thesis by (simp add: forwardHeaders_def Let_def)
qed

end
