(* ===== verification/StreamCapture.thy ===== *)
theory StreamCapture
  imports Parsers
begin

text \<open>
  Streaming answers: the rolling buffer (\<^verbatim>\<open>pkg/proxy/rolling_buffer.go\<close>), the copy loop of \<^verbatim>\<open>handleStreamingResponse\<close>
  (\<^verbatim>\<open>pkg/proxy/proxy.go\<close>) and the reconciliation of what was captured (\<^verbatim>\<open>pkg/proxy/stream_capture.go\<close>).

  A read of the body is a chunk; the translator of a provider is an argument.  The number of bytes streamed stays far below
  the range of an \<^verbatim>\<open>int64\<close> and is not wrapped.
\<close>

section \<open>The rolling buffer\<close>

record rollingBuffer =
  rb_maxSize :: nat
  rb_buf :: string

definition newRollingBuffer :: "nat \<Rightarrow> rollingBuffer" where
  "newRollingBuffer maxSize = \<lparr>rb_maxSize = maxSize, rb_buf = []\<rparr>"

definition rb_Write :: "string \<Rightarrow> rollingBuffer \<Rightarrow> rollingBuffer" where
  "rb_Write p rb =
     (let n = length p
      in if n = 0 then rb
         else if rb_maxSize rb \<le> n then rb\<lparr>rb_buf := drop (n - rb_maxSize rb) p\<rparr>
         else let avail = rb_maxSize rb - length (rb_buf rb);
                  kept = (if avail < n then drop (n - avail) (rb_buf rb) else rb_buf rb)
              in rb\<lparr>rb_buf := kept @ p\<rparr>)"

definition rb_Len :: "rollingBuffer \<Rightarrow> nat" where
  "rb_Len rb = length (rb_buf rb)"

definition rb_Reset :: "rollingBuffer \<Rightarrow> rollingBuffer" where
  "rb_Reset rb = rb\<lparr>rb_buf := []\<rparr>"

definition rb_ok :: "rollingBuffer \<Rightarrow> bool" where
  "rb_ok rb \<longleftrightarrow> length (rb_buf rb) \<le> rb_maxSize rb"

lemma rb_Write_last_n:
  assumes "rb_ok rb"
  shows "rb_buf (rb_Write p rb) = last_n (rb_maxSize rb) (rb_buf rb @ p)"
  using assms by (auto simp: rb_Write_def rb_ok_def last_n_def Let_def add.commute)

interpretation tail_log: bounded_log rb_Write rb_buf rb_maxSize rb_ok "\<lambda>p. p"
proof
  fix s x assume ok: "rb_ok s"
  show "rb_buf (rb_Write x s) = last_n (rb_maxSize s) (rb_buf s @ x)" using ok by (rule rb_Write_last_n)
  show "rb_maxSize (rb_Write x s) = rb_maxSize s" by (simp add: rb_Write_def Let_def)
  then show "rb_ok (rb_Write x s)" using rb_Write_last_n [OF ok, of x] by (simp add: rb_ok_def)
  show "length (rb_buf s) \<le> rb_maxSize s" using ok by (simp add: rb_ok_def)
qed

section \<open>The copy loop\<close>

definition maxStreamCapture :: nat where
  "maxStreamCapture = 10 * 2 ^ 20"

definition maxTailCapture :: nat where
  "maxTailCapture = 128 * 2 ^ 10"

record stream_state =
  ss_head :: string
  ss_tail :: rollingBuffer
  ss_capped :: bool
  ss_total :: int
  ss_streamID :: string
  ss_sent :: string

definition stream_start :: stream_state where
  "stream_start = \<lparr>ss_head = [], ss_tail = newRollingBuffer maxTailCapture, ss_capped = False, ss_total = 0, ss_streamID = [], ss_sent = []\<rparr>"

definition capture_head :: "bool \<Rightarrow> string \<Rightarrow> stream_state \<Rightarrow> stream_state" where
  "capture_head cbAllow chunk s =
     (if cbAllow \<and> \<not> ss_capped s then
        (if maxStreamCapture < length (ss_head s) + length chunk
         then s\<lparr>ss_capped := True, ss_head := ss_head s @ take (maxStreamCapture - length (ss_head s)) chunk\<rparr>
         else s\<lparr>ss_head := ss_head s @ chunk\<rparr>)
      else s)"

text \<open>The translator maps a chunk and the stream id to a result or an error, and the new id; without one the chunk is sent as it is.\<close>

type_synonym chunk_translator = "string \<Rightarrow> string \<Rightarrow> string option \<times> string"

definition send_chunk :: "chunk_translator option \<Rightarrow> string \<Rightarrow> stream_state \<Rightarrow> stream_state" where
  "send_chunk translator chunk s =
     (case translator of
        None \<Rightarrow> s\<lparr>ss_sent := ss_sent s @ chunk\<rparr>
      | Some t \<Rightarrow>
          (case t chunk (ss_streamID s) of
             (Some translated, sid) \<Rightarrow> s\<lparr>ss_streamID := sid, ss_sent := ss_sent s @ translated\<rparr>
           | (None, sid) \<Rightarrow> s\<lparr>ss_streamID := sid, ss_sent := ss_sent s @ chunk\<rparr>))"

definition stream_chunk :: "bool \<Rightarrow> chunk_translator option \<Rightarrow> string \<Rightarrow> stream_state \<Rightarrow> stream_state" where
  "stream_chunk cbAllow translator chunk s =
     (if chunk = [] then s
      else let s1 = capture_head cbAllow chunk (s\<lparr>ss_total := ss_total s + int (length chunk)\<rparr>);
               s2 = s1\<lparr>ss_tail := rb_Write chunk (ss_tail s1)\<rparr>
           in send_chunk translator chunk s2)"

definition stream_loop :: "bool \<Rightarrow> chunk_translator option \<Rightarrow> string list \<Rightarrow> stream_state" where
  "stream_loop cbAllow translator chunks = fold (stream_chunk cbAllow translator) chunks stream_start"

section \<open>Reconciliation\<close>

record streamParseResult =
  spr_content :: string
  spr_inputTokens :: i64
  spr_outputTokens :: i64
  spr_cacheTokens :: CacheTokens
  spr_model :: string
  spr_isEstimated :: bool
  spr_statusOK :: bool

definition parse_head :: "json_lib \<Rightarrow> string \<Rightarrow> string \<Rightarrow> bool \<Rightarrow> streamParseResult" where
  "parse_head lib provider headData streamCompleted =
     (case extractStreamingUsage lib provider headData of
        (content, i, out) \<Rightarrow>
          \<lparr>spr_content = content, spr_inputTokens = i, spr_outputTokens = out,
           spr_cacheTokens = extractStreamingCacheTokens lib provider headData,
           spr_model = extractModelFromStreamingResponse lib provider headData,
           spr_isEstimated = False, spr_statusOK = streamCompleted\<rparr>)"

definition merge_cache :: "CacheTokens \<Rightarrow> CacheTokens \<Rightarrow> CacheTokens" where
  "merge_cache tailCT ct =
     (let ct1 = (if ct_CacheReadTokens ct < ct_CacheReadTokens tailCT then ct\<lparr>ct_CacheReadTokens := ct_CacheReadTokens tailCT\<rparr> else ct)
      in if ct_CacheCreationTokens ct1 < ct_CacheCreationTokens tailCT then ct1\<lparr>ct_CacheCreationTokens := ct_CacheCreationTokens tailCT\<rparr> else ct1)"

definition merge_tail :: "json_lib \<Rightarrow> string \<Rightarrow> string \<Rightarrow> streamParseResult \<Rightarrow> streamParseResult" where
  "merge_tail lib provider tailData res =
     (case extractStreamingUsage lib provider tailData of
        (_, tailInput, tailOutput) \<Rightarrow>
          let tailModel = extractModelFromStreamingResponse lib provider tailData
          in res\<lparr>spr_model := (if tailModel \<noteq> [] \<and> spr_model res = [] then tailModel else spr_model res),
                 spr_outputTokens := (if 0 < tailOutput then tailOutput else spr_outputTokens res),
                 spr_inputTokens := (if 0 < tailInput then tailInput else spr_inputTokens res),
                 spr_cacheTokens := merge_cache (extractStreamingCacheTokens lib provider tailData) (spr_cacheTokens res)\<rparr>)"

definition estimate_output :: "nat \<Rightarrow> nat \<Rightarrow> bool \<Rightarrow> int \<Rightarrow> i64" where
  "estimate_output contentLen headLen streamCapped streamed =
     (let e0 = (if 0 < contentLen then (int contentLen + 3) div 4 else 0);
          e1 = (if streamCapped \<and> int headLen < streamed then e0 + (streamed - int headLen + 19) div 20
                else if e0 = 0 \<and> 0 < streamed then (streamed + 19) div 20
                else e0)
      in if e1 < 1 then 1 else e1)"

definition estimate_usage :: "nat \<Rightarrow> nat \<Rightarrow> bool \<Rightarrow> int \<Rightarrow> streamParseResult \<Rightarrow> streamParseResult" where
  "estimate_usage reqLen headLen streamCapped streamed res =
     (if spr_outputTokens res = 0 \<and> (0 < length (spr_content res) \<or> 0 < streamed) then
        let r1 = res\<lparr>spr_outputTokens := estimate_output (length (spr_content res)) headLen streamCapped streamed, spr_isEstimated := True\<rparr>
        in if spr_inputTokens r1 = 0 \<and> 0 < reqLen then r1\<lparr>spr_inputTokens := max 1 ((int reqLen + 3) div 4)\<rparr> else r1
      else res)"

definition extractStreamInfo ::
    "json_lib \<Rightarrow> string \<Rightarrow> string \<Rightarrow> string \<Rightarrow> string \<Rightarrow> string \<Rightarrow> bool \<Rightarrow> bool \<Rightarrow> int \<Rightarrow> streamParseResult" where
  "extractStreamInfo lib provider reqModel reqBody headData tailData streamCapped streamCompleted streamed =
     (let res0 = parse_head lib provider headData streamCompleted;
          res1 = (if (streamCapped \<or> headData = []) \<and> tailData \<noteq> [] then merge_tail lib provider tailData res0 else res0);
          res2 = (if spr_model res1 = [] then res1\<lparr>spr_model := reqModel\<rparr> else res1)
      in estimate_usage (length reqBody) (length headData) streamCapped streamed res2)"

text \<open>The loop and the reconciliation together, as \<^verbatim>\<open>handleStreamingResponse\<close> runs them.\<close>

definition stream_info :: "json_lib \<Rightarrow> string \<Rightarrow> string \<Rightarrow> string \<Rightarrow> bool \<Rightarrow> chunk_translator option \<Rightarrow> string list \<Rightarrow> bool \<Rightarrow> streamParseResult" where
  "stream_info lib provider streamModel reqBody cbAllow translator chunks completed =
     (let s = stream_loop cbAllow translator chunks
      in extractStreamInfo lib provider streamModel reqBody (ss_head s) (rb_buf (ss_tail s)) (ss_capped s) completed (ss_total s))"

section \<open>What is captured\<close>

lemma send_chunk_simps [simp]:
  "ss_head (send_chunk t c s) = ss_head s" "ss_tail (send_chunk t c s) = ss_tail s" "ss_capped (send_chunk t c s) = ss_capped s"
  "ss_total (send_chunk t c s) = ss_total s"
  by (auto simp: send_chunk_def split: option.splits prod.splits)

lemma capture_head_simps [simp]:
  "ss_tail (capture_head a c s) = ss_tail s" "ss_total (capture_head a c s) = ss_total s" "ss_sent (capture_head a c s) = ss_sent s"
  by (auto simp: capture_head_def)

lemma stream_chunk_total: "ss_total (stream_chunk a t c s) = ss_total s + int (length c)"
  by (simp add: stream_chunk_def Let_def)

lemma stream_chunk_tail: "ss_tail (stream_chunk a t c s) = rb_Write c (ss_tail s)"
  by (simp add: stream_chunk_def rb_Write_def Let_def)

definition head_is :: "bool \<Rightarrow> string \<Rightarrow> stream_state \<Rightarrow> bool" where
  "head_is cbAllow sofar s \<longleftrightarrow>
     ss_head s = (if cbAllow then take maxStreamCapture sofar else []) \<and>
     (ss_capped s \<longleftrightarrow> cbAllow \<and> maxStreamCapture < length sofar)"

lemma head_is_chunk: "head_is a d s \<Longrightarrow> head_is a (d @ c) (stream_chunk a t c s)"
  by (auto simp: head_is_def stream_chunk_def capture_head_def Let_def)

lemma loop_facts:
  "head_is a d s \<Longrightarrow> head_is a (d @ concat cs) (fold (stream_chunk a t) cs s)"
  "ss_total (fold (stream_chunk a t) cs s) = ss_total s + int (length (concat cs))"
  "ss_tail (fold (stream_chunk a t) cs s) = fold rb_Write cs (ss_tail s)"
proof -
  show "head_is a d s \<Longrightarrow> head_is a (d @ concat cs) (fold (stream_chunk a t) cs s)"
    by (induction cs arbitrary: d s) (simp, metis append_assoc concat.simps(2) fold_simps(2) head_is_chunk)
  show "ss_total (fold (stream_chunk a t) cs s) = ss_total s + int (length (concat cs))"
    by (induction cs arbitrary: s) (simp_all add: stream_chunk_total)
  show "ss_tail (fold (stream_chunk a t) cs s) = fold rb_Write cs (ss_tail s)"
    by (induction cs arbitrary: s) (simp_all add: stream_chunk_tail)
qed

lemma captured_tail: "rb_buf (ss_tail (stream_loop a t cs)) = last_n maxTailCapture (concat cs)"
proof -
  have "rb_ok (newRollingBuffer maxTailCapture)" by (simp add: rb_ok_def newRollingBuffer_def)
  from tail_log.contents_fold [OF this, of cs] show ?thesis
    by (simp add: stream_loop_def loop_facts(3) stream_start_def newRollingBuffer_def)
qed

lemma captured_head:
  "ss_head (stream_loop a t cs) = (if a then take maxStreamCapture (concat cs) else [])"
  "ss_capped (stream_loop a t cs) \<longleftrightarrow> a \<and> maxStreamCapture < length (concat cs)"
proof -
  have "head_is a [] stream_start" by (simp add: head_is_def stream_start_def)
  from loop_facts(1) [OF this, of cs t] have "head_is a (concat cs) (stream_loop a t cs)" by (simp add: stream_loop_def)
  then show "ss_head (stream_loop a t cs) = (if a then take maxStreamCapture (concat cs) else [])"
    "ss_capped (stream_loop a t cs) \<longleftrightarrow> a \<and> maxStreamCapture < length (concat cs)" by (simp_all add: head_is_def)
qed

lemma captured_total: "ss_total (stream_loop a t cs) = int (length (concat cs))"
  by (simp add: stream_loop_def loop_facts(2) stream_start_def)

section \<open>Properties\<close>

text \<open>
  C32: the capture of a stream does not depend on how the stream is cut into reads.  For every sequence of chunks the tail
  buffer holds exactly the last 128 KB of the stream and the head buffer, while the breaker lets it record, exactly its
  first 10 MB; the stream counts as capped exactly when it is longer, and every byte is counted.
\<close>

theorem capture_exact:
  "rb_buf (ss_tail (stream_loop cbAllow translator chunks)) = last_n maxTailCapture (concat chunks) \<and>
   ss_head (stream_loop cbAllow translator chunks) = (if cbAllow then take maxStreamCapture (concat chunks) else []) \<and>
   (ss_capped (stream_loop cbAllow translator chunks) \<longleftrightarrow> cbAllow \<and> maxStreamCapture < length (concat chunks)) \<and>
   ss_total (stream_loop cbAllow translator chunks) = int (length (concat chunks))"
  using captured_tail captured_head captured_total by blast

lemma parse_head_output: "getParser provider \<noteq> googleParser \<Longrightarrow> 0 \<le> spr_outputTokens (parse_head lib provider d b)"
  using ParseStreamingResponse_ok [of "getParser provider" lib d]
  by (auto simp: parse_head_def extractStreamingUsage_def counts_ok_def split: prod.splits)

lemma merge_tail_output: "0 \<le> spr_outputTokens res \<Longrightarrow> 0 \<le> spr_outputTokens (merge_tail lib provider d res)"
  by (auto simp: merge_tail_def Let_def split: prod.splits)

lemma estimate_output_pos: "1 \<le> estimate_output a b c n"
  by (simp add: estimate_output_def Let_def)



section \<open>Streams recorded while the breaker is open\<close>

text \<open>
  While the breaker is open only the tail is kept.  An Anthropic stream reports its input tokens in its first event, so a
  stream whose first event is further than 128 KB from its end is billed no input tokens at all.
\<close>

lemma last_n_ne: "xs \<noteq> [] \<Longrightarrow> 0 < n \<Longrightarrow> last_n n xs \<noteq> []"
  by (cases xs) (auto simp: last_n_def)

lemma anthropic_no_message:
  assumes "list_all (\<lambda>c. map_of c ''message'' = None) cs" "fst (snd st) = 0"
  shows "fst (snd (fold anthropic_chunk cs st)) = 0"
  using assms by (induction cs arbitrary: st) (auto simp: anthropic_chunk_def field_of_def split: prod.splits)

lemma open_breaker_loses_input:
  assumes "getParser provider = anthropicParser" "concat chunks \<noteq> []"
    and "list_all (\<lambda>c. map_of c ''message'' = None) (sse_chunks lib (last_n maxTailCapture (concat chunks)))"
    and "extractStreamingUsage lib provider (last_n maxTailCapture (concat chunks)) = (t, i, out)" "0 < out"
  shows "spr_inputTokens (stream_info lib provider model reqBody False translator chunks completed) = 0"
    and "spr_outputTokens (stream_info lib provider model reqBody False translator chunks completed) = out"
proof -
  let ?r = "merge_tail lib provider (last_n maxTailCapture (concat chunks)) (parse_head lib provider [] completed)"
  have "i = 0" using assms(1,4) anthropic_no_message [OF assms(3), of "([], 0, 0)"] by (simp add: extractStreamingUsage_def)
  moreover have "parse_head lib provider [] completed = (parse_head lib provider [] completed)\<lparr>spr_inputTokens := 0, spr_outputTokens := 0\<rparr>"
  proof -
    have "sse_payload [] = None" by simp
    then have "sse_chunks lib [] = []" by (simp add: sse_chunks_def List.map_filter_simps)
    then show ?thesis using assms(1) by (simp add: parse_head_def extractStreamingUsage_def)
  qed
  then have "spr_inputTokens (parse_head lib provider [] completed) = 0" by (metis streamParseResult.select_convs(2) streamParseResult.surjective streamParseResult.update_convs(2,3))
  moreover have "last_n maxTailCapture (concat chunks) \<noteq> []"
    using assms(2) by (intro last_n_ne) (simp_all add: maxTailCapture_def)
  ultimately have r: "spr_inputTokens ?r = 0" "spr_outputTokens ?r = out" "last_n maxTailCapture (concat chunks) \<noteq> []"
    using assms(4,5) by (simp_all add: merge_tail_def Let_def)
  have "estimate_usage n m c k res = res" if "spr_outputTokens res \<noteq> 0" for n m c k res using that by (simp add: estimate_usage_def)
  then have "stream_info lib provider model reqBody False translator chunks completed =
      (if spr_model ?r = [] then ?r\<lparr>spr_model := model\<rparr> else ?r)"
    using r assms(5) unfolding stream_info_def extractStreamInfo_def Let_def captured_tail captured_head captured_total by simp
  then show "spr_inputTokens (stream_info lib provider model reqBody False translator chunks completed) = 0"
    and "spr_outputTokens (stream_info lib provider model reqBody False translator chunks completed) = out"
    using r by simp_all
qed

end
