(* ===== verification/Retry.thy ===== *)
theory Retry
  imports Breaker Parsers
begin

text \<open>
  Retries: the policy of the proxy (\<^verbatim>\<open>pkg/proxy/retry.go\<close>), the loop of \<^verbatim>\<open>handleProxy\<close> (\<^verbatim>\<open>pkg/proxy/proxy.go\<close>) that tries
  each provider in turn several times, and the retry helper of the gRPC clients (\<^verbatim>\<open>pkg/grpcretry/grpcretry.go\<close>).

  What the outside world does at the k-th attempt is an argument: the translation of the request, the credentials, the
  upstream call, a disconnecting client, the random jitter.  The calls actually sent upstream are recorded in a log.
  \<^verbatim>\<open>math.Pow\<close> is the repeated squaring the library performs for an integer exponent while nothing underflows.
\<close>

section \<open>Policy\<close>

record BackoffConfig =
  bo_InitialMs :: int
  bo_MaxMs :: int
  bo_Multiplier :: f64

record RetryConfig =
  rc_Enabled :: bool
  rc_MaxAttempts :: int
  rc_RetryableStatusCodes :: "int list"
  rc_RetryOnTimeout :: bool
  rc_Backoff :: BackoffConfig

definition DefaultRetryConfig :: RetryConfig where
  "DefaultRetryConfig =
     \<lparr>rc_Enabled = False, rc_MaxAttempts = 2, rc_RetryableStatusCodes = [429, 500, 502, 503, 529], rc_RetryOnTimeout = True,
      rc_Backoff = \<lparr>bo_InitialMs = 500, bo_MaxMs = 5000, bo_Multiplier = Fin 2\<rparr>\<rparr>"

definition effectiveMaxAttempts :: "RetryConfig \<Rightarrow> int" where
  "effectiveMaxAttempts c = (if rc_MaxAttempts c < 1 then 1 else if 5 < rc_MaxAttempts c then 5 else rc_MaxAttempts c)"

definition IsRetryableStatus :: "RetryConfig \<Rightarrow> int \<Rightarrow> bool" where
  "IsRetryableStatus c code \<longleftrightarrow> code \<in> set (rc_RetryableStatusCodes c)"

text \<open>The error of a call: the operation of a \<^verbatim>\<open>net.OpError\<close> in its chain, a \<^verbatim>\<open>net.DNSError\<close>, or anything else.\<close>

datatype conn_error = OpError string | DNSError | OtherError

definition IsPreConnectionError :: "conn_error \<Rightarrow> bool" where
  "IsPreConnectionError e = (case e of OpError op \<Rightarrow> op = ''dial'' | DNSError \<Rightarrow> True | OtherError \<Rightarrow> False)"

record upstream_response =
  ur_StatusCode :: int
  ur_RetryAfter :: string

definition ShouldRetry :: "RetryConfig \<Rightarrow> int \<Rightarrow> upstream_response option \<Rightarrow> conn_error option \<Rightarrow> bool \<Rightarrow> bool" where
  "ShouldRetry c attempt resp connErr streamStarted =
     (if \<not> rc_Enabled c then False
      else if effectiveMaxAttempts c \<le> attempt then False
      else if streamStarted then False
      else case connErr of
             Some e \<Rightarrow> rc_RetryOnTimeout c \<and> IsPreConnectionError e
           | None \<Rightarrow> (case resp of None \<Rightarrow> False | Some r \<Rightarrow> IsRetryableStatus c (ur_StatusCode r)))"

function pow_loop :: "f64 \<Rightarrow> f64 \<Rightarrow> nat \<Rightarrow> f64" where
  "pow_loop a x i = (if i = 0 then a else pow_loop (if odd i then a * x else a) (x * x) (i div 2))"
  by pat_completeness auto
termination by (relation "measure (\<lambda>(_, _, i). i)") auto

declare pow_loop.simps [simp del]

definition Pow :: "f64 \<Rightarrow> nat \<Rightarrow> f64" where
  "Pow x i = (if i = 1 then x else pow_loop 1 x i)"

definition backoff_cap :: "BackoffConfig \<Rightarrow> nat \<Rightarrow> f64" where
  "backoff_cap b attempt =
     (let initialMs = (if bo_InitialMs b \<le> 0 then 500 else bo_InitialMs b);
          maxMs = (if bo_MaxMs b \<le> 0 then 5000 else bo_MaxMs b);
          multiplier = (if bo_Multiplier b \<le> 0 then Fin 2 else bo_Multiplier b)
      in fmin (of_i64 initialMs * Pow multiplier attempt) (of_i64 maxMs))"

definition BackoffDuration :: "f64 \<Rightarrow> RetryConfig \<Rightarrow> nat \<Rightarrow> duration" where
  "BackoffDuration rand c attempt = wrap64 (to_i64 (rand * backoff_cap (rc_Backoff c) attempt) * 1000000)"

definition maxRetryAfter :: duration where
  "maxRetryAfter = 60 * ns_second"

text \<open>\<^verbatim>\<open>http.ParseTime\<close> is an argument.\<close>

definition ParseRetryAfter :: "(string \<Rightarrow> gotime option) \<Rightarrow> gotime \<Rightarrow> upstream_response option \<Rightarrow> duration" where
  "ParseRetryAfter parse_date now resp =
     (case resp of
        None \<Rightarrow> 0
      | Some r \<Rightarrow>
          let val = TrimSpace (ur_RetryAfter r)
          in if val = [] then 0
             else case Atoi val of
                    Some secs \<Rightarrow>
                      let d = wrap64 (secs * ns_second); d1 = (if maxRetryAfter < d then maxRetryAfter else d)
                      in if d1 < 0 then 0 else d1
                  | None \<Rightarrow>
                      (case parse_date val of
                         None \<Rightarrow> 0
                       | Some t \<Rightarrow>
                           let d = time_sub t now in if d < 0 then 0 else if maxRetryAfter < d then maxRetryAfter else d))"

section \<open>The loop over providers and attempts\<close>

text \<open>What happens at an attempt, up to and including the upstream call.\<close>

datatype attempt_event =
    TranslationFails
  | UnsafeModel
  | RequestFails
  | AuthFails
  | ConnFails conn_error
  | Responds upstream_response

text \<open>\<open>fw_gone k\<close>: the client disconnects during the wait before the k-th attempt.\<close>

record fw_env =
  fw_event :: "nat \<Rightarrow> attempt_event"
  fw_gone :: "nat \<Rightarrow> bool"
  fw_rand :: "nat \<Rightarrow> f64"
  fw_date :: "string \<Rightarrow> gotime option"
  fw_now :: gotime

datatype call_result = Failed conn_error | Got upstream_response

record fw_state =
  fw_count :: nat
  fw_breakers :: "(string \<times> CircuitBreaker) list"
  fw_calls :: "(string \<times> call_result) list"
  fw_waits :: "duration list"

definition recordCircuitBreaker :: "gotime \<Rightarrow> string \<Rightarrow> bool \<Rightarrow> (string \<times> CircuitBreaker) list \<Rightarrow> (string \<times> CircuitBreaker) list" where
  "recordCircuitBreaker now provider failed bs =
     AList.map_entry provider (\<lambda>cb. if failed then cb_RecordFailure now cb else cb_RecordSuccess cb) bs"

datatype fw_answer = BadRequest | ServerError | ClientGone | BadGateway | Forwarded string upstream_response

text \<open>How an iteration of the inner loop ends: with \<^verbatim>\<open>continue\<close>, with \<^verbatim>\<open>break\<close>, at the label \<^verbatim>\<open>done\<close>, or with an answer.\<close>

datatype iteration = Continue "upstream_response option" | Break "upstream_response option" | Done upstream_response | Return fw_answer

definition wait_before :: "fw_env \<Rightarrow> RetryConfig \<Rightarrow> nat \<Rightarrow> upstream_response option \<Rightarrow> nat \<Rightarrow> duration" where
  "wait_before e c attempt resp k =
     (if attempt \<le> 1 then 0
      else let b = BackoffDuration (fw_rand e k) c (attempt - 2); ra = ParseRetryAfter (fw_date e) (fw_now e) resp
           in if resp \<noteq> None \<and> b < ra then ra else b)"

definition call_upstream :: "fw_env \<Rightarrow> string \<Rightarrow> call_result \<Rightarrow> bool \<Rightarrow> fw_state \<Rightarrow> fw_state" where
  "call_upstream e provider res failed s =
     s\<lparr>fw_calls := fw_calls s @ [(provider, res)], fw_breakers := recordCircuitBreaker (fw_now e) provider failed (fw_breakers s)\<rparr>"

definition attempt_once ::
    "fw_env \<Rightarrow> RetryConfig \<Rightarrow> bool \<Rightarrow> bool \<Rightarrow> nat \<Rightarrow> string \<Rightarrow> nat \<Rightarrow> upstream_response option \<Rightarrow> fw_state \<Rightarrow> iteration \<times> fw_state" where
  "attempt_once e c hasFallbacks isLast maxAttempts provider attempt resp s0 =
     (let k = fw_count s0 + 1; w = wait_before e c attempt resp k;
          s = s0\<lparr>fw_count := k, fw_waits := (if 0 < w then fw_waits s0 @ [w] else fw_waits s0)\<rparr>
      in if 0 < w \<and> fw_gone e k then (Return ClientGone, s)
         else case fw_event e k of
                TranslationFails \<Rightarrow> (Return BadRequest, s)
              | UnsafeModel \<Rightarrow> (Return BadRequest, s)
              | RequestFails \<Rightarrow> (Return ServerError, s)
              | AuthFails \<Rightarrow> (if \<not> isLast \<or> attempt < maxAttempts then Continue None else Return ServerError, s)
              | ConnFails err \<Rightarrow>
                  (if ShouldRetry c (int attempt) None (Some err) False then Continue None else Break None,
                   call_upstream e provider (Failed err) True s)
              | Responds r \<Rightarrow>
                  (if \<not> ((rc_Enabled c \<or> hasFallbacks) \<and> IsRetryableStatus c (ur_StatusCode r)) then Done r
                   else if attempt < maxAttempts then Continue (Some r)
                   else Break (Some r),
                   call_upstream e provider (Got r) (500 \<le> ur_StatusCode r) s))"

text \<open>The inner loop; \<open>left\<close> counts the attempts that remain.\<close>

fun attempts_on ::
    "fw_env \<Rightarrow> RetryConfig \<Rightarrow> bool \<Rightarrow> bool \<Rightarrow> nat \<Rightarrow> string \<Rightarrow> nat \<Rightarrow> nat \<Rightarrow> upstream_response option \<Rightarrow> fw_state
      \<Rightarrow> iteration \<times> fw_state" where
  "attempts_on e c fb isLast n provider attempt 0 resp s = (Break resp, s)"
| "attempts_on e c fb isLast n provider attempt (Suc left) resp s =
     (case attempt_once e c fb isLast n provider attempt resp s of
        (Continue resp', s') \<Rightarrow> attempts_on e c fb isLast n provider (Suc attempt) left resp' s'
      | (it, s') \<Rightarrow> (it, s'))"

definition max_attempts :: "RetryConfig \<Rightarrow> nat" where
  "max_attempts c = (if rc_Enabled c then nat (effectiveMaxAttempts c) else 1)"

fun try_providers :: "fw_env \<Rightarrow> RetryConfig \<Rightarrow> bool \<Rightarrow> string list \<Rightarrow> fw_state \<Rightarrow> fw_answer \<times> fw_state" where
  "try_providers e c fb [] s = (BadGateway, s)"
| "try_providers e c fb (p # ps) s =
     (case attempts_on e c fb (ps = []) (max_attempts c) p 1 (max_attempts c) None s of
        (Return a, s') \<Rightarrow> (a, s')
      | (Done r, s') \<Rightarrow> (Forwarded p r, s')
      | (Break (Some r), s') \<Rightarrow> if ps = [] then (Forwarded p r, s') else try_providers e c fb ps s'
      | (_, s') \<Rightarrow> try_providers e c fb ps s')"

definition forward :: "fw_env \<Rightarrow> RetryConfig \<Rightarrow> string list \<Rightarrow> (string \<times> CircuitBreaker) list \<Rightarrow> fw_answer \<times> fw_state" where
  "forward e c providers bs =
     try_providers e c (1 < length providers) providers \<lparr>fw_count = 0, fw_breakers = bs, fw_calls = [], fw_waits = []\<rparr>"

section \<open>The helper of the gRPC clients\<close>

record grpc_Config =
  gr_InitialDelay :: duration
  gr_MaxDelay :: duration
  gr_Multiplier :: f64
  gr_MaxAttempts :: int

definition grpc_WithDefaults :: "grpc_Config \<Rightarrow> grpc_Config" where
  "grpc_WithDefaults c =
     (let c1 = (if gr_InitialDelay c \<le> 0 then c\<lparr>gr_InitialDelay := ns_second\<rparr> else c);
          c2 = (if gr_MaxDelay c1 \<le> 0 then c1\<lparr>gr_MaxDelay := 30 * ns_second\<rparr> else c1);
          c3 = (if gr_Multiplier c2 \<le> 0 then c2\<lparr>gr_Multiplier := Fin 2\<rparr> else c2)
      in if gr_MaxAttempts c3 < 0 then c3\<lparr>gr_MaxAttempts := 0\<rparr> else c3)"

definition grpc_Backoff :: "f64 \<Rightarrow> int \<Rightarrow> grpc_Config \<Rightarrow> duration" where
  "grpc_Backoff rand attempt0 c =
     (let attempt = (if attempt0 < 0 then 0 else if 30 < attempt0 then 30 else attempt0);
          d0 = of_i64 (gr_InitialDelay c) * Pow (gr_Multiplier c) (nat attempt);
          d = (if of_i64 (gr_MaxDelay c) < d0 then of_i64 (gr_MaxDelay c) else d0);
          jitter = d * Fin (1 / 4) * (Fin 2 * rand - 1)
      in to_i64 (d + jitter))"

datatype grpc_code = Unavailable | DeadlineExceeded | ResourceExhausted | OtherCode nat

datatype grpc_result = Succeeded | FailedWith grpc_code | ContextDone

fun grpc_loop :: "(nat \<Rightarrow> grpc_code option) \<Rightarrow> (nat \<Rightarrow> bool) \<Rightarrow> nat \<Rightarrow> nat \<Rightarrow> grpc_result \<times> nat" where
  "grpc_loop op gone attempt left =
     (case op attempt of
        None \<Rightarrow> (Succeeded, attempt + 1)
      | Some code \<Rightarrow>
          if code \<in> {Unavailable, DeadlineExceeded, ResourceExhausted} then
            (case left of
               0 \<Rightarrow> (FailedWith code, attempt + 1)
             | Suc left' \<Rightarrow> if gone attempt then (ContextDone, attempt + 1) else grpc_loop op gone (attempt + 1) left')
          else (FailedWith code, attempt + 1))"

text \<open>The result and the number of times the operation was run; \<open>gone k\<close>: the context ends during the wait after run \<open>k\<close>.\<close>

definition grpc_Do :: "(nat \<Rightarrow> grpc_code option) \<Rightarrow> (nat \<Rightarrow> bool) \<Rightarrow> grpc_Config \<Rightarrow> grpc_result \<times> nat" where
  "grpc_Do op gone c = grpc_loop op gone 0 (nat (gr_MaxAttempts (grpc_WithDefaults c)))"

section \<open>The calls of a request\<close>

text \<open>An outcome after which the same provider may be called again.\<close>

fun repeatable :: "RetryConfig \<Rightarrow> call_result \<Rightarrow> bool" where
  "repeatable c (Failed err) \<longleftrightarrow> rc_Enabled c \<and> rc_RetryOnTimeout c \<and> IsPreConnectionError err"
| "repeatable c (Got r) \<longleftrightarrow> IsRetryableStatus c (ur_StatusCode r)"

lemma max_attempts_bounds: "1 \<le> max_attempts c" "max_attempts c \<le> 5"
  by (auto simp: max_attempts_def effectiveMaxAttempts_def)

lemma attempt_once_calls:
  assumes "attempt_once e c fb l n p a resp s = (it, s')"
  obtains "fw_calls s' = fw_calls s" "\<And>r. it \<noteq> Done r" "\<And>r. it \<noteq> Break (Some r)" "\<And>r. it \<noteq> Continue (Some r)" "\<And>q r. it \<noteq> Return (Forwarded q r)"
  | x where "fw_calls s' = fw_calls s @ [(p, x)]" "\<And>resp'. it = Continue resp' \<Longrightarrow> repeatable c x"
      "\<And>r. it = Done r \<or> it = Break (Some r) \<or> it = Continue (Some r) \<Longrightarrow> x = Got r" "\<And>r. it \<noteq> Return r"
proof -
  define k where "k = fw_count s + 1"
  define w where "w = wait_before e c a resp k"
  define t where "t = s\<lparr>fw_count := k, fw_waits := (if 0 < w then fw_waits s @ [w] else fw_waits s)\<rparr>"
  have t: "fw_calls t = fw_calls s" by (simp add: t_def)
  show thesis
  proof (cases "0 < w \<and> fw_gone e k")
    case True
    then have "it = Return ClientGone \<and> s' = t" using assms by (simp add: attempt_once_def k_def w_def t_def Let_def)
    then show thesis using that(1) t by simp
  next
    case False
    note step = assms [unfolded attempt_once_def Let_def, folded k_def, folded w_def, folded t_def]
    show thesis
    proof (cases "fw_event e k")
      case (ConnFails err)
      then have "s' = call_upstream e p (Failed err) True t" "it = (if ShouldRetry c (int a) None (Some err) False then Continue None else Break None)"
        using step False by auto
      then show thesis using that(2) [of "Failed err"] t by (auto simp: call_upstream_def ShouldRetry_def split: if_splits)
    next
      case (Responds r)
      then have "s' = call_upstream e p (Got r) (500 \<le> ur_StatusCode r) t"
        "it = (if \<not> ((rc_Enabled c \<or> fb) \<and> IsRetryableStatus c (ur_StatusCode r)) then Done r else if a < n then Continue (Some r) else Break (Some r))"
        using step False by auto
      then show thesis using that(2) [of "Got r"] t by (auto simp: call_upstream_def split: if_splits)
    qed (use step False t that(1) in \<open>auto split: if_splits\<close>)
  qed
qed

definition segment_ok :: "RetryConfig \<Rightarrow> nat \<Rightarrow> string \<Rightarrow> (string \<times> call_result) list \<Rightarrow> bool" where
  "segment_ok c n p seg \<longleftrightarrow> length seg \<le> n \<and> (\<forall>x\<in>set seg. fst x = p) \<and> (\<forall>x\<in>set (butlast seg). repeatable c (snd x))"

lemma segment_ok_Cons: "segment_ok c n p seg \<Longrightarrow> repeatable c x \<Longrightarrow> segment_ok c (Suc n) p ((p, x) # seg)"
  by (auto simp: segment_ok_def)

lemma attempts_on_calls:
  assumes "attempts_on e c fb l n p a left resp s = (it, s')"
    and "\<And>r. resp = Some r \<Longrightarrow> fw_calls s \<noteq> [] \<and> last (fw_calls s) = (p, Got r)"
  shows "(\<exists>seg. fw_calls s' = fw_calls s @ seg \<and> segment_ok c left p seg) \<and>
    (\<forall>r. it = Done r \<or> it = Break (Some r) \<longrightarrow> fw_calls s' \<noteq> [] \<and> last (fw_calls s') = (p, Got r)) \<and>
    (\<forall>r. it \<noteq> Continue r) \<and> (\<forall>q r. it \<noteq> Return (Forwarded q r))"
  using assms
proof (induction left arbitrary: a resp s)
  case 0
  then show ?case by (auto simp: segment_ok_def)
next
  case (Suc left)
  obtain it1 s1 where once: "attempt_once e c fb l n p a resp s = (it1, s1)" by fastforce
  show ?case
  proof (cases "\<exists>r. it1 = Continue r")
    case True
    then obtain resp1 where Continue: "it1 = Continue resp1" by blast
    with Suc.prems(1) once have rest: "attempts_on e c fb l n p (Suc a) left resp1 s1 = (it, s')" by simp
    from once show ?thesis
    proof (cases rule: attempt_once_calls)
      case 1
      then have "\<And>r. resp1 = Some r \<Longrightarrow> fw_calls s1 \<noteq> [] \<and> last (fw_calls s1) = (p, Got r)" using Continue by auto
      with Suc.IH [OF rest] 1(1) show ?thesis by (auto simp: segment_ok_def intro!: le_SucI)
    next
      case (2 x)
      then have "\<And>r. resp1 = Some r \<Longrightarrow> fw_calls s1 \<noteq> [] \<and> last (fw_calls s1) = (p, Got r)" using Continue by auto
      note IH = Suc.IH [OF rest this]
      then obtain seg where "fw_calls s' = fw_calls s1 @ seg" "segment_ok c left p seg" by blast
      then have "fw_calls s' = fw_calls s @ (p, x) # seg \<and> segment_ok c (Suc left) p ((p, x) # seg)"
        using 2 Continue segment_ok_Cons by simp
      with IH show ?thesis by blast
    qed
  next
    case False
    with Suc.prems(1) once have e: "it = it1" "s' = s1" by (cases it1; simp)+
    from once show ?thesis
    proof (cases rule: attempt_once_calls)
      case 1
      with e False show ?thesis by (auto simp: segment_ok_def)
    next
      case (2 x)
      with e False show ?thesis by (auto simp: segment_ok_def intro: exI [of _ "[(p, x)]"])
    qed
  qed
qed

lemma try_providers_calls:
  assumes "try_providers e c fb ps s = (ans, s')"
  shows "\<exists>segs. fw_calls s' = fw_calls s @ concat segs \<and> length segs \<le> length ps \<and>
    list_all2 (segment_ok c (max_attempts c)) (take (length segs) ps) segs \<and>
    (\<forall>p r. ans = Forwarded p r \<longrightarrow> p \<in> set ps \<and> fw_calls s' \<noteq> [] \<and> last (fw_calls s') = (p, Got r))"
  using assms
proof (induction ps arbitrary: s)
  case Nil
  then show ?case by auto
next
  case (Cons p ps)
  obtain it s1 where on: "attempts_on e c fb (ps = []) (max_attempts c) p 1 (max_attempts c) None s = (it, s1)" by fastforce
  note facts = attempts_on_calls [OF on]
  then obtain seg where seg: "fw_calls s1 = fw_calls s @ seg" "segment_ok c (max_attempts c) p seg" by auto
  show ?case
  proof (cases "try_providers e c fb ps s1 = (ans, s') \<and> \<not> (\<exists>r. it = Done r) \<and> (\<forall>a. it \<noteq> Return a) \<and> (ps = [] \<longrightarrow> (\<forall>r. it \<noteq> Break (Some r)))")
    case True
    then obtain segs where "fw_calls s' = fw_calls s1 @ concat segs" "length segs \<le> length ps"
      "list_all2 (segment_ok c (max_attempts c)) (take (length segs) ps) segs"
      "\<forall>p r. ans = Forwarded p r \<longrightarrow> p \<in> set ps \<and> fw_calls s' \<noteq> [] \<and> last (fw_calls s') = (p, Got r)"
      using Cons.IH by blast
    then show ?thesis using seg by (intro exI [of _ "seg # segs"]) auto
  next
    case False
    then have "s' = s1 \<and> ((\<exists>r. ans = Forwarded p r \<and> (it = Done r \<or> it = Break (Some r))) \<or> (\<exists>a. it = Return a \<and> ans = a))"
      using Cons.prems on facts by (auto split: iteration.splits option.splits if_splits)
    then show ?thesis using seg facts by (intro exI [of _ "[seg]"]) auto
  qed
qed

lemma concat_bound: "\<forall>x\<in>set xs. length x \<le> n \<Longrightarrow> length (concat xs) \<le> n * length xs"
  by (induction xs) auto

lemma forward_calls:
  assumes "forward e c ps bs = (ans, s')"
  shows "\<exists>segs. fw_calls s' = concat segs \<and> length segs \<le> length ps \<and>
    (\<forall>i<length segs. segment_ok c (max_attempts c) (ps ! i) (segs ! i)) \<and>
    (\<forall>p r. ans = Forwarded p r \<longrightarrow> last (fw_calls s') = (p, Got r))"
  using try_providers_calls [OF assms [unfolded forward_def]] by (auto simp: list_all2_conv_all_nth)

text \<open>After a call that must not be repeated, the rest of the log holds calls of later providers only.\<close>

lemma after_unrepeatable:
  assumes "concat segs = xs @ (p, x) # ys" "\<not> repeatable c x" "distinct (take (length segs) ps)" "length segs \<le> length ps"
    and "\<forall>i<length segs. segment_ok c n (ps ! i) (segs ! i)"
  shows "p \<notin> fst ` set ys"
  using assms
proof (induction segs arbitrary: xs ps)
  case (Cons seg segs)
  obtain q qs where ps: "ps = q # qs" using Cons.prems(4) by (cases ps) auto
  have seg: "segment_ok c n q seg" and rest: "\<forall>i<length segs. segment_ok c n (qs ! i) (segs ! i)"
    using Cons.prems(5) unfolding ps by (force, force)
  have later: "fst ` set (concat segs) \<subseteq> set (take (length segs) qs)"
  proof
    fix z assume "z \<in> fst ` set (concat segs)"
    then obtain i y where "i < length segs" "y \<in> set (segs ! i)" "z = fst y" by (auto simp: in_set_conv_nth) (metis in_set_conv_nth fst_conv)
    then show "z \<in> set (take (length segs) qs)"
      using rest Cons.prems(4) ps by (auto simp: segment_ok_def in_set_conv_nth intro!: exI [of _ i])
  qed
  show ?case
  proof (cases "length xs < length seg")
    case True
    then obtain us where us: "seg = xs @ (p, x) # us" "ys = us @ concat segs"
      using Cons.prems(1) by (auto simp: append_eq_append_conv2 append_eq_Cons_conv)
    then have "us = []" using seg Cons.prems(2) by (auto simp: segment_ok_def butlast_append split: if_splits)
    moreover have "p = q" using seg us by (auto simp: segment_ok_def)
    ultimately show ?thesis using us later Cons.prems(3) ps by auto
  next
    case False
    then obtain xs' where "concat segs = xs' @ (p, x) # ys"
      using Cons.prems(1) by (auto simp: append_eq_append_conv2 append_eq_Cons_conv)
    then show ?thesis using Cons.IH [of xs' qs] Cons.prems ps rest by simp
  qed
qed simp

section \<open>Properties\<close>



definition demo_retry :: RetryConfig where
  "demo_retry = DefaultRetryConfig\<lparr>rc_Enabled := True\<rparr>"

definition demo_fw :: fw_env where
  "demo_fw = \<lparr>fw_event = \<lambda>k. if k = 1 then ConnFails (OpError ''read'') else Responds \<lparr>ur_StatusCode = 200, ur_RetryAfter = []\<rparr>,
     fw_gone = \<lambda>_. False, fw_rand = \<lambda>_. 0, fw_date = \<lambda>_. None, fw_now = 0\<rparr>"

lemma demo_forward:
  "forward demo_fw demo_retry [''openai'', ''backup''] [] =
     (Forwarded ''backup'' \<lparr>ur_StatusCode = 200, ur_RetryAfter = []\<rparr>,
      \<lparr>fw_count = 2, fw_breakers = [], fw_calls = [(''openai'', Failed (OpError ''read'')), (''backup'', Got \<lparr>ur_StatusCode = 200, ur_RetryAfter = []\<rparr>)],
       fw_waits = []\<rparr>)"
  by (simp add: forward_def demo_fw_def demo_retry_def DefaultRetryConfig_def max_attempts_def effectiveMaxAttempts_def numeral_2_eq_2
      attempt_once_def wait_before_def call_upstream_def recordCircuitBreaker_def ShouldRetry_def IsPreConnectionError_def IsRetryableStatus_def Let_def)


text \<open>The same log shows that the next provider is sent the request although the first may have processed it.\<close>

lemma ambiguous_reaches_fallback:
  "\<not> IsPreConnectionError (OpError ''read'') \<and>
   map fst (fw_calls (snd (forward demo_fw demo_retry [''openai'', ''backup''] []))) = [''openai'', ''backup'']"
  by (simp add: demo_forward IsPreConnectionError_def)

section \<open>Waits\<close>

lemma ParseRetryAfter_bounds: "0 \<le> ParseRetryAfter d now r" "ParseRetryAfter d now r \<le> maxRetryAfter"
  by (auto simp: ParseRetryAfter_def maxRetryAfter_def Let_def split: option.splits)

text \<open>A number of seconds too large for a duration wraps around and is taken for no delay instead of the cap.\<close>

lemma huge_retry_after_ignored:
  "ParseRetryAfter d now (Some \<lparr>ur_StatusCode = 429, ur_RetryAfter = ''9223372037''\<rparr>) = 0"
proof -
  have "TrimSpace ''9223372037'' = ''9223372037''" "Atoi ''9223372037'' = Some 9223372037" by code_simp+
  moreover have "wrap64 (9223372037 * ns_second) < 0" by (simp add: wrap64_def)
  ultimately show ?thesis by (simp add: ParseRetryAfter_def maxRetryAfter_def Let_def)
qed

lemma grpc_runs_bounded: "snd (grpc_loop op gone k left) \<le> k + left + 1"
proof (induction left arbitrary: k)
  case 0
  then show ?case by (auto split: option.splits)
next
  case (Suc left)
  from Suc [of "k + 1"] show ?case by (subst grpc_loop.simps) (auto split: option.splits simp del: grpc_loop.simps)
qed

text \<open>An operation runs at most once more than the number of retries that is configured.\<close>

lemma grpc_Do_bounded: "snd (grpc_Do op gone c) \<le> nat (gr_MaxAttempts (grpc_WithDefaults c)) + 1"
  unfolding grpc_Do_def using grpc_runs_bounded [of op gone 0] by simp

end
