(* ===== verification/Respond.thy ===== *)
theory Respond
  imports Preflight Processor StreamCapture Retry
begin

text \<open>
  After the upstream has answered (\<^verbatim>\<open>pkg/proxy/proxy.go\<close>): the end of \<^verbatim>\<open>handleProxy\<close>, the handlers of whole and streamed
  answers, and the span of the request, with its content shortened as in \<^verbatim>\<open>pkg/proxy/scrub.go\<close> and its trace context from
  \<^verbatim>\<open>pkg/proxy/ids.go\<close>.  They compose the parsers, the capture of a stream, the charge and the reservations.

  Arguments: the text of the body or the failure to read it, the translator of the provider, the redaction of secrets (regular
  expressions), the decoding into runes, random identifiers, the clock and the billing store.  The deferred functions of
  \<^verbatim>\<open>handleProxy\<close> run at the end.  A span is built by a goroutine of its own; building it is a function of values captured
  when the handler starts it, so it is computed on the spot.
\<close>

section \<open>Trace context and content\<close>

record traceContext =
  tc_traceID :: string
  tc_parentSpanID :: string

definition is_hex :: "string \<Rightarrow> bool" where
  "is_hex s \<longleftrightarrow> s \<noteq> [] \<and> list_all (\<lambda>c. is_digit c \<or> 97 \<le> (of_char c :: nat) \<and> (of_char c :: nat) \<le> 102) s"

definition parseTraceparent :: "string \<Rightarrow> traceContext option" where
  "parseTraceparent header =
     (if length header < 55 then None
      else case split_on (CHR ''-'') header of
             v # t # p # f # _ \<Rightarrow>
               let version = ToLower v; traceID = ToLower t; spanID = ToLower p
               in if length version \<noteq> 2 \<or> version = ''ff'' then None
                  else if length traceID \<noteq> 32 \<or> length spanID \<noteq> 16 \<or> length f \<noteq> 2 then None
                  else if traceID = replicate 32 (CHR ''0'') \<or> spanID = replicate 16 (CHR ''0'') then None
                  else if \<not> is_hex traceID \<or> \<not> is_hex spanID then None
                  else Some \<lparr>tc_traceID = traceID, tc_parentSpanID = spanID\<rparr>
           | _ \<Rightarrow> None)"

text \<open>The redaction and the split of a string into its runes.\<close>

record text_lib =
  ScrubContent :: "string \<Rightarrow> string"
  to_runes :: "string \<Rightarrow> string list"

definition TruncateContent :: "text_lib \<Rightarrow> string \<Rightarrow> int \<Rightarrow> string" where
  "TruncateContent tx s maxLen =
     (if maxLen \<le> 0 \<or> s = [] then s
      else if int (length (to_runes tx s)) \<le> maxLen then s
      else concat (take (nat maxLen) (to_runes tx s)) @ ''... [truncated]'')"

definition SanitizeSpanContent :: "text_lib \<Rightarrow> string \<Rightarrow> int \<Rightarrow> string" where
  "SanitizeSpanContent tx s0 maxLen =
     (if s0 = [] then []
      else if maxLen \<le> 0 then ScrubContent tx s0
      else let bufferRunes = nat maxLen + 200; maxBytes = bufferRunes * 4; isTruncated = maxBytes < length s0;
               s = (if isTruncated then take maxBytes s0 else s0); runes = to_runes tx s
           in if nat maxLen < length runes then
                TruncateContent tx (ScrubContent tx (concat (if bufferRunes < length runes then take bufferRunes runes else runes))) maxLen
              else if isTruncated then TruncateContent tx (ScrubContent tx s) maxLen
              else ScrubContent tx s)"

definition sanitizeSpanContent :: "text_lib \<Rightarrow> int \<Rightarrow> string \<Rightarrow> string" where
  "sanitizeSpanContent tx maxContentLen s = (if s = [] then [] else SanitizeSpanContent tx s maxContentLen)"

section \<open>Spans\<close>

text \<open>The values of the \<^verbatim>\<open>Proxy\<close> a span depends on.\<close>

record span_env =
  se_calc :: Calculator
  se_now :: gotime
  se_text :: text_lib
  se_maxContentLen :: int
  se_projectID :: string
  se_traceID :: string

record spanParams =
  sp_provider :: string
  sp_upstream :: string
  sp_model :: string
  sp_sessionID :: string
  sp_effectiveUserID :: string
  sp_tenantID :: string
  sp_jobID :: string
  sp_inputContent :: string
  sp_outputContent :: string
  sp_reasoningContent :: string
  sp_inputTokens :: i64
  sp_outputTokens :: i64
  sp_cacheTokens :: CacheTokens
  sp_startTime :: gotime
  sp_endTime :: gotime
  sp_status :: SpanStatus
  sp_ttfb :: duration
  sp_requestID :: string
  sp_extraAttrs :: "(string \<times> string) list"
  sp_namePrefix :: string
  sp_traceCtx :: "traceContext option"
  sp_proxySpanID :: string

definition span_attrs :: "spanParams \<Rightarrow> (string \<times> string) list" where
  "span_attrs p =
     (let a0 = [(''proxy.upstream'', sp_upstream p), (''http.ttfb_ms'', Itoa (millis (sp_ttfb p))), (''http.request_id'', sp_requestID p)];
          a1 = fold (\<lambda>(k, v). AList.update k v) (sp_extraAttrs p) a0;
          a2 = (if 0 < ct_CacheReadTokens (sp_cacheTokens p)
                then AList.update ''gen_ai.usage.cache_read_tokens'' (Itoa (ct_CacheReadTokens (sp_cacheTokens p))) a1 else a1)
      in if 0 < ct_CacheCreationTokens (sp_cacheTokens p)
         then AList.update ''gen_ai.usage.cache_creation_tokens'' (Itoa (ct_CacheCreationTokens (sp_cacheTokens p))) a2 else a2)"

definition buildSpan :: "span_env \<Rightarrow> spanParams \<Rightarrow> Span" where
  "buildSpan e p =
     (let pprov = pricingProvider (sp_provider p); d = time_sub (sp_endTime p) (sp_startTime p);
          cost = fst (request_cost (se_now e) (sp_provider p) (sp_model p) (sp_inputTokens p) (sp_outputTokens p) d (se_calc e));
          (inputRate, outputRate, discountPct) =
            (case ResolveEffective (se_now e) (se_calc e) pprov (sp_model p) (sp_inputTokens p) of
               None \<Rightarrow> (0, 0, 0)
             | Some pr \<Rightarrow> (InputPerMillion pr, OutputPerMillion pr, p_DiscountPercent pr));
          clean = sanitizeSpanContent (se_text e) (se_maxContentLen e)
      in \<lparr>SpanID = sp_proxySpanID p,
          TraceID = (case sp_traceCtx p of None \<Rightarrow> se_traceID e | Some c \<Rightarrow> tc_traceID c),
          ParentSpanID = (case sp_traceCtx p of None \<Rightarrow> [] | Some c \<Rightarrow> tc_parentSpanID c),
          s_Name = sp_namePrefix p, s_Kind = SpanKindLLM, s_Status = sp_status p, StatusMessage = [],
          StartTime = sp_startTime p, EndTime = sp_endTime p, s_Duration = d,
          GenAI = Some \<lparr>g_Model = sp_model p, g_Provider = sp_provider p, InputTokens = sp_inputTokens p, OutputTokens = sp_outputTokens p,
                        TotalTokens = wrap64 (sp_inputTokens p + sp_outputTokens p), CostUSD = cost, Temperature = 0, MaxTokens = 0, TopP = 0,
                        InputContent = clean (sp_inputContent p), OutputContent = clean (sp_outputContent p),
                        ReasoningContent = clean (sp_reasoningContent p), CacheReadTokens = ct_CacheReadTokens (sp_cacheTokens p),
                        CacheCreationTokens = ct_CacheCreationTokens (sp_cacheTokens p), InputRate = inputRate, OutputRate = outputRate,
                        g_DiscountPercent = discountPct, g_GlobalDiscount = globalDiscount (se_calc e)\<rparr>,
          Attributes = Some (span_attrs p), s_ProjectID = se_projectID e, Environment = [], ServiceName = [],
          s_UserID = sp_effectiveUserID p, s_SessionID = sp_sessionID p, s_TenantID = sp_tenantID p, JobID = sp_jobID p,
          TraceGroup = [], Labels = None\<rparr>)"

text \<open>What identifies the exchange: provider, request and the identifiers resolved before.\<close>

record exchange =
  ex_provider :: string
  ex_upstream :: string
  ex_reqBody :: string
  ex_path :: string
  ex_user :: string
  ex_session :: string
  ex_tenant :: string
  ex_job :: string
  ex_requestID :: string
  ex_extendedTTL :: bool
  ex_cbAllow :: bool
  ex_start :: gotime
  ex_end :: gotime
  ex_ttfb :: duration
  ex_traceCtx :: "traceContext option"
  ex_proxySpanID :: string

text \<open>Model and normalised token counts of a whole answer, as both the charge and the span compute them.\<close>

definition standard_usage :: "json_lib \<Rightarrow> Calculator \<Rightarrow> exchange \<Rightarrow> string \<Rightarrow> string \<times> i64 \<times> i64" where
  "standard_usage lib c x respBody =
     (case extractResponseInfo lib (ex_provider x) respBody of
        (_, inputTokens, outputTokens) \<Rightarrow>
          let m = fst (extractRequestInfo lib (ex_provider x) (ex_reqBody x));
              model = (if m = [] then extractModelFromResponse lib (ex_provider x) respBody else m);
              ct = extractCacheTokens lib (ex_provider x) respBody
          in (model, NormalizeCachedInputWithTTL c (ex_provider x) model inputTokens (ct_CacheReadTokens ct) (ct_CacheCreationTokens ct) (ex_extendedTTL x),
              outputTokens))"

definition reasoning_split :: "string \<Rightarrow> string \<Rightarrow> string \<times> string" where
  "reasoning_split model content = (if isReasoningModel model then extractThinking content else (content, []))"

definition createSpan :: "json_lib \<Rightarrow> span_env \<Rightarrow> exchange \<Rightarrow> int \<Rightarrow> string \<Rightarrow> Span" where
  "createSpan lib e x statusCode respBody =
     (case standard_usage lib (se_calc e) x respBody of
        (model, inputTokens, outputTokens) \<Rightarrow>
          let (outputContent, reasoningContent) = reasoning_split model (fst (extractResponseInfo lib (ex_provider x) respBody))
          in buildSpan e
               \<lparr>sp_provider = ex_provider x, sp_upstream = ex_upstream x, sp_model = model, sp_sessionID = ex_session x,
                sp_effectiveUserID = ex_user x, sp_tenantID = ex_tenant x, sp_jobID = ex_job x,
                sp_inputContent = snd (extractRequestInfo lib (ex_provider x) (ex_reqBody x)), sp_outputContent = outputContent,
                sp_reasoningContent = reasoningContent, sp_inputTokens = inputTokens, sp_outputTokens = outputTokens,
                sp_cacheTokens = extractCacheTokens lib (ex_provider x) respBody, sp_startTime = ex_start x, sp_endTime = ex_end x,
                sp_status = (if 400 \<le> statusCode then SpanStatusError else SpanStatusOK), sp_ttfb = ex_ttfb x, sp_requestID = ex_requestID x,
                sp_extraAttrs = [(''http.status'', Itoa statusCode)], sp_namePrefix = ex_provider x @ ''.chat'',
                sp_traceCtx = ex_traceCtx x, sp_proxySpanID = ex_proxySpanID x\<rparr>)"

definition stream_attrs :: "duration \<Rightarrow> bool \<Rightarrow> streamParseResult \<Rightarrow> int \<Rightarrow> (string \<times> string) list" where
  "stream_attrs ttft streamCapped info streamed =
     [(''proxy.streaming'', ''true''), (''llm.ttft_ms'', Itoa (millis ttft))]
     @ (if streamCapped then [(''proxy.stream_truncated'', ''true'')] else [])
     @ (if \<not> spr_statusOK info then [(''proxy.stream_incomplete'', ''true'')] else [])
     @ (if spr_isEstimated info then [(''proxy.usage_estimated'', ''true'')] else [])
     @ (if 0 < streamed then [(''proxy.total_bytes_streamed'', Itoa streamed)] else [])"

definition createStreamingSpan :: "json_lib \<Rightarrow> span_env \<Rightarrow> exchange \<Rightarrow> streamParseResult \<Rightarrow> bool \<Rightarrow> int \<Rightarrow> duration \<Rightarrow> Span" where
  "createStreamingSpan lib e x info streamCapped streamed ttft =
     (let (m, inputContent) = extractRequestInfo lib (ex_provider x) (ex_reqBody x);
          model = (if m = [] then spr_model info else m);
          (outputContent, reasoningContent) = reasoning_split model (spr_content info);
          ct = spr_cacheTokens info;
          inputTokens = NormalizeCachedInputWithTTL (se_calc e) (ex_provider x) model (spr_inputTokens info)
                          (ct_CacheReadTokens ct) (ct_CacheCreationTokens ct) (ex_extendedTTL x)
      in buildSpan e
           \<lparr>sp_provider = ex_provider x, sp_upstream = ex_upstream x, sp_model = model, sp_sessionID = ex_session x,
            sp_effectiveUserID = ex_user x, sp_tenantID = ex_tenant x, sp_jobID = ex_job x,
            sp_inputContent = inputContent, sp_outputContent = outputContent, sp_reasoningContent = reasoningContent,
            sp_inputTokens = inputTokens, sp_outputTokens = spr_outputTokens info, sp_cacheTokens = ct,
            sp_startTime = ex_start x, sp_endTime = ex_end x,
            sp_status = (if spr_statusOK info then SpanStatusOK else SpanStatusError), sp_ttfb = ex_ttfb x, sp_requestID = ex_requestID x,
            sp_extraAttrs = stream_attrs ttft streamCapped info streamed, sp_namePrefix = ex_provider x @ ''.chat.stream'',
            sp_traceCtx = ex_traceCtx x, sp_proxySpanID = ex_proxySpanID x\<rparr>)"

section \<open>Handlers\<close>

text \<open>
  The state the handlers change: billing, the two trackers of reservations, the slots for span goroutines with the
  number of spans dropped, and the spans started.
\<close>

record 'u proxy_state =
  ps_bill :: "'u billing_state"
  ps_pending :: pendingSpendTracker
  ps_taskPending :: pendingSpendTracker
  ps_spanSem :: nat
  ps_spanCap :: nat
  ps_droppedSpans :: i64
  ps_spans :: "Span list"

record 'u charge_env =
  cg_cancelled :: "nat \<Rightarrow> bool"
  cg_flt :: bool
  cg_now :: gotime
  cg_random_id :: "string option"
  cg_ded :: "'u deduct"
  cg_tsk :: "'u task_deduct"
  cg_limits :: "string \<Rightarrow> SpendLimitConfig list"
  cg_elapsed :: duration

text \<open>The charge of an exchange: a user of the billing store is charged and both reservations end; otherwise the daily tracker records the cost.\<close>

definition release_held :: "string \<Rightarrow> f64 \<Rightarrow> pendingSpendTracker \<Rightarrow> f64 \<times> pendingSpendTracker" where
  "release_held k amount t = (if 0 < amount then (0, pending_Release k amount t) else (amount, t))"

definition settle ::
    "'u charge_env \<Rightarrow> exchange \<Rightarrow> string \<Rightarrow> i64 \<Rightarrow> i64 \<Rightarrow> f64 \<Rightarrow> f64 \<Rightarrow> 'u proxy_state \<Rightarrow> (f64 \<times> f64) \<times> 'u proxy_state" where
  "settle g x model inputTokens outputTokens reserved taskRes s =
     (if b_users (ps_bill s) \<noteq> None \<and> ex_user x \<noteq> [] then
        let b = deductBudget (cg_cancelled g) (cg_flt g) (cg_now g) (cg_random_id g) (cg_ded g) (cg_tsk g) (cg_limits g (ex_user x))
                  (ex_provider x) model (ex_user x) (ex_job x) inputTokens outputTokens (cg_elapsed g) (ps_bill s);
            (r', pending) = release_held (ex_user x) reserved (ps_pending s);
            (t', taskPending) = release_held (ex_job x) taskRes (ps_taskPending s)
        in ((r', t'), s\<lparr>ps_bill := b, ps_pending := pending, ps_taskPending := taskPending\<rparr>)
      else case b_tracker (ps_bill s) of
             None \<Rightarrow> ((reserved, taskRes), s)
           | Some tracker \<Rightarrow>
               (case Calculate (cg_now g) (pricingProvider (ex_provider x)) model inputTokens outputTokens (b_calc (ps_bill s)) of
                  (cost, c') \<Rightarrow>
                    let u = limit_user (ex_user x)
                    in ((reserved, taskRes),
                        s\<lparr>ps_bill := (ps_bill s)\<lparr>b_calc := c', b_tracker := Some (Record (cg_now g) u model cost (cg_limits g u) tracker)\<rparr>\<rparr>)))"

definition start_span :: "bool \<Rightarrow> Span \<Rightarrow> 'u proxy_state \<Rightarrow> 'u proxy_state" where
  "start_span cbAllow sp s =
     (if \<not> cbAllow then s
      else if ps_spanSem s < ps_spanCap s then s\<lparr>ps_spanSem := ps_spanSem s + 1, ps_spans := ps_spans s @ [sp]\<rparr>
      else s\<lparr>ps_droppedSpans := wrap64 (ps_droppedSpans s + 1)\<rparr>)"

definition respLimit :: nat where
  "respLimit = 10 * 2 ^ 20"

text \<open>The translation of a whole answer: \<open>None\<close> is a provider without translator, the inner \<open>None\<close> its error.\<close>

type_synonym response_translator = "(string \<Rightarrow> string \<Rightarrow> string option) option"

definition client_answer :: "json_lib \<Rightarrow> response_translator \<Rightarrow> exchange \<Rightarrow> int \<Rightarrow> string \<Rightarrow> int \<times> string option" where
  "client_answer lib translator x status respBody =
     (case translator of
        Some tr \<Rightarrow>
          if status = 200
          then (case tr respBody (fst (extractRequestInfo lib (ex_provider x) (ex_reqBody x))) of
                  Some translated \<Rightarrow> (status, Some translated)
                | None \<Rightarrow> (502, None))
          else (status, Some respBody)
      | None \<Rightarrow> (status, Some respBody))"

definition handleStandardResponse ::
    "json_lib \<Rightarrow> response_translator \<Rightarrow> 'u charge_env \<Rightarrow> span_env \<Rightarrow> exchange \<Rightarrow> int \<Rightarrow> string option \<Rightarrow> f64 \<Rightarrow> f64
      \<Rightarrow> 'u proxy_state \<Rightarrow> (int \<times> string option) \<times> (f64 \<times> f64) \<times> 'u proxy_state" where
  "handleStandardResponse lib translator g e x status body reserved taskRes s =
     (case body of
        None \<Rightarrow> ((502, None), (reserved, taskRes), s)
      | Some respBody \<Rightarrow>
          if respLimit < length respBody then ((502, None), (reserved, taskRes), s)
          else case standard_usage lib (b_calc (ps_bill s)) x respBody of
                 (model, inputTokens, outputTokens) \<Rightarrow>
                   (case settle g x model inputTokens outputTokens reserved taskRes s of
                      (held, s') \<Rightarrow>
                        (client_answer lib translator x status respBody, held,
                         start_span (ex_cbAllow x) (createSpan lib e x status respBody) s')))"

text \<open>\<open>flusher\<close>: the response writer can stream.  The chunks are the reads of the body, \<open>completed\<close> whether it ended with EOF.\<close>

definition handleStreamingResponse ::
    "json_lib \<Rightarrow> chunk_translator option \<Rightarrow> 'u charge_env \<Rightarrow> span_env \<Rightarrow> exchange \<Rightarrow> bool \<Rightarrow> int \<Rightarrow> string list \<Rightarrow> bool \<Rightarrow> duration
      \<Rightarrow> f64 \<Rightarrow> f64 \<Rightarrow> 'u proxy_state \<Rightarrow> (int \<times> string option) \<times> (f64 \<times> f64) \<times> 'u proxy_state" where
  "handleStreamingResponse lib translator g e x flusher status chunks completed ttft reserved taskRes s =
     (if \<not> flusher then ((500, None), (reserved, taskRes), s)
      else let m = fst (extractRequestInfo lib (ex_provider x) (ex_reqBody x));
               streamModel = (if m = [] then extractModelFromURLPath (ex_path x) else m);
               st = stream_loop (ex_cbAllow x) translator chunks;
               info = extractStreamInfo lib (ex_provider x) streamModel (ex_reqBody x) (ss_head st) (rb_buf (ss_tail st)) (ss_capped st)
                        completed (ss_total st);
               model = (if spr_model info = [] then m else spr_model info);
               ct = spr_cacheTokens info;
               inputTokens = NormalizeCachedInputWithTTL (b_calc (ps_bill s)) (ex_provider x) model (spr_inputTokens info)
                               (ct_CacheReadTokens ct) (ct_CacheCreationTokens ct) (ex_extendedTTL x)
           in case settle g x model inputTokens (spr_outputTokens info) reserved taskRes s of
                (held, s') \<Rightarrow>
                  ((status, Some (ss_sent st)), held,
                   start_span (ex_cbAllow x) (createStreamingSpan lib e x info (ss_capped st) (ss_total st) ttft) s'))"

datatype upstream_body = Whole "string option" | Streamed "string list" bool

text \<open>
  The end of \<^verbatim>\<open>handleProxy\<close>: the reservations pass to the handler, and what it leaves of the task reservation is released by a
  deferred function; \<open>isStreaming\<close> is decided before.
\<close>

definition respond ::
    "json_lib \<Rightarrow> response_translator \<Rightarrow> chunk_translator option \<Rightarrow> 'u charge_env \<Rightarrow> span_env \<Rightarrow> exchange \<Rightarrow> bool \<Rightarrow> int \<Rightarrow> upstream_body \<Rightarrow> duration
      \<Rightarrow> f64 \<Rightarrow> f64 \<Rightarrow> 'u proxy_state \<Rightarrow> (int \<times> string option) \<times> 'u proxy_state" where
  "respond lib tr ctr g e x0 flusher status body ttft budgetReserved taskReserved s =
     (let x = (if isUtilityEndpoint (ex_path x0) then x0\<lparr>ex_cbAllow := False\<rparr> else x0);
          (ans, (reserved, taskRes), s1) =
            (case body of
               Streamed chunks completed \<Rightarrow>
                 if status = 200 then handleStreamingResponse lib ctr g e x flusher status chunks completed ttft budgetReserved taskReserved s
                 else handleStandardResponse lib tr g e x status (if completed then Some (concat chunks) else None) budgetReserved taskReserved s
             | Whole b \<Rightarrow> handleStandardResponse lib tr g e x status b budgetReserved taskReserved s)
      in (ans, if 0 < taskRes then s1\<lparr>ps_taskPending := pending_Release (ex_job x) taskRes (ps_taskPending s1)\<rparr> else s1))"

section \<open>What becomes of a reservation\<close>

lemma start_span_simps [simp]:
  "ps_bill (start_span a sp s) = ps_bill s" "ps_pending (start_span a sp s) = ps_pending s"
  "ps_taskPending (start_span a sp s) = ps_taskPending s"
  by (simp_all add: start_span_def)

lemma settle_user:
  assumes "b_users (ps_bill s) \<noteq> None" "ex_user x \<noteq> []" "settle g x model i out reserved taskRes s = (held, s')"
  shows "ps_bill s' = deductBudget (cg_cancelled g) (cg_flt g) (cg_now g) (cg_random_id g) (cg_ded g) (cg_tsk g) (cg_limits g (ex_user x))
           (ex_provider x) model (ex_user x) (ex_job x) i out (cg_elapsed g) (ps_bill s)"
    and "ps_pending s' = (if 0 < reserved then pending_Release (ex_user x) reserved (ps_pending s) else ps_pending s)"
    and "ps_taskPending s' = (if 0 < taskRes then pending_Release (ex_job x) taskRes (ps_taskPending s) else ps_taskPending s)"
    and "\<not> 0 < fst held" "\<not> 0 < snd held"
  using assms by (auto simp: settle_def release_held_def f64_less_irrefl split: if_splits prod.splits)

lemma utility_fields [simp]:
  "ex_user (if b then x\<lparr>ex_cbAllow := a\<rparr> else x) = ex_user x" "ex_job (if b then x\<lparr>ex_cbAllow := a\<rparr> else x) = ex_job x"
  "ex_provider (if b then x\<lparr>ex_cbAllow := a\<rparr> else x) = ex_provider x"
  by simp_all

lemma standard_usage_utility [simp]: "standard_usage lib c (if b then x\<lparr>ex_cbAllow := a\<rparr> else x) body = standard_usage lib c x body"
  by (simp add: standard_usage_def Let_def)

lemma respond_settles:
  assumes "b_users (ps_bill s) \<noteq> None" and "ex_user x \<noteq> []" and "length body \<le> respLimit"
    and "standard_usage lib (b_calc (ps_bill s)) x body = (model, i, out)"
    and "respond lib tr ctr g e x flusher status (Whole (Some body)) ttft reserved taskRes s = (ans, s')"
  shows "ps_bill s' = deductBudget (cg_cancelled g) (cg_flt g) (cg_now g) (cg_random_id g) (cg_ded g) (cg_tsk g) (cg_limits g (ex_user x))
           (ex_provider x) model (ex_user x) (ex_job x) i out (cg_elapsed g) (ps_bill s) \<and>
    ps_pending s' = (if 0 < reserved then pending_Release (ex_user x) reserved (ps_pending s) else ps_pending s) \<and>
    ps_taskPending s' = (if 0 < taskRes then pending_Release (ex_job x) taskRes (ps_taskPending s) else ps_taskPending s)"
proof -
  define y where "y = (if isUtilityEndpoint (ex_path x) then x\<lparr>ex_cbAllow := False\<rparr> else x)"
  have y: "ex_user y = ex_user x" "ex_job y = ex_job x" "ex_provider y = ex_provider x" "standard_usage lib c y body = standard_usage lib c x body" for c
    unfolding y_def by simp_all
  obtain held s1 where st: "settle g y model i out reserved taskRes s = (held, s1)" by fastforce
  note facts = settle_user [OF assms(1) _ st, unfolded y, OF assms(2)]
  have "s' = start_span (ex_cbAllow y) (createSpan lib e y status body) s1"
    using assms(3,4,5) st facts(5)
    unfolding respond_def Let_def y_def [symmetric] handleStandardResponse_def by (simp add: y split_beta split: if_splits)
  then show ?thesis using facts by simp
qed

section \<open>Properties\<close>


definition demo_exchange :: exchange where
  "demo_exchange = \<lparr>ex_provider = ''openai'', ex_upstream = ''https://api.openai.com'', ex_reqBody = ''A'', ex_path = ''/v1/chat/completions'', ex_user = ''u'',
     ex_session = [], ex_tenant = [], ex_job = [], ex_requestID = ''r'', ex_extendedTTL = False, ex_cbAllow = True, ex_start = 0, ex_end = 5, ex_ttfb = 1,
     ex_traceCtx = None, ex_proxySpanID = ''p''\<rparr>"

definition demo_span_env :: span_env where
  "demo_span_env = \<lparr>se_calc = NewEmpty, se_now = 0, se_text = \<lparr>ScrubContent = \<lambda>s. s, to_runes = map (\<lambda>c. [c])\<rparr>, se_maxContentLen = 1000,
     se_projectID = [], se_traceID = ''t''\<rparr>"

definition demo_charge :: "(string \<times> f64 \<times> i64) list charge_env" where
  "demo_charge = \<lparr>cg_cancelled = \<lambda>_. False, cg_flt = False, cg_now = 0, cg_random_id = None, cg_ded = \<lambda>i c n u. (True, (i, c, n) # u),
     cg_tsk = \<lambda>_ _ u. (True, u), cg_limits = \<lambda>_. [], cg_elapsed = 5\<rparr>"

definition demo_state :: "(string \<times> f64 \<times> i64) list proxy_state" where
  "demo_state = \<lparr>ps_bill = \<lparr>b_users = Some [], b_outbox = None, b_tracker = None, b_calc = NewEmpty, saSpendMicroUSD = 0\<rparr>,
     ps_pending = [(''u'', Fin 3)], ps_taskPending = [], ps_spanSem = 0, ps_spanCap = 4, ps_droppedSpans = 0, ps_spans = []\<rparr>"

lemma demo_usage: "standard_usage demo_lib NewEmpty demo_exchange ''B'' = ([], 7, 2)"
proof -
  have "getParser ''openai'' = openaiParser" "''openai'' \<notin> set google_like" "''openai'' \<notin> set anthropic_like" "''openai'' \<in> set openai_like" by code_simp+
  then show ?thesis
    by (simp add: standard_usage_def demo_exchange_def extractResponseInfo_def extractRequestInfo_def ParseResponse_def unmarshal_map_def demo_lib_def
        usage_tokens_def chat_request_def str_of_def toInt64_def trunc_rat_def extractModelFromResponse_def extractCacheTokens_def field_of_def
        no_cache_def NormalizeCachedInputWithTTL_def Let_def)
qed


text \<open>
  A reservation can leak.  When the body of the answer cannot be read, or is larger than 10 MB, the client gets 502,
  nothing is charged although the upstream answered, and the amount reserved for the caller stays reserved: only the
  reservation of the task is released.
\<close>

lemma unread_answer_leaks:
  assumes "body = None \<or> (\<exists>b. body = Some b \<and> respLimit < length b)"
    and "respond lib tr ctr g e x flusher status (Whole body) ttft reserved taskRes s = (ans, s')"
  shows "fst ans = 502 \<and> ps_bill s' = ps_bill s \<and> ps_pending s' = ps_pending s \<and>
    ps_taskPending s' = (if 0 < taskRes then pending_Release (ex_job x) taskRes (ps_taskPending s) else ps_taskPending s)"
proof -
  define y where "y = (if isUtilityEndpoint (ex_path x) then x\<lparr>ex_cbAllow := False\<rparr> else x)"
  have y: "ex_job y = ex_job x" unfolding y_def by simp
  have "handleStandardResponse lib tr g e y status body reserved taskRes s = ((502, None), (reserved, taskRes), s)"
    using assms(1) by (auto simp: handleStandardResponse_def)
  then show ?thesis using assms(2) unfolding respond_def Let_def y_def [symmetric] by (auto simp: y split: if_splits)
qed

section \<open>Spans and charges\<close>

text \<open>The span of a whole answer carries the model, the tokens and, at the same time and with the same prices, the cost that is charged.\<close>

lemma span_of_answer:
  assumes "standard_usage lib (se_calc e) x body = (model, i, out)"
    and "GenAI (createSpan lib e x status body) = Some ga"
  shows "g_Model ga = model" "InputTokens ga = i" "OutputTokens ga = out"
    "CostUSD ga = fst (request_cost (se_now e) (ex_provider x) model i out (time_sub (ex_end x) (ex_start x)) (se_calc e))"
  using assms by (auto simp: createSpan_def buildSpan_def Let_def split: prod.splits)

text \<open>
  A streamed answer is charged under the model the stream names, but its span is priced under the model of the request whenever
  the request names one.
\<close>

lemma stream_span_model:
  assumes "fst (extractRequestInfo lib (ex_provider x) (ex_reqBody x)) = m" "m \<noteq> []"
    and "GenAI (createStreamingSpan lib e x info capped streamed ttft) = Some ga"
  shows "g_Model ga = m"
  using assms by (auto simp: createStreamingSpan_def buildSpan_def Let_def split: prod.splits)

text \<open>
  Redaction sees only the first runes of a long content: up to 200 more than are kept.  A secret that begins within the
  part that is kept and ends behind that bound is not recognised as one, and its beginning is stored.
\<close>

lemma only_prefix_scrubbed:
  assumes "0 < maxLen" "nat maxLen + 200 < length (to_runes tx s)" "length s \<le> (nat maxLen + 200) * 4" "s \<noteq> []"
  shows "SanitizeSpanContent tx s maxLen = TruncateContent tx (ScrubContent tx (concat (take (nat maxLen + 200) (to_runes tx s)))) maxLen"
  using assms by (simp add: SanitizeSpanContent_def Let_def)

text \<open>A trace context that is accepted is canonical: lower-case hexadecimal of the right length.\<close>

lemma parseTraceparent_canonical:
  assumes "parseTraceparent h = Some c"
  shows "length (tc_traceID c) = 32" "length (tc_parentSpanID c) = 16" "is_hex (tc_traceID c)" "is_hex (tc_parentSpanID c)"
  using assms by (auto simp: parseTraceparent_def Let_def split: if_splits list.splits)

end
