(* ===== verification/EndToEnd.thy ===== *)
theory EndToEnd
  imports Ledger CostLaws Respond
begin

text \<open>
  From the answer of the upstream to the ledger: the handler of a whole answer over the SQLite user store.
\<close>

text \<open>The billing store of the proxy is the SQLite store.\<close>

definition sqlite_ded :: "(deduct_stmt \<Rightarrow> bool) \<Rightarrow> (gotime \<Rightarrow> int) \<Rightarrow> gotime \<Rightarrow> store deduct" where
  "sqlite_ded flt loc now i cost tokens st = (case DeductSpend flt loc now i cost tokens st of (Inr _, st') \<Rightarrow> (True, st') | (Inl _, st') \<Rightarrow> (False, st'))"

lemma charge_succeeds:
  assumes "ded i cost tokens u = (True, u')"
  shows "charge_request cancelled flt now random_id ded tsk i [] cost tokens (u, ob) = (u', ob)"
proof -
  have "deduct_attempts cancelled (\<lambda>k. ded i cost tokens) 0 u = DeductDone u'"
    using assms by (subst deduct_attempts.simps) (simp add: maxDeductAttempts_def)
  then show ?thesis by (simp add: charge_request_def)
qed

lemma deductBudget_charges:
  assumes "b_users b = Some u" "i \<noteq> []" "0 \<le> inp" "0 \<le> out" "fst (request_cost now provider model inp out d (b_calc b)) = Fin c" "0 < c"
    and "\<And>tokens. \<exists>u'. ded i (Fin c) tokens u = (True, u')"
  shows "b_users (deductBudget cancelled flt now random_id ded tsk limits provider model i [] inp out d b) =
    Some (snd (ded i (Fin c) (wrap64 (inp + out)) u))"
proof -
  obtain c' where rc: "request_cost now provider model inp out d (b_calc b) = (Fin c, c')" using assms(5) by (cases "request_cost now provider model inp out d (b_calc b)") auto
  obtain u' where u': "ded i (Fin c) (wrap64 (inp + out)) u = (True, u')" using assms(7) by blast
  have "max 0 inp = inp" "max 0 out = out" using assms(3,4) by simp_all
  then show ?thesis
    using assms(1,2,6) rc u' charge_succeeds [of ded i "Fin c" "wrap64 (inp + out)" u u']
    by (simp add: deductBudget_def Let_def zero_f64_def)
qed


definition billed_lib :: json_lib where
  "billed_lib = \<lparr>Unmarshal = \<lambda>t. if t = ''Q'' then Some (JObj [(''model'', JStr ''gpt-4.1'')])
       else Some (JObj [(''usage'', JObj [(''completion_tokens'', JNum (Fin 1500000))])]),
     Marshal = \<lambda>_. [], DecodeAll = \<lambda>_. []\<rparr>"

definition billed_exchange :: exchange where
  "billed_exchange = demo_exchange\<lparr>ex_reqBody := ''Q'', ex_end := 0\<rparr>"

definition billed_charge :: "store charge_env" where
  "billed_charge = \<lparr>cg_cancelled = \<lambda>_. False, cg_flt = False, cg_now = demo_now, cg_random_id = None, cg_ded = sqlite_ded (\<lambda>_. False) (\<lambda>_. 0) demo_now,
     cg_tsk = \<lambda>_ _ u. (True, u), cg_limits = \<lambda>_. [], cg_elapsed = 0\<rparr>"

definition billed_state :: "store proxy_state" where
  "billed_state = \<lparr>ps_bill = \<lparr>b_users = Some demo_store, b_outbox = None, b_tracker = None, b_calc = demo_calc, saSpendMicroUSD = 0\<rparr>,
     ps_pending = [(''u'', Fin 3)], ps_taskPending = [], ps_spanSem = 0, ps_spanCap = 4, ps_droppedSpans = 0, ps_spans = []\<rparr>"

lemma billed_usage: "standard_usage billed_lib demo_calc billed_exchange ''R'' = (''gpt-4.1'', 0, 1500000)"
proof -
  have "getParser ''openai'' = openaiParser" "''openai'' \<notin> set anthropic_like" "''openai'' \<in> set openai_like" by code_simp+
  then show ?thesis
    by (simp add: standard_usage_def billed_exchange_def demo_exchange_def extractResponseInfo_def extractRequestInfo_def ParseResponse_def
        unmarshal_map_def billed_lib_def usage_tokens_def chat_request_def str_of_def toInt64_def trunc_rat_def extractCacheTokens_def
        field_of_def no_cache_def NormalizeCachedInputWithTTL_def Let_def)
qed

lemma demo_calc_price: "resolve_price now demo_calc ''openai'' ''gpt-4.1'' = Some demo_price"
proof -
  have "ToLower ''openai'' = ''openai''" by code_simp
  then have "canonical_provider demo_calc ''openai'' = ''openai''"
    by (simp add: canonical_provider_def demo_calc_def SetPricing_def newBase_def providerAliases_def)
  then have "lookupCandidate demo_calc (canonical_provider demo_calc ''openai'') ''gpt-4.1'' = Some demo_price"
    by (simp add: lookupCandidate_def demo_calc_def SetPricing_def newBase_def demo_price_name Let_def)
  then show ?thesis by (simp add: resolve_lookup EffectiveRates_def IsExpired_def demo_price_def)
qed

lemma demo_calc_cost: "fst (request_cost now ''openai'' ''gpt-4.1'' 0 1500000 d demo_calc) = Fin 12"
proof -
  have l: "ToLower ''openai'' \<noteq> ''local''" by code_simp
  have g: "globalDiscount demo_calc = 0" by (simp add: demo_calc_def SetPricing_def newBase_def)
  have "mk 1500000 = Fin 1500000" "mk 12 = Fin 12" using mk_of_int [of 1500000] mk_of_int [of 12] by simp_all
  moreover have "mk (3 / 2) = Fin (3 / 2)" by (rule mk_on_grid) (simp_all add: on_grid_def)
  ultimately have "token_cost 0 demo_price 0 1500000 = Fin 12"
    by (simp add: token_cost_def input_cost_def output_rate_def apply_discount_def demo_price_def of_i64_def million_def f64_div_Fin zero_f64_def)
  then have "fst (Calculate now ''openai'' ''gpt-4.1'' 0 1500000 demo_calc) = Fin 12"
    using l by (simp add: Calculate_cost demo_calc_price g)
  then show ?thesis by (cases "Calculate now ''openai'' ''gpt-4.1'' 0 1500000 demo_calc") (simp add: request_cost_def pricingProvider_def feq_def zero_f64_def)
qed

lemma span_has_cost: "\<exists>ga. GenAI (createSpan lib e x status body) = Some ga"
  by (simp add: createSpan_def buildSpan_def Let_def split_beta)


end
