(* ===== verification/TimeText.thy ===== *)
theory TimeText
  imports GoTime "HOL-Library.Monad_Syntax"
begin

text \<open>
  Reading back the timestamps the stores write: \<^verbatim>\<open>time.Parse(time.RFC3339Nano, s)\<close> and the text of an
  instant in a zone other than UTC.

  A \<^verbatim>\<open>time.Time\<close> is here an instant with the offset of its location from UTC in seconds
  (\<open>ztime\<close>), because \<^verbatim>\<open>Format\<close> prints the wall clock of that location.  \<open>day_number\<close> is
  \<^verbatim>\<open>time.Date\<close> on a valid date; the section on the calendar shows that it inverts \<^const>\<open>civil\<close>.
  The last lemma is the round trip of the layout.
\<close>

section \<open>The calendar, both ways\<close>

definition leap :: "int \<Rightarrow> bool" where
  "leap y \<longleftrightarrow> y mod 4 = 0 \<and> (y mod 100 \<noteq> 0 \<or> y mod 400 = 0)"

definition daysIn :: "int \<Rightarrow> int \<Rightarrow> int" where
  "daysIn y m = (if m = 2 then if leap y then 29 else 28 else if m \<in> {4, 6, 9, 11} then 30 else 31)"

definition year_days :: "int \<Rightarrow> int" where
  "year_days yoe = 365 * yoe + yoe div 4 - yoe div 100"

definition day_number :: "int \<Rightarrow> int \<Rightarrow> int \<Rightarrow> int" where
  "day_number y m d =
     (let y' = (if m \<le> 2 then y - 1 else y); mp = (if m \<le> 2 then m + 9 else m - 3)
      in y' div 400 * 146097 + year_days (y' mod 400) + (153 * mp + 2) div 5 + d - 1 - 306)"

definition year_of_era :: "int \<Rightarrow> int" where
  "year_of_era doe = (doe - doe div 1460 + doe div 36524 - doe div 146096) div 365"

lemma div_step:
  fixes x b :: int
  assumes "1 < b"
  shows "(x + 1) div b = x div b + (if b dvd x + 1 then 1 else 0)"
proof (cases "b dvd x + 1")
  case True
  then obtain k where k: "x = b * k - 1" by (metis add_diff_cancel_right' dvdE)
  have "x = b * (k - 1) + (b - 1)" using k by (simp add: algebra_simps)
  then have "x div b = k - 1" using assms by (intro int_div_pos_eq [of _ _ _ "b - 1"]) simp_all
  then show ?thesis using True k assms by simp
next
  case False
  have "x mod b \<noteq> b - 1"
  proof
    assume "x mod b = b - 1"
    then have "x + 1 = b * (x div b + 1)" using mult_div_mod_eq [of b x] unfolding distrib_left by linarith
    then show False using False by simp
  qed
  then have "x mod b + 1 < b" using pos_mod_bound [of b x] assms by linarith
  then have "(x + 1) div b = x div b"
    using mult_div_mod_eq [of b x] pos_mod_sign [of b x] assms
    by (intro int_div_pos_eq [of _ _ _ "x mod b + 1"]) linarith+
  then show ?thesis using False by simp
qed

lemma div_step_le: "1 < (b :: int) \<Longrightarrow> (x + 1) div b \<le> x div b + 1"
  by (simp add: div_step)

lemma div_step_dvd:
  assumes "1 < (b :: int)" and "1 < k"
  shows "(x + 1) div (b * k) - x div (b * k) \<le> (x + 1) div b - x div b"
proof -
  have "1 < b * k" using assms by (simp add: less_1_mult)
  then show ?thesis using assms(1) dvd_mult_left [of b k "x + 1"] by (simp add: div_step)
qed

lemma year_of_era_step: "year_of_era x \<le> year_of_era (x + 1)"
  unfolding year_of_era_def
proof (rule zdiv_mono1)
  show "x - x div 1460 + x div 36524 - x div 146096 \<le> x + 1 - (x + 1) div 1460 + (x + 1) div 36524 - (x + 1) div 146096"
    using div_step_le [of 1460 x] div_step_dvd [of 36524 4 x] by simp
qed simp

lemma year_of_era_mono: "x \<le> y \<Longrightarrow> year_of_era x \<le> year_of_era y"
  by (induction y rule: int_ge_induct) (auto intro: order_trans year_of_era_step)

text \<open>The years of a 400-year era, checked one by one at their first and last days.\<close>

lemma year_ends:
  "list_all (\<lambda>y. year_of_era (year_days y) = y \<and> year_of_era (year_days (y + 1) - (if y = 399 then 0 else 1)) = y) [0..399]"
  by code_simp

lemma year_days_400: "year_days 0 = 0" "year_days 400 = 146096" "year_days (y + 1) = year_days y + 365 + (y + 1) div 4 - y div 4 - ((y + 1) div 100 - y div 100)"
  by (simp_all add: year_days_def)

text \<open>Day \<open>doe\<close> of an era lies in its year \<open>year_of_era doe\<close>.\<close>

lemma year_of_era_bounds:
  assumes "0 \<le> doe" and "doe < 146097"
  defines "y \<equiv> year_of_era doe"
  shows "0 \<le> y" and "y < 400" and "year_days y \<le> doe"
    and "doe < year_days (y + 1) + (if y = 399 then 1 else 0)"
proof -
  have ends: "year_of_era (year_days z) = z" "year_of_era (year_days (z + 1) - (if z = 399 then 0 else 1)) = z"
    if "0 \<le> z" "z < 400" for z
    using year_ends that unfolding list_all_iff by auto
  have "year_of_era 0 = 0" "year_of_era 146096 = 399" by (simp_all add: year_of_era_def)
  then show r: "0 \<le> y" "y < 400"
    using year_of_era_mono [of 0 doe] year_of_era_mono [of doe 146096] assms by (simp_all add: y_def)
  show "year_days y \<le> doe"
  proof (rule ccontr)
    assume lt: "\<not> year_days y \<le> doe"
    then have "y \<noteq> 0" using assms by (auto simp: year_days_def)
    then have "year_of_era (year_days (y - 1 + 1) - 1) = y - 1"
      using ends(2) [of "y - 1"] r by auto
    moreover have "year_of_era doe \<le> year_of_era (year_days (y - 1 + 1) - 1)"
      using lt by (intro year_of_era_mono) simp
    ultimately show False by (simp add: y_def)
  qed
  show "doe < year_days (y + 1) + (if y = 399 then 1 else 0)"
  proof (rule ccontr)
    assume le: "\<not> doe < year_days (y + 1) + (if y = 399 then 1 else 0)"
    show False
    proof (cases "y = 399")
      case True
      then show False using le assms by (simp add: year_days_def)
    next
      case False
      then have "year_of_era (year_days (y + 1)) = y + 1" using ends(1) [of "y + 1"] r by simp
      moreover have "year_of_era (year_days (y + 1)) \<le> year_of_era doe"
        using le False by (intro year_of_era_mono) simp
      ultimately show False by (simp add: y_def)
    qed
  qed
qed


lemma leap_step: "year_days (y + 1) - year_days y = 365 + (if (y + 1) mod 4 = 0 \<and> (y + 1) mod 100 \<noteq> 0 then 1 else 0)"
proof -
  have "4 dvd y + 1" if "100 dvd y + 1" using that by (rule dvd_trans [rotated]) simp
  then show ?thesis by (auto simp: year_days_def div_step mod_eq_0_iff_dvd)
qed

lemma month_bounds:
  fixes doy :: int
  assumes "0 \<le> doy" and "doy < 366"
  defines "mp \<equiv> (5 * doy + 2) div 153"
  defines "d \<equiv> doy - (153 * mp + 2) div 5 + 1"
  shows "0 \<le> mp" and "mp \<le> 11" and "1 \<le> d" and "d \<le> (if mp = 11 then doy - 336 else if mp \<in> {1, 3, 6, 8} then 30 else 31)"
proof -
  have m: "153 * mp \<le> 5 * doy + 2" "5 * doy + 2 < 153 * mp + 153" unfolding mp_def by linarith+
  show b: "0 \<le> mp" "mp \<le> 11" using m assms by linarith+
  show "1 \<le> d" unfolding d_def using m by linarith
  have "mp \<in> {0, 1, 2, 3, 4, 5, 6, 7, 8, 9, 10, 11}" unfolding insert_iff empty_iff using b by presburger
  then show "d \<le> (if mp = 11 then doy - 336 else if mp \<in> {1, 3, 6, 8} then 30 else 31)"
    using m unfolding d_def by (elim insertE emptyE) simp_all
qed


lemma civil_parts:
  fixes n :: int
  defines "era \<equiv> (n + 306) div 146097" and "doe \<equiv> (n + 306) mod 146097"
  defines "doy \<equiv> doe - year_days (year_of_era doe)"
  defines "mp \<equiv> (5 * doy + 2) div 153"
  defines "m \<equiv> if mp < 10 then mp + 3 else mp - 9"
  shows "civil n = (year_of_era doe + era * 400 + (if m \<le> 2 then 1 else 0), m, doy - (153 * mp + 2) div 5 + 1)"
  unfolding civil_def Let_def doe_def [symmetric] era_def [symmetric] year_of_era_def [symmetric] year_days_def [symmetric]
    doy_def [symmetric] mp_def [symmetric] m_def [symmetric] ..

lemma civil_valid:
  assumes "civil n = (y, m, d)"
  shows "day_number y m d = n" and "1 \<le> m" and "m \<le> 12" and "1 \<le> d" and "d \<le> daysIn y m"
proof -
  define era where "era = (n + 306) div 146097"
  define doe where "doe = (n + 306) mod 146097"
  define yoe where "yoe = year_of_era doe"
  define doy where "doy = doe - year_days yoe"
  define mp where "mp = (5 * doy + 2) div 153"
  have civ: "m = (if mp < 10 then mp + 3 else mp - 9)" "y = yoe + era * 400 + (if m \<le> 2 then 1 else 0)"
      "d = doy - (153 * mp + 2) div 5 + 1"
    using assms [unfolded civil_parts, folded era_def doe_def, folded yoe_def, folded doy_def, folded mp_def] by auto
  have doe: "0 \<le> doe" "doe < 146097" by (simp_all add: doe_def)
  have yb: "0 \<le> yoe" "yoe < 400" "year_days yoe \<le> doe" "doe < year_days (yoe + 1) + (if yoe = 399 then 1 else 0)"
    using year_of_era_bounds [OF doe] by (simp_all add: yoe_def)
  have len: "doy < 365 + (if leap (yoe + 1) then 1 else 0)" "0 \<le> doy"
    using yb leap_step [of yoe] unfolding doy_def leap_def by (auto split: if_splits)
  have "doy < 366" using len(1) by (simp split: if_splits)
  note mb = month_bounds [OF len(2) this, folded mp_def, folded civ(3)]
  have m: "1 \<le> m" "m \<le> 12" "(if m \<le> 2 then m + 9 else m - 3) = mp" "m \<le> 2 \<longleftrightarrow> 10 \<le> mp"
    using mb civ(1) by (auto split: if_splits)
  have y: "(if m \<le> 2 then y - 1 else y) = yoe + era * 400" using civ(2) by simp
  have "(yoe + era * 400) div 400 = era" "(yoe + era * 400) mod 400 = yoe" using yb by simp_all
  then have "day_number y m d = era * 146097 + year_days yoe + (153 * mp + 2) div 5 + d - 1 - 306"
    unfolding day_number_def Let_def y m(3) by simp
  also have "\<dots> = n"
    using civ(3) div_mult_mod_eq [of "n + 306" 146097] by (simp add: doy_def era_def doe_def)
  finally show "day_number y m d = n" .
  show "1 \<le> m" "m \<le> 12" "1 \<le> d" using m mb by simp_all
  show "d \<le> daysIn y m"
  proof (cases "mp = 11")
    case True
    have y': "y = yoe + 1 + era * 400" using civ True by simp
    have md: "(yoe + 1 + era * 400) mod k = (yoe + 1) mod k" if "k dvd 400" for k
    proof -
      obtain j where "400 = k * j" using \<open>k dvd 400\<close> by (rule dvdE)
      then have "yoe + 1 + era * 400 = yoe + 1 + k * (j * era)" by simp
      then show ?thesis by (simp only: mod_mult_self2)
    qed
    have "leap y = leap (yoe + 1)"
      unfolding leap_def y' using md [of 4] md [of 100] md [of 400] by (simp only: dvd_refl) simp
    then show ?thesis using mb(4) len civ(1) True by (simp add: daysIn_def split: if_splits)
  next
    case False
    have "mp \<in> {1, 3, 6, 8} \<longleftrightarrow> m \<in> {4, 6, 9, 11}" "m \<noteq> 2"
      using civ(1) mb(1,2) False by auto
    then show ?thesis using mb(4) False by (simp add: daysIn_def del: insert_iff)
  qed
qed


section \<open>The layout\<close>

type_synonym ztime = "gotime \<times> int"

abbreviation wall :: "ztime \<Rightarrow> gotime" where
  "wall z \<equiv> fst z + snd z * 1000000000"

text \<open>\<^verbatim>\<open>Z07:00\<close>: the offset is cut to minutes, and its sign is that of the minutes.\<close>

definition fmt_zone :: "int \<Rightarrow> string" where
  "fmt_zone off =
     (if off = 0 then ''Z''
      else let z = \<bar>off\<bar> div 60
           in (if off \<le> -60 then CHR ''-'' else CHR ''+'') # digits 2 (z div 60) @ '':'' @ digits 2 (z mod 60))"

definition FormatNano :: "ztime \<Rightarrow> string" where
  "FormatNano z = fmt_second (wall z) @ frac_nano (wall z) @ fmt_zone (snd z)"

definition getnum :: "nat \<Rightarrow> string \<Rightarrow> (int \<times> string) option" where
  "getnum k s = (if k \<le> length s \<and> list_all is_digit (take k s) then Some (decimal_value (take k s), drop k s) else None)"

fun skip_char :: "char \<Rightarrow> string \<Rightarrow> string option" where
  "skip_char c [] = None"
| "skip_char c (x # s) = (if x = c then Some s else None)"

text \<open>A fraction may follow the seconds; only its first nine digits count.\<close>

definition getfrac :: "string \<Rightarrow> int \<times> string" where
  "getfrac s =
     (case s of
        c # r \<Rightarrow> let ds = takeWhile is_digit r
                 in if c = CHR ''.'' \<and> ds \<noteq> [] then (decimal_value (take 9 (ds @ replicate 9 (CHR ''0''))), dropWhile is_digit r) else (0, s)
      | [] \<Rightarrow> (0, s))"

definition getzone :: "string \<Rightarrow> int option" where
  "getzone s =
     (if s = ''Z'' then Some 0
      else case s of
        [] \<Rightarrow> None
      | c # r \<Rightarrow>
          if c \<noteq> CHR ''+'' \<and> c \<noteq> CHR ''-'' then None
          else do {
            (h, r) \<leftarrow> getnum 2 r;
            r \<leftarrow> skip_char (CHR '':'') r;
            (m, r) \<leftarrow> getnum 2 r;
            if r = [] \<and> h \<le> 24 \<and> m \<le> 60 then Some ((if c = CHR ''-'' then -1 else 1) * (h * 60 + m) * 60) else None
          })"

definition ParseNano :: "string \<Rightarrow> ztime option" where
  "ParseNano s = do {
     (y, s) \<leftarrow> getnum 4 s;
     s \<leftarrow> skip_char (CHR ''-'') s;
     (m, s) \<leftarrow> getnum 2 s;
     s \<leftarrow> skip_char (CHR ''-'') s;
     (d, s) \<leftarrow> getnum 2 s;
     s \<leftarrow> skip_char (CHR ''T'') s;
     (hh, s) \<leftarrow> getnum 2 s;
     s \<leftarrow> skip_char (CHR '':'') s;
     (mm, s) \<leftarrow> getnum 2 s;
     s \<leftarrow> skip_char (CHR '':'') s;
     (ss, s) \<leftarrow> getnum 2 s;
     let (ns, s) = getfrac s;
     off \<leftarrow> getzone s;
     if 1 \<le> m \<and> m \<le> 12 \<and> 1 \<le> d \<and> d \<le> daysIn y m \<and> hh < 24 \<and> mm < 60 \<and> ss < 60
     then Some (day_number y m d * day_ns + (hh * 3600 + mm * 60 + ss - off) * 1000000000 + ns, off)
     else None
   }"

text \<open>The times the layout can carry: a wall clock in the years 0 to 9999 and an offset of whole minutes below a day.\<close>

definition printable :: "ztime \<Rightarrow> bool" where
  "printable z \<longleftrightarrow> (case civil (day_of (wall z)) of (y, _) \<Rightarrow> 0 \<le> y \<and> y < 10000) \<and> \<bar>snd z\<bar> < 86400 \<and> snd z mod 60 = 0"


lemma decimal_value_snoc: "decimal_value (s @ [c]) = 10 * decimal_value s + digit_value c"
  by (simp add: decimal_value_def)

lemma digits_read:
  assumes "0 \<le> n" and "n < 10 ^ k"
  shows "list_all is_digit (digits k n)" and "decimal_value (digits k n) = n"
proof -
  have "list_all is_digit (digits k n) \<and> decimal_value (digits k n) = n" using assms
  proof (induction k arbitrary: n)
    case (Suc k)
    have "n mod 10 \<in> {0..9}" by simp
    then have c: "digit_value (char_of (nat (48 + n mod 10))) = n mod 10" "is_digit (char_of (nat (48 + n mod 10)))"
      by (simp_all add: digit_value_def is_digit_def nat_le_iff le_nat_iff)
    moreover have "n div 10 < 10 ^ k" using Suc.prems by simp
    ultimately show ?case using Suc.IH [of "n div 10"] Suc.prems by (simp add: decimal_value_snoc)
  qed (simp add: decimal_value_def)
  then show "list_all is_digit (digits k n)" "decimal_value (digits k n) = n" by simp_all
qed

lemma getnum_digits [simp]: "0 \<le> n \<Longrightarrow> n < 10 ^ k \<Longrightarrow> getnum k (digits k n @ r) = Some (n, r)"
  by (simp add: getnum_def digits_read)

lemma fmt_zone_head: "\<exists>c r. fmt_zone off = c # r \<and> \<not> is_digit c \<and> c \<noteq> CHR ''.''"
  by (auto simp: fmt_zone_def Let_def is_digit_def)

lemma getzone_fmt:
  assumes "\<bar>off\<bar> < 86400" and "off mod 60 = 0"
  shows "getzone (fmt_zone off) = Some off"
proof (cases "off = 0")
  case False
  define z where "z = \<bar>off\<bar> div 60"
  have z: "0 \<le> z" "z < 1440" "\<bar>off\<bar> = 60 * z" using assms by (auto simp: z_def abs_if mod_eq_0_iff_dvd)
  have "getnum 2 (digits 2 (z mod 60)) = Some (z mod 60, [])" using getnum_digits [of "z mod 60" 2 "[]"] by simp
  moreover have "z div 60 \<le> 24" "z mod 60 \<le> 60" using z pos_mod_bound [of 60 z] by linarith+
  ultimately have "getzone (fmt_zone off) = Some ((if off \<le> -60 then -1 else 1) * (z div 60 * 60 + z mod 60) * 60)"
    using False z by (simp add: getzone_def fmt_zone_def Let_def z_def [symmetric] del: digits.simps)
  moreover have "off \<le> -60 \<longleftrightarrow> off < 0" using assms(2) by (auto simp: mod_eq_0_iff_dvd elim!: dvdE)
  ultimately show ?thesis using z False by (simp add: div_mult_mod_eq split: if_splits)
qed (simp add: fmt_zone_def getzone_def)

lemma strip_zeros:
  defines "strip \<equiv> \<lambda>s. rev (dropWhile (\<lambda>c. c = CHR ''0'') (rev s))"
  shows "\<exists>n. s = strip s @ replicate n (CHR ''0'')"
proof -
  let ?z = "takeWhile (\<lambda>c. c = CHR ''0'') (rev s)"
  have "replicate (length ?z) (CHR ''0'') = ?z"
    by (rule replicate_length_same) (auto dest: set_takeWhileD)
  moreover have "s = strip s @ rev ?z"
    unfolding strip_def by (simp flip: rev_append)
  ultimately have "s = strip s @ replicate (length ?z) (CHR ''0'')"
    by (metis rev_replicate)
  then show ?thesis ..
qed

lemma getfrac_frac:
  assumes "\<not> is_digit c" and "c \<noteq> CHR ''.''"
  shows "getfrac (frac_nano t @ c # r) = (t mod 1000000000, c # r)"
proof -
  define fs where "fs = rev (dropWhile (\<lambda>c. c = CHR ''0'') (rev (digits 9 (t mod 1000000000))))"
  obtain n where n: "digits 9 (t mod 1000000000) = fs @ replicate n (CHR ''0'')"
    using strip_zeros unfolding fs_def by blast
  have rd: "list_all is_digit (digits 9 (t mod 1000000000))" "decimal_value (digits 9 (t mod 1000000000)) = t mod 1000000000"
    by (rule digits_read; simp)+
  have len: "length fs + n = 9" using arg_cong [OF n, of length] by simp
  show ?thesis
  proof (cases "fs = []")
    case True
    then have "digits 9 (t mod 1000000000) = digits 9 0" using n len by (simp add: digits_0)
    then have "t mod 1000000000 = 0" by (subst (asm) digits_eq_iff) simp_all
    then show ?thesis using assms by (simp add: frac_nano_0 getfrac_def Let_def)
  next
    case False
    have ds: "list_all is_digit fs" using rd(1) by (simp add: n)
    then have "takeWhile is_digit (fs @ c # r) = fs" "dropWhile is_digit (fs @ c # r) = c # r"
      using assms(1) by (auto simp: list_all_iff takeWhile_append dropWhile_append)
    moreover have "take 9 (fs @ replicate 9 (CHR ''0'')) = fs @ replicate n (CHR ''0'')"
      using len by (simp add: take_replicate)
    moreover have "frac_nano t = CHR ''.'' # fs"
      using False by (simp add: frac_nano_def fs_def Let_def)
    ultimately show ?thesis using False rd(2) by (simp add: getfrac_def Let_def n)
  qed
qed

lemma clock_parts:
  fixes w :: int
  defines "s \<equiv> (w mod day_ns) div 1000000000"
  shows "0 \<le> s" and "s < 86400"
    and "w = day_of w * day_ns + (s div 3600 * 3600 + s div 60 mod 60 * 60 + s mod 60) * 1000000000 + w mod 1000000000"
proof -
  show "0 \<le> s" "s < 86400" by (simp_all add: s_def day_ns_def)
  have "s div 3600 * 3600 + s div 60 mod 60 * 60 + s mod 60 = s"
    using div_mult_mod_eq [of s 60] div_mult_mod_eq [of "s div 60" 60] unfolding div_3600 by linarith
  then show "w = day_of w * day_ns + (s div 3600 * 3600 + s div 60 mod 60 * 60 + s mod 60) * 1000000000 + w mod 1000000000"
    using ns_parts [of w] by (simp add: s_def)
qed

text \<open>What is printed is read back: instant and offset.\<close>

lemma ParseNano_FormatNano:
  assumes "printable z"
  shows "ParseNano (FormatNano z) = Some z"
proof -
  obtain t off where z: "z = (t, off)" by (cases z)
  define w where "w = wall z"
  define s where "s = (w mod day_ns) div 1000000000"
  obtain y m d where c: "civil (day_of w) = (y, m, d)" by (metis surj_pair)
  note v = civil_valid [OF c]
  have p: "0 \<le> y" "y < 10000" "\<bar>off\<bar> < 86400" "off mod 60 = 0"
    using assms c by (simp_all add: printable_def w_def z)
  have "d \<le> 31" using v(5) by (simp add: daysIn_def split: if_splits)
  note sp = clock_parts [of w, folded s_def]
  define h where "h = s div 3600"
  define mi where "mi = s div 60 mod 60"
  define sec where "sec = s mod 60"
  have sb: "0 \<le> h" "h < 24" "0 \<le> mi" "mi < 60" "0 \<le> sec" "sec < 60"
    using sp(1,2) by (simp_all add: h_def mi_def sec_def)
  obtain c0 r where zone: "fmt_zone off = c0 # r" "\<not> is_digit c0" "c0 \<noteq> CHR ''.''" using fmt_zone_head by blast
  have printed: "FormatNano z = digits 4 y @ CHR ''-'' # digits 2 m @ CHR ''-'' # digits 2 d @ CHR ''T'' # digits 2 h @ CHR '':'' #
      digits 2 mi @ CHR '':'' # digits 2 sec @ frac_nano w @ c0 # r"
    unfolding FormatNano_def w_def [symmetric] using zone(1)
    by (simp add: fmt_second_def fmt_minute_def fmt_day_def c s_def h_def mi_def sec_def Let_def z)
  have two: "getnum 2 (digits 2 x @ q) = Some (x, q)" if "0 \<le> x" "x < 60" for x q
    by (rule getnum_digits) (use that in simp_all)
  have four: "getnum 4 (digits 4 y @ q) = Some (y, q)" for q
    by (rule getnum_digits) (use p in simp_all)
  have "m < 60" "0 \<le> m" "d < 60" "0 \<le> d" using v \<open>d \<le> 31\<close> by linarith+
  note nums = four two [OF this(2,1)] two [OF this(4,3)] two [OF sb(3,4)] two [OF sb(5,6)]
  have "h < 60" using sb by linarith
  note nums = nums two [OF sb(1) this]
  have ok: "(1 \<le> m \<and> m \<le> 12 \<and> 1 \<le> d \<and> d \<le> daysIn y m \<and> h < 24 \<and> mi < 60 \<and> sec < 60) = True"
    using v sb by blast
  have "ParseNano (FormatNano z) =
      Some (day_number y m d * day_ns + (h * 3600 + mi * 60 + sec - off) * 1000000000 + w mod 1000000000, off)"
    unfolding printed ParseNano_def
    by (simp only: nums bind.bind_lunit prod.case skip_char.simps if_True simp_thms Let_def getfrac_frac [OF zone(2,3)] getzone_fmt [OF p(3,4), unfolded zone(1)] ok)
  also have "\<dots> = Some z"
    using sp(3) v(1) by (simp add: w_def z left_diff_distrib h_def mi_def sec_def)
  finally show ?thesis .
qed

end
