(* ===== verification/SqlQuery.thy ===== *)
theory SqlQuery
  imports Float64 TimeText "HOL-Library.Product_Lexorder"
begin

text \<open>
  What the queries of the embedded span stores use of SQL, and the page tokens of \<^verbatim>\<open>pkg/storage/store.go\<close>.

  \<open>like\<close> is \<^verbatim>\<open>LIKE ... ESCAPE '\'\<close> with the ASCII case folding of SQLite; \<open>group_by\<close> is \<^verbatim>\<open>GROUP BY\<close>;
  \<open>sum_int\<close> fails where the integer sum of the database overflows.  The sum of a floating-point column and
  the mean of an integer column, whose order of evaluation belongs to the database, are arguments.

  The locale \<open>keyset\<close> is the contract of a list that is read page by page through a cursor: a page holds the
  rows below the cursor in descending order, and the next cursor is the key of its last row.  It is proved there
  that the pages are finitely many and that together they are the whole list, each row once.
\<close>

section \<open>Pattern matching\<close>

fun like :: "string \<Rightarrow> string \<Rightarrow> bool" where
  "like [] t = (t = [])"
| "like (c # p) t =
     (if c = CHR ''%'' then like p t \<or> (case t of [] \<Rightarrow> False | x # u \<Rightarrow> like (c # p) u)
      else if c = CHR ''_'' then (case t of [] \<Rightarrow> False | x # u \<Rightarrow> like p u)
      else if c = CHR 0x5C then
        (case p of [] \<Rightarrow> False | e # q \<Rightarrow> (case t of [] \<Rightarrow> False | x # u \<Rightarrow> lower_char e = lower_char x \<and> like q u))
      else (case t of [] \<Rightarrow> False | x # u \<Rightarrow> lower_char c = lower_char x \<and> like p u))"

text \<open>\<^verbatim>\<open>strings.ReplaceAll\<close> of one byte.\<close>

definition replace_char :: "char \<Rightarrow> string \<Rightarrow> string \<Rightarrow> string" where
  "replace_char c r s = concat (map (\<lambda>x. if x = c then r else [x]) s)"

definition EscapeLike :: "string \<Rightarrow> string" where
  "EscapeLike s =
     replace_char (CHR ''_'') [CHR 0x5C, CHR ''_''] (replace_char (CHR ''%'') [CHR 0x5C, CHR ''%'']
       (replace_char (CHR 0x5C) [CHR 0x5C, CHR 0x5C] s))"

definition escape_char :: "char \<Rightarrow> string" where
  "escape_char x = (if x \<in> {CHR 0x5C, CHR ''%'', CHR ''_''} then [CHR 0x5C, x] else [x])"

lemma EscapeLike_eq: "EscapeLike s = concat (map escape_char s)"
  by (induction s) (simp_all add: EscapeLike_def replace_char_def escape_char_def)

lemma like_escaped_char: "like (escape_char x @ p) t \<longleftrightarrow> (\<exists>y u. t = y # u \<and> lower_char y = lower_char x \<and> like p u)"
  by (auto simp: escape_char_def split: list.splits)

lemma like_escaped: "like (EscapeLike s @ p) t \<longleftrightarrow> (\<exists>a b. t = a @ b \<and> ToLower a = ToLower s \<and> like p b)"
proof (induction s arbitrary: t)
  case (Cons x s)
  have "like (EscapeLike (x # s) @ p) t \<longleftrightarrow>
      (\<exists>y u. t = y # u \<and> lower_char y = lower_char x \<and> (\<exists>a b. u = a @ b \<and> ToLower a = ToLower s \<and> like p b))"
    by (simp add: EscapeLike_eq like_escaped_char Cons.IH [unfolded EscapeLike_eq])
  also have "\<dots> \<longleftrightarrow> (\<exists>a b. t = a @ b \<and> ToLower a = ToLower (x # s) \<and> like p b)"
  proof
    assume "\<exists>a b. t = a @ b \<and> ToLower a = ToLower (x # s) \<and> like p b"
    then obtain a b where "t = a @ b" "ToLower a = ToLower (x # s)" "like p b" by blast
    then show "\<exists>y u. t = y # u \<and> lower_char y = lower_char x \<and> (\<exists>a b. u = a @ b \<and> ToLower a = ToLower s \<and> like p b)"
      by (cases a) (auto simp: ToLower_def)
  qed (force simp: ToLower_def intro: exI [of _ "_ # _"])
  finally show ?case .
qed (simp add: EscapeLike_eq)

lemma like_percent: "like (CHR ''%'' # p) t \<longleftrightarrow> (\<exists>a b. t = a @ b \<and> like p b)"
proof (induction t)
  case (Cons x t)
  have "like (CHR ''%'' # p) (x # t) \<longleftrightarrow> like p (x # t) \<or> (\<exists>a b. t = a @ b \<and> like p b)"
    using Cons by simp
  also have "\<dots> \<longleftrightarrow> (\<exists>a b. x # t = a @ b \<and> like p b)"
    by (auto simp: Cons_eq_append_conv)
  finally show ?case .
qed simp

declare like.simps(2) [simp del]

text \<open>
  A search text is found literally, letter case aside: none of its characters acts as a wildcard.
\<close>

lemma like_search: "like (CHR ''%'' # EscapeLike s @ ''%'') t \<longleftrightarrow> Contains (ToLower t) (ToLower s)"
proof -
  have "like ''%'' b" for b by (simp add: like_percent)
  then have "like (CHR ''%'' # EscapeLike s @ ''%'') t \<longleftrightarrow> (\<exists>a b c. t = a @ b @ c \<and> ToLower b = ToLower s)"
    by (auto simp: like_percent like_escaped)
  also have "\<dots> \<longleftrightarrow> Contains (ToLower t) (ToLower s)"
  proof
    assume "Contains (ToLower t) (ToLower s)"
    then obtain u v where uv: "ToLower t = u @ ToLower s @ v" by (auto simp: Contains_iff)
    define b where "b = take (length s) (drop (length u) t)"
    have "ToLower b = ToLower s"
      using arg_cong [OF uv, of "\<lambda>x. take (length s) (drop (length u) x)"] by (simp add: b_def ToLower_def take_map drop_map)
    moreover have "t = take (length u) t @ b @ drop (length s) (drop (length u) t)" by (simp only: b_def append_take_drop_id)
    ultimately show "\<exists>a b c. t = a @ b @ c \<and> ToLower b = ToLower s" by blast
  qed (force simp: Contains_iff)
  finally show ?thesis .
qed

section \<open>Aggregates\<close>

definition group_by :: "('r \<Rightarrow> 'k) \<Rightarrow> 'r list \<Rightarrow> ('k \<times> 'r list) list" where
  "group_by key rows = map (\<lambda>k. (k, filter (\<lambda>r. key r = k) rows)) (remdups (map key rows))"

text \<open>The integer sum of SQLite fails when a partial sum leaves 64 bits; the sum of no row is NULL.\<close>

fun sum_from :: "i64 \<Rightarrow> i64 list \<Rightarrow> i64 option" where
  "sum_from acc [] = Some acc"
| "sum_from acc (x # xs) = (if in_i64 (acc + x) then sum_from (acc + x) xs else None)"

definition sum_int :: "i64 list \<Rightarrow> i64 option" where
  "sum_int xs = sum_from 0 xs"

definition count_distinct :: "'a list \<Rightarrow> i64" where
  "count_distinct xs = int (length (remdups xs))"

definition sql_limit :: "int \<Rightarrow> 'a list \<Rightarrow> 'a list" where
  "sql_limit n xs = (if n < 0 then xs else take (nat n) xs)"

lemma sum_from_Some: "sum_from acc xs = Some v \<Longrightarrow> v = acc + sum_list xs"
  by (induction xs arbitrary: acc) (fastforce simp: add.assoc split: if_splits)+

lemma sum_int_Some: "sum_int xs = Some v \<Longrightarrow> v = sum_list xs"
  using sum_from_Some [of 0 xs v] by (simp add: sum_int_def)

lemma sum_from_nonneg:
  assumes "list_all (\<lambda>x. 0 \<le> x) xs" and "0 \<le> acc" and "in_i64 (acc + sum_list xs)"
  shows "sum_from acc xs = Some (acc + sum_list xs)"
  using assms
proof (induction xs arbitrary: acc)
  case (Cons x xs)
  have "0 \<le> sum_list xs" using Cons.prems by (intro sum_list_nonneg) (auto simp: list_all_iff)
  then have "in_i64 (acc + x)" using Cons.prems by (simp add: in_i64_def)
  moreover have "sum_from (acc + x) xs = Some (acc + x + sum_list xs)"
    using Cons.prems by (intro Cons.IH) (simp_all add: add.assoc)
  ultimately show ?case by (simp add: add.assoc)
qed simp

lemma sum_int_nonneg: "list_all (\<lambda>x. 0 \<le> x) xs \<Longrightarrow> in_i64 (sum_list xs) \<Longrightarrow> sum_int xs = Some (sum_list xs)"
  using sum_from_nonneg [of xs 0] by (simp add: sum_int_def)

text \<open>Grouping loses and repeats no row.\<close>

lemma group_by_sum:
  fixes f :: "'r \<Rightarrow> 'a :: comm_monoid_add"
  shows "(\<Sum>g \<leftarrow> group_by key rows. \<Sum>r \<leftarrow> snd g. f r) = (\<Sum>r \<leftarrow> rows. f r)"
proof -
  have part: "(\<Sum>k \<in> set ks. \<Sum>r \<leftarrow> filter (\<lambda>r. key r = k) rows. f r) = (\<Sum>r \<leftarrow> rows. f r)"
    if "key ` set rows \<subseteq> set ks" for ks using that
  proof (induction rows)
    case (Cons r rows)
    have "(\<Sum>k \<in> set ks. \<Sum>r \<leftarrow> filter (\<lambda>r. key r = k) (r # rows). f r) =
        (\<Sum>k \<in> set ks. (if k = key r then f r else 0) + (\<Sum>r \<leftarrow> filter (\<lambda>r. key r = k) rows. f r))"
      by (intro sum.cong) auto
    also have "\<dots> = f r + (\<Sum>r \<leftarrow> rows. f r)"
      using Cons by (simp add: sum.distrib sum.delta)
    finally show ?case by simp
  qed simp
  have "(\<Sum>g \<leftarrow> group_by key rows. \<Sum>r \<leftarrow> snd g. f r) =
      (\<Sum>k \<leftarrow> remdups (map key rows). \<Sum>r \<leftarrow> filter (\<lambda>r. key r = k) rows. f r)"
    by (simp add: group_by_def comp_def)
  also have "\<dots> = (\<Sum>k \<in> set (map key rows). \<Sum>r \<leftarrow> filter (\<lambda>r. key r = k) rows. f r)"
    by (simp add: sum_list_distinct_conv_sum_set)
  also have "\<dots> = (\<Sum>r \<leftarrow> rows. f r)" by (rule part) simp
  finally show ?thesis .
qed


section \<open>Pages\<close>

text \<open>A page of at most \<open>n\<close> rows in descending order and, when rows are left, the token of its last row.\<close>

definition descending :: "('r \<Rightarrow> 'k :: linorder) \<Rightarrow> 'r list \<Rightarrow> 'r list" where
  "descending key xs = rev (sort_key key xs)"

definition keyset_page :: "('r \<Rightarrow> 'k :: linorder) \<Rightarrow> ('r \<Rightarrow> 'c) \<Rightarrow> nat \<Rightarrow> 'r list \<Rightarrow> 'r list \<times> 'c option" where
  "keyset_page key tok n xs =
     (let ys = descending key xs
      in if length ys \<le> n then (ys, None) else (take n ys, Some (tok (ys ! (n - 1)))))"

text \<open>A client that follows the tokens from \<open>c\<close> until there is none, and what it has read.\<close>

inductive pages :: "('c \<Rightarrow> 'r list \<times> 'c option) \<Rightarrow> 'c \<Rightarrow> 'r list \<Rightarrow> bool" for fetch where
  pages_last: "fetch c = (p, None) \<Longrightarrow> pages fetch c p"
| pages_more: "fetch c = (p, Some d) \<Longrightarrow> pages fetch d rest \<Longrightarrow> pages fetch c (p @ rest)"

lemma pages_unique: "pages fetch c xs \<Longrightarrow> pages fetch c ys \<Longrightarrow> xs = ys"
proof (induction arbitrary: ys rule: pages.induct)
  case (pages_last c p)
  from pages_last(2) show ?case by cases (use pages_last(1) in simp_all)
next
  case (pages_more c p d rest)
  from pages_more.prems show ?case
  proof cases
    case (pages_more p' d' rest')
    then show ?thesis using \<open>fetch c = (p, Some d)\<close> \<open>\<And>ys. pages fetch d ys \<Longrightarrow> rest = ys\<close> by simp
  qed (use pages_more(1) in simp)
qed

lemma set_descending [simp]: "set (descending key xs) = set xs"
  by (simp add: descending_def)

lemma length_descending [simp]: "length (descending key xs) = length xs"
  by (simp add: descending_def)

lemma descending_filter: "descending key (filter P xs) = filter P (descending key xs)"
  by (simp add: descending_def rev_filter flip: filter_sort)

lemma descending_strict:
  assumes "distinct (map key xs)"
  shows "sorted_wrt (\<lambda>x y. key y < key x) (descending key xs)"
proof -
  have "distinct (map key (sort_key key xs))"
    using assms by (metis distinct_map distinct_sort set_sort)
  then have "sorted_wrt (<) (map key (sort_key key xs))" by (simp add: strict_sorted_iff)
  then show ?thesis by (simp add: descending_def sorted_wrt_rev sorted_wrt_map)
qed

text \<open>Below the last row of a page there are exactly the rows after it.\<close>

lemma filter_below:
  assumes "sorted_wrt (\<lambda>x y. key y < (key x :: 'k :: linorder)) ys" and "0 < n" and "n \<le> length ys"
  shows "filter (\<lambda>x. key x < key (ys ! (n - 1))) ys = drop n ys"
proof -
  have order: "key (ys ! j) < key (ys ! i)" if "i < j" "j < length ys" for i j
    using sorted_wrt_nth_less [OF assms(1) that] .
  let ?below = "\<lambda>x. key x < key (ys ! (n - 1))"
  have "filter ?below (take n ys) = []"
  proof (rule filter_False, rule ballI)
    fix x assume "x \<in> set (take n ys)"
    then obtain i where i: "i < n" "x = ys ! i" using assms(3) by (auto simp: set_conv_nth)
    show "\<not> ?below x"
    proof (cases "i = n - 1")
      case False
      then have "key (ys ! (n - 1)) < key (ys ! i)" using i(1) assms(2,3) by (intro order) linarith+
      then show ?thesis unfolding i(2) by (rule less_not_sym)
    qed (simp add: i(2))
  qed
  moreover have "filter ?below (drop n ys) = drop n ys"
  proof (rule filter_True, rule ballI)
    fix x assume "x \<in> set (drop n ys)"
    then obtain i where "i < length (drop n ys)" "x = drop n ys ! i" by (metis in_set_conv_nth)
    then have i: "n + i < length ys" "x = ys ! (n + i)" by simp_all
    show "?below x" unfolding i(2) using i(1) assms(2) by (intro order) linarith+
  qed
  ultimately have "filter ?below (take n ys @ drop n ys) = drop n ys"
    by (simp only: filter_append append_Nil)
  then show ?thesis by simp
qed

locale keyset =
  fixes ok :: "'q \<Rightarrow> bool" and rows :: "'q \<Rightarrow> 'r list" and key :: "'r \<Rightarrow> 'k :: linorder" and size :: "'q \<Rightarrow> nat"
    and view :: "'q \<Rightarrow> 'r \<Rightarrow> 'v" and fetch :: "'q \<Rightarrow> 'c \<Rightarrow> 'v list \<times> 'c option" and start :: 'c and tok :: "'q \<Rightarrow> 'r \<Rightarrow> 'c"
  assumes distinct_keys: "ok q \<Longrightarrow> distinct (map key (rows q))"
    and size_pos: "ok q \<Longrightarrow> 0 < size q"
    and fetch_start: "ok q \<Longrightarrow> fetch q start = map_prod (map (view q)) id (keyset_page key (tok q) (size q) (rows q))"
    and fetch_next: "ok q \<Longrightarrow> r \<in> set (rows q) \<Longrightarrow>
      fetch q (tok q r) = map_prod (map (view q)) id (keyset_page key (tok q) (size q) (filter (\<lambda>x. key x < key r) (rows q)))"
begin

lemma pages_from:
  assumes "ok q" and "fetch q c = map_prod (map (view q)) id (keyset_page key (tok q) (size q) (filter P (rows q)))"
    and "\<And>x y. P y \<Longrightarrow> key x < key y \<Longrightarrow> P x"
  shows "pages (fetch q) c (map (view q) (descending key (filter P (rows q))))"
  using assms
proof (induction "length (filter P (rows q))" arbitrary: P c rule: less_induct)
  case less
  let ?xs = "filter P (rows q)" and ?n = "size q"
  let ?ys = "descending key ?xs"
  show ?case
  proof (cases "length ?xs \<le> ?n")
    case True
    then have "fetch q c = (map (view q) ?ys, None)" using less.prems by (simp add: keyset_page_def)
    then show ?thesis by (rule pages_last)
  next
    case False
    define y where "y = ?ys ! (?n - 1)"
    have n: "0 < ?n" "?n < length ?ys" using False size_pos [OF less.prems(1)] by simp_all
    have "y \<in> set ?ys" unfolding y_def by (rule nth_mem) (use n in linarith)
    then have y: "y \<in> set (rows q)" "P y" by simp_all
    have step: "fetch q c = (map (view q) (take ?n ?ys), Some (tok q y))"
      using less.prems(2) False by (simp add: keyset_page_def y_def Let_def)
    have "distinct (map key ?xs)" using distinct_keys [OF less.prems(1)] by (simp add: distinct_map_filter)
    then have below: "filter (\<lambda>x. key x < key y) ?ys = drop ?n ?ys"
      unfolding y_def using n by (intro filter_below descending_strict) simp_all
    have P: "filter (\<lambda>x. key x < key y) ?xs = filter (\<lambda>x. key x < key y) (rows q)"
      unfolding filter_filter by (rule filter_cong [OF refl]) (use less.prems(3) [OF y(2)] in blast)
    have rest: "descending key (filter (\<lambda>x. key x < key y) (rows q)) = drop ?n ?ys"
      by (simp only: P [symmetric] descending_filter [of key _ ?xs] below)
    have "length (filter (\<lambda>x. key x < key y) (rows q)) < length ?xs"
      using arg_cong [OF rest, of length] n by simp
    moreover have "fetch q (tok q y) =
        map_prod (map (view q)) id (keyset_page key (tok q) ?n (filter (\<lambda>x. key x < key y) (rows q)))"
      using less.prems(1) y(1) by (rule fetch_next)
    ultimately have "pages (fetch q) (tok q y) (map (view q) (descending key (filter (\<lambda>x. key x < key y) (rows q))))"
      using less.prems(1) less_trans by (intro less.hyps) blast+
    then have "pages (fetch q) c (map (view q) (take ?n ?ys) @ map (view q) (drop ?n ?ys))"
      unfolding rest by (rule pages_more [of "fetch q", OF step])
    then show ?thesis by (simp flip: map_append)
  qed
qed

text \<open>Reading all pages ends, and shows all rows in descending order.\<close>

lemma pages_all:
  assumes "ok q"
  shows "pages (fetch q) start out \<longleftrightarrow> out = map (view q) (descending key (rows q))"
proof -
  have "pages (fetch q) start (map (view q) (descending key (rows q)))"
    using pages_from [of q start "\<lambda>_. True"] assms by (simp add: fetch_start)
  then show ?thesis using pages_unique [of "fetch q" start out] by metis
qed

end

section \<open>Page tokens\<close>

text \<open>\<^verbatim>\<open>base64.RawURLEncoding\<close>: four characters for three bytes, no padding; the decoder skips line ends.\<close>

definition b64_char :: "nat \<Rightarrow> char" where
  "b64_char i =
     (if i < 26 then char_of (65 + i) else if i < 52 then char_of (71 + i)
      else if i < 62 then char_of (i - 4) else if i = 62 then CHR ''-'' else CHR ''_'')"

definition b64_value :: "char \<Rightarrow> nat option" where
  "b64_value c =
     (let n = of_char c
      in if 65 \<le> n \<and> n \<le> 90 then Some (n - 65) else if 97 \<le> n \<and> n \<le> 122 then Some (n - 71)
         else if 48 \<le> n \<and> n \<le> 57 then Some (n + 4) else if c = CHR ''-'' then Some 62
         else if c = CHR ''_'' then Some 63 else None)"

fun b64_sextets :: "nat list \<Rightarrow> nat list" where
  "b64_sextets [] = []"
| "b64_sextets [a] = [a div 4, a mod 4 * 16]"
| "b64_sextets [a, b] = [a div 4, a mod 4 * 16 + b div 16, b mod 16 * 4]"
| "b64_sextets (a # b # c # r) = a div 4 # (a mod 4 * 16 + b div 16) # (b mod 16 * 4 + c div 64) # c mod 64 # b64_sextets r"

fun b64_bytes :: "nat list \<Rightarrow> nat list option" where
  "b64_bytes [] = Some []"
| "b64_bytes [u] = None"
| "b64_bytes [u, v] = Some [u * 4 + v div 16]"
| "b64_bytes [u, v, w] = Some [u * 4 + v div 16, v mod 16 * 16 + w div 4]"
| "b64_bytes (u # v # w # x # r) =
     map_option (\<lambda>bs. (u * 4 + v div 16) # (v mod 16 * 16 + w div 4) # (w mod 4 * 64 + x) # bs) (b64_bytes r)"

definition b64_encode :: "string \<Rightarrow> string" where
  "b64_encode s = map b64_char (b64_sextets (map of_char s))"

definition b64_decode :: "string \<Rightarrow> string option" where
  "b64_decode s =
     (case those (map b64_value (filter (\<lambda>c. c \<noteq> CHR 0x0A \<and> c \<noteq> CHR 0x0D) s)) of
        None \<Rightarrow> None
      | Some vs \<Rightarrow> map_option (map char_of) (b64_bytes vs))"

lemma b64_value_char:
  assumes "i < 64"
  shows "b64_value (b64_char i) = Some i" and "b64_char i \<notin> {CHR 0x0A, CHR 0x0D}"
proof -
  consider "i < 26" | "26 \<le> i" "i < 52" | "52 \<le> i" "i < 62" | "i = 62" | "i = 63" using assms by linarith
  then show v: "b64_value (b64_char i) = Some i"
    by cases (auto simp: b64_value_def b64_char_def Let_def)
  have "b64_value (CHR 0x0A) = None" "b64_value (CHR 0x0D) = None" by (simp_all add: b64_value_def)
  with v show "b64_char i \<notin> {CHR 0x0A, CHR 0x0D}" by auto
qed

lemma b64_sextets_small: "list_all (\<lambda>b. b < 256) bs \<Longrightarrow> list_all (\<lambda>v. v < 64) (b64_sextets bs)"
  by (induction bs rule: b64_sextets.induct) auto

lemma b64_group:
  fixes a b c :: nat
  assumes "a < 256" and "b < 256" and "c < 256"
  shows "a div 4 * 4 + (a mod 4 * 16 + b div 16) div 16 = a"
    and "(a mod 4 * 16 + b div 16) mod 16 * 16 + (b mod 16 * 4 + c div 64) div 4 = b"
    and "(b mod 16 * 4 + c div 64) mod 4 * 64 + c mod 64 = c"
proof -
  have "b div 16 < 16" "c div 64 < 4" using assms by auto
  then show "a div 4 * 4 + (a mod 4 * 16 + b div 16) div 16 = a"
    "(a mod 4 * 16 + b div 16) mod 16 * 16 + (b mod 16 * 4 + c div 64) div 4 = b"
    "(b mod 16 * 4 + c div 64) mod 4 * 64 + c mod 64 = c"
    by (simp_all add: mult.commute)
qed

lemma b64_tails:
  "a div 4 * 4 + a mod 4 * 16 div 16 = (a :: nat)" "b < 256 \<Longrightarrow> (a mod 4 * 16 + b div 16) mod 16 * 16 + b mod 16 * 4 div 4 = (b :: nat)"
  using b64_group(2) [of 0 b 0] by simp_all

lemma b64_bytes_sextets: "list_all (\<lambda>b. b < 256) bs \<Longrightarrow> b64_bytes (b64_sextets bs) = Some bs"
proof (induction bs rule: b64_sextets.induct)
  case (2 a)
  show ?case by (simp only: b64_sextets.simps b64_bytes.simps b64_tails)
next
  case (3 a b)
  then have "a < 256" "b < 256" by simp_all
  then show ?case
    using b64_group(1) [of a b 0] by (simp only: b64_sextets.simps b64_bytes.simps b64_tails zero_less_numeral)
next
  case (4 a b c r)
  then have "a < 256" "b < 256" "c < 256" "b64_bytes (b64_sextets r) = Some r" by simp_all
  then show ?case by (simp only: b64_sextets.simps b64_bytes.simps option.map b64_group)
qed simp

lemma those_map_Some: "(\<And>x. x \<in> set xs \<Longrightarrow> f (g x) = Some x) \<Longrightarrow> those (map (\<lambda>x. f (g x)) xs) = Some xs"
  by (induction xs) simp_all

lemma b64_round_trip: "b64_decode (b64_encode s) = Some s"
proof -
  let ?vs = "b64_sextets (map of_char s)"
  have b: "list_all (\<lambda>b. b < 256) (map of_char s :: nat list)" by (auto simp: list_all_iff)
  have small: "v < 64" if "v \<in> set ?vs" for v using b64_sextets_small [OF b] that by (simp add: list_all_iff)
  have "filter (\<lambda>c. c \<noteq> CHR 0x0A \<and> c \<noteq> CHR 0x0D) (b64_encode s) = b64_encode s"
    by (rule filter_True) (use small b64_value_char(2) in \<open>auto simp: b64_encode_def\<close>)
  moreover have "those (map (\<lambda>v. b64_value (b64_char v)) ?vs) = Some ?vs"
    by (rule those_map_Some) (rule b64_value_char(1), rule small)
  then have "those (map b64_value (b64_encode s)) = Some ?vs" by (simp add: b64_encode_def comp_def)
  ultimately show ?thesis
    using b64_bytes_sextets [OF b] by (simp add: b64_decode_def comp_def)
qed

record PageCursor =
  pc_Timestamp :: ztime
  pc_ID :: string

definition no_cursor :: PageCursor where
  "no_cursor = \<lparr>pc_Timestamp = (0, 0), pc_ID = []\<rparr>"

text \<open>The JSON text of a cursor is an argument; \<^verbatim>\<open>encoding/json\<close> reads back what it wrote for a time that prints.\<close>

record cursor_json =
  cj_Marshal :: "PageCursor \<Rightarrow> string"
  cj_Unmarshal :: "string \<Rightarrow> PageCursor option"

definition cursor_json_ok :: "cursor_json \<Rightarrow> bool" where
  "cursor_json_ok j \<longleftrightarrow>
     (\<forall>c. printable (pc_Timestamp c) \<longrightarrow> cj_Marshal j c \<noteq> [] \<and> cj_Unmarshal j (cj_Marshal j c) = Some c)"

definition EncodePageCursor :: "cursor_json \<Rightarrow> PageCursor \<Rightarrow> string" where
  "EncodePageCursor j c = b64_encode (cj_Marshal j c)"

definition DecodePageCursor :: "cursor_json \<Rightarrow> string \<Rightarrow> PageCursor option" where
  "DecodePageCursor j token =
     (if token = [] then Some no_cursor
      else case b64_decode token of None \<Rightarrow> None | Some b \<Rightarrow> cj_Unmarshal j b)"

lemma b64_encode_Nil: "b64_encode s = [] \<longleftrightarrow> s = []"
  by (cases "map of_char s :: nat list" rule: b64_sextets.cases) (auto simp: b64_encode_def)

lemma cursor_round_trip:
  assumes "cursor_json_ok j" and "printable (pc_Timestamp c)"
  shows "DecodePageCursor j (EncodePageCursor j c) = Some c" and "EncodePageCursor j c \<noteq> []"
  using assms by (auto simp: cursor_json_ok_def DecodePageCursor_def EncodePageCursor_def b64_round_trip b64_encode_Nil)

end
