(* ===== verification/SpanStore.thy ===== *)
theory SpanStore
  imports SqlQuery Processor
begin

text \<open>
  The SQLite span store (\<^verbatim>\<open>pkg/storage/sqlite/sqlite.go\<close>): ingestion with the outbox of unsynchronised
  spans, traces, searches, aggregates, and pruning.

  A table is the list of its rows in the order of insertion, a query is what its SQL says about them; where
  rows tie under \<^verbatim>\<open>ORDER BY\<close> the model takes one of the possible orders.  Time columns hold text: the layout
  \<^verbatim>\<open>RFC3339Nano\<close> printed in the location of the \<^verbatim>\<open>time.Time\<close>, and they are compared as text.  The zone of
  the process is an argument, so are the clock, the failing statements and the JSON text of attributes and
  spans.  \<^verbatim>\<open>json.Marshal\<close> refuses a float that is not finite and a time that the layout cannot print, and then the
  whole batch is rolled back; so no such value is ever in a table.
\<close>

section \<open>Tables\<close>

record span_row =
  r_span_id :: string
  r_trace_id :: string
  r_parent_span_id :: string
  r_name :: string
  r_kind :: int
  r_status :: int
  r_status_message :: string
  r_start_time :: string
  r_end_time :: string
  r_duration_ns :: i64
  r_project_id :: string
  r_environment :: string
  r_service_name :: string
  r_model :: string
  r_provider :: string
  r_input_tokens :: i64
  r_output_tokens :: i64
  r_total_tokens :: i64
  r_cost_usd :: f64
  r_temperature :: f64
  r_max_tokens :: i64
  r_input_content :: string
  r_output_content :: string
  r_attributes_json :: string
  r_user_id :: string
  r_session_id :: string
  r_tenant_id :: string
  r_job_id :: string
  r_cache_read_tokens :: i64
  r_cache_creation_tokens :: i64

record OutboxSpan =
  ob_SpanID :: string
  ob_PayloadJSON :: string
  ob_AttemptCount :: int
  ob_created_at :: string

record span_db =
  db_spans :: "span_row list"
  db_outbox :: "OutboxSpan list"

definition empty_db :: span_db where
  "empty_db = \<lparr>db_spans = [], db_outbox = []\<rparr>"

datatype span_error = SpanDBError | SpanNotFound | SpanScanError | SpanBadToken | SpanPanic

record span_codec =
  sc_attrs :: "(string \<times> string) list option \<Rightarrow> string"
  sc_unattrs :: "string \<Rightarrow> (string \<times> string) list option option"
  sc_span :: "Span \<Rightarrow> string"
  sc_unspan :: "string \<Rightarrow> Span option"

record ingest_env =
  se_flt :: "nat \<Rightarrow> bool"
  se_now :: "nat \<Rightarrow> gotime"
  se_zone :: "gotime \<Rightarrow> int"

section \<open>Ingestion\<close>

fun kind_num :: "SpanKind \<Rightarrow> int" where
  "kind_num SpanKindUnspecified = 0"
| "kind_num SpanKindLLM = 1"
| "kind_num SpanKindAgent = 2"
| "kind_num SpanKindTool = 3"
| "kind_num SpanKindRetrieval = 4"
| "kind_num SpanKindEmbedding = 5"
| "kind_num SpanKindChain = 6"
| "kind_num SpanKindGeneral = 7"

definition kind_of :: "int \<Rightarrow> SpanKind" where
  "kind_of n =
     (if n = 1 then SpanKindLLM else if n = 2 then SpanKindAgent else if n = 3 then SpanKindTool
      else if n = 4 then SpanKindRetrieval else if n = 5 then SpanKindEmbedding else if n = 6 then SpanKindChain
      else if n = 7 then SpanKindGeneral else SpanKindUnspecified)"

fun status_num :: "SpanStatus \<Rightarrow> int" where
  "status_num SpanStatusUnspecified = 0"
| "status_num SpanStatusOK = 1"
| "status_num SpanStatusError = 2"

definition status_of :: "int \<Rightarrow> SpanStatus" where
  "status_of n = (if n = 1 then SpanStatusOK else if n = 2 then SpanStatusError else SpanStatusUnspecified)"

definition no_genai :: GenAIAttributes where
  "no_genai =
     \<lparr>g_Model = [], g_Provider = [], InputTokens = 0, OutputTokens = 0, TotalTokens = 0, CostUSD = 0, Temperature = 0,
      MaxTokens = 0, TopP = 0, InputContent = [], OutputContent = [], ReasoningContent = [], CacheReadTokens = 0,
      CacheCreationTokens = 0, InputRate = 0, OutputRate = 0, g_DiscountPercent = 0, g_GlobalDiscount = 0\<rparr>"

definition genai_of :: "Span \<Rightarrow> GenAIAttributes" where
  "genai_of sp = (case GenAI sp of None \<Rightarrow> no_genai | Some g \<Rightarrow> g)"

definition is_finite :: "f64 \<Rightarrow> bool" where
  "is_finite x \<longleftrightarrow> (case x of Fin _ \<Rightarrow> True | _ \<Rightarrow> False)"

definition marshals :: "(gotime \<Rightarrow> int) \<Rightarrow> Span \<Rightarrow> bool" where
  "marshals zone sp \<longleftrightarrow>
     printable (StartTime sp, zone (StartTime sp)) \<and> printable (EndTime sp, zone (EndTime sp)) \<and>
     (case GenAI sp of None \<Rightarrow> True
      | Some g \<Rightarrow> is_finite (CostUSD g) \<and> is_finite (Temperature g) \<and> is_finite (TopP g) \<and> is_finite (InputRate g)
                  \<and> is_finite (OutputRate g) \<and> is_finite (g_DiscountPercent g) \<and> is_finite (g_GlobalDiscount g))"

definition to_row :: "span_codec \<Rightarrow> (gotime \<Rightarrow> int) \<Rightarrow> Span \<Rightarrow> span_row" where
  "to_row c zone sp =
     (let g = genai_of sp
      in \<lparr>r_span_id = SpanID sp, r_trace_id = TraceID sp, r_parent_span_id = ParentSpanID sp, r_name = s_Name sp,
          r_kind = kind_num (s_Kind sp), r_status = status_num (s_Status sp), r_status_message = StatusMessage sp,
          r_start_time = FormatNano (StartTime sp, zone (StartTime sp)),
          r_end_time = FormatNano (EndTime sp, zone (EndTime sp)), r_duration_ns = s_Duration sp,
          r_project_id = s_ProjectID sp, r_environment = Environment sp, r_service_name = ServiceName sp,
          r_model = g_Model g, r_provider = g_Provider g, r_input_tokens = InputTokens g,
          r_output_tokens = OutputTokens g, r_total_tokens = TotalTokens g, r_cost_usd = CostUSD g,
          r_temperature = Temperature g, r_max_tokens = MaxTokens g, r_input_content = InputContent g,
          r_output_content = OutputContent g, r_attributes_json = sc_attrs c (Attributes sp),
          r_user_id = s_UserID sp, r_session_id = s_SessionID sp, r_tenant_id = s_TenantID sp, r_job_id = JobID sp,
          r_cache_read_tokens = CacheReadTokens g, r_cache_creation_tokens = CacheCreationTokens g\<rparr>)"

text \<open>\<^verbatim>\<open>INSERT OR REPLACE\<close> removes the row with the same primary key and adds the new one.\<close>

definition put_span :: "span_row \<Rightarrow> span_row list \<Rightarrow> span_row list" where
  "put_span r rows = filter (\<lambda>x. (r_trace_id x, r_span_id x) \<noteq> (r_trace_id r, r_span_id r)) rows @ [r]"

definition put_outbox :: "OutboxSpan \<Rightarrow> OutboxSpan list \<Rightarrow> OutboxSpan list" where
  "put_outbox ob rows = filter (\<lambda>x. ob_SpanID x \<noteq> ob_SpanID ob) rows @ [ob]"

fun ingest_loop :: "span_codec \<Rightarrow> ingest_env \<Rightarrow> nat \<Rightarrow> Span list \<Rightarrow> span_db \<Rightarrow> span_db option" where
  "ingest_loop c e k [] db = Some db"
| "ingest_loop c e k (sp # sps) db =
     (if se_flt e (2 * k + 1) then None
      else if \<not> marshals (se_zone e) sp then None
      else if se_flt e (2 * k + 2) then None
      else
        ingest_loop c e (Suc k) sps
          \<lparr>db_spans = put_span (to_row c (se_zone e) sp) (db_spans db),
           db_outbox = put_outbox
             \<lparr>ob_SpanID = SpanID sp, ob_PayloadJSON = sc_span c sp, ob_AttemptCount = 0,
              ob_created_at = FormatNano (se_now e k, se_zone e (se_now e k))\<rparr> (db_outbox db)\<rparr>)"

definition sq_IngestSpans :: "span_codec \<Rightarrow> ingest_env \<Rightarrow> Span list \<Rightarrow> span_db \<Rightarrow> (span_error + unit) \<times> span_db" where
  "sq_IngestSpans c e spans db =
     (if se_flt e 0 then (Inl SpanDBError, db)
      else case ingest_loop c e 0 spans db of
        None \<Rightarrow> (Inl SpanDBError, db)
      | Some db' \<Rightarrow> if se_flt e (2 * length spans + 1) then (Inl SpanDBError, db) else (Inr (), db'))"


section \<open>Reading spans\<close>

text \<open>A scanned row, with its start time as it was parsed, location included.\<close>

definition scan_genai :: "span_row \<Rightarrow> GenAIAttributes option" where
  "scan_genai r =
     (if r_model r \<noteq> [] \<or> r_provider r \<noteq> [] \<or> 0 < r_input_tokens r \<or> 0 < r_output_tokens r \<or> 0 < r_total_tokens r
         \<or> 0 < r_cost_usd r \<or> 0 < r_cache_read_tokens r \<or> 0 < r_cache_creation_tokens r
      then Some (no_genai\<lparr>g_Model := r_model r, g_Provider := r_provider r, InputTokens := r_input_tokens r,
             OutputTokens := r_output_tokens r, TotalTokens := r_total_tokens r, CostUSD := r_cost_usd r,
             Temperature := r_temperature r, MaxTokens := r_max_tokens r, InputContent := r_input_content r,
             OutputContent := r_output_content r, CacheReadTokens := r_cache_read_tokens r,
             CacheCreationTokens := r_cache_creation_tokens r\<rparr>)
      else None)"

definition scan_attrs :: "span_codec \<Rightarrow> span_row \<Rightarrow> (string \<times> string) list option option" where
  "scan_attrs c r =
     (if r_attributes_json r \<noteq> [] \<and> r_attributes_json r \<noteq> ''{}'' then sc_unattrs c (r_attributes_json r) else Some None)"

definition scan_span :: "span_codec \<Rightarrow> span_row \<Rightarrow> (Span \<times> ztime) option" where
  "scan_span c r = do {
     st \<leftarrow> ParseNano (r_start_time r);
     en \<leftarrow> ParseNano (r_end_time r);
     attrs \<leftarrow> scan_attrs c r;
     Some (\<lparr>SpanID = r_span_id r, TraceID = r_trace_id r, ParentSpanID = r_parent_span_id r, s_Name = r_name r,
            s_Kind = kind_of (r_kind r), s_Status = status_of (r_status r), StatusMessage = r_status_message r,
            StartTime = fst st, EndTime = fst en, s_Duration = r_duration_ns r, GenAI = scan_genai r,
            Attributes = attrs, s_ProjectID = r_project_id r, Environment = r_environment r,
            ServiceName = r_service_name r, s_UserID = r_user_id r, s_SessionID = r_session_id r,
            s_TenantID = r_tenant_id r, JobID = r_job_id r, TraceGroup = [], Labels = None\<rparr>, st)
   }"

definition scanSpans :: "span_codec \<Rightarrow> span_row list \<Rightarrow> (Span \<times> ztime) list option" where
  "scanSpans c rows = those (map (scan_span c) rows)"

record Trace =
  t_TraceID :: string
  t_StartTime :: gotime
  t_EndTime :: gotime
  t_Duration :: duration
  t_ProjectID :: string
  t_Environment :: string
  t_SpanCount :: int
  t_TotalTokens :: i64
  t_TotalCostUSD :: f64
  t_RootSpanName :: string
  t_Spans :: "Span list"

definition add_to_trace :: "Span \<Rightarrow> Trace \<Rightarrow> Trace" where
  "add_to_trace sp t =
     (let t1 = t\<lparr>t_StartTime := (if StartTime sp < t_StartTime t then StartTime sp else t_StartTime t),
                 t_EndTime := (if t_EndTime t < EndTime sp then EndTime sp else t_EndTime t),
                 t_RootSpanName := (if ParentSpanID sp = [] then s_Name sp else t_RootSpanName t)\<rparr>
      in case GenAI sp of
           None \<Rightarrow> t1
         | Some g \<Rightarrow> t1\<lparr>t_TotalTokens := wrap64 (t_TotalTokens t1 + TotalTokens g), t_TotalCostUSD := t_TotalCostUSD t1 + CostUSD g\<rparr>)"

definition buildTrace :: "string \<Rightarrow> Span \<Rightarrow> Span list \<Rightarrow> Trace" where
  "buildTrace traceID sp sps =
     (let t = fold add_to_trace (sp # sps)
                \<lparr>t_TraceID = traceID, t_StartTime = StartTime sp, t_EndTime = EndTime sp, t_Duration = 0,
                 t_ProjectID = s_ProjectID sp, t_Environment = Environment sp, t_SpanCount = int (length (sp # sps)),
                 t_TotalTokens = 0, t_TotalCostUSD = 0, t_RootSpanName = [], t_Spans = sp # sps\<rparr>
      in t\<lparr>t_Duration := time_sub (t_EndTime t) (t_StartTime t)\<rparr>)"

definition sq_GetTrace :: "span_codec \<Rightarrow> bool \<Rightarrow> string \<Rightarrow> string \<Rightarrow> span_db \<Rightarrow> span_error + Trace" where
  "sq_GetTrace c flt userID traceID db =
     (if flt then Inl SpanDBError
      else case scanSpans c (sort_key r_start_time
             (filter (\<lambda>r. r_trace_id r = traceID \<and> (userID = [] \<or> r_user_id r = userID \<or> r_user_id r = [])) (db_spans db))) of
        None \<Rightarrow> Inl SpanScanError
      | Some [] \<Rightarrow> Inl SpanNotFound
      | Some (sp # sps) \<Rightarrow> Inr (buildTrace traceID (fst sp) (map fst sps)))"

section \<open>Searching spans\<close>

record SpanQuery =
  sq_ProjectID :: string
  sq_StartTime :: ztime
  sq_EndTime :: ztime
  sq_Kind :: SpanKind
  sq_Model :: string
  sq_NameContains :: string
  sq_PageSize :: int
  sq_PageToken :: string
  sq_UserID :: string
  sq_TenantID :: string

definition opt_eq :: "string \<Rightarrow> string \<Rightarrow> bool" where
  "opt_eq v col \<longleftrightarrow> v = [] \<or> col = v"

definition in_range :: "ztime \<Rightarrow> ztime \<Rightarrow> span_row \<Rightarrow> bool" where
  "in_range a b r \<longleftrightarrow> FormatNano a \<le> r_start_time r \<and> r_start_time r \<le> FormatNano b"

definition span_where :: "SpanQuery \<Rightarrow> span_row \<Rightarrow> bool" where
  "span_where q r \<longleftrightarrow>
     opt_eq (sq_ProjectID q) (r_project_id r) \<and> in_range (sq_StartTime q) (sq_EndTime q) r
     \<and> (kind_num (sq_Kind q) = 0 \<or> r_kind r = kind_num (sq_Kind q))
     \<and> opt_eq (sq_Model q) (r_model r)
     \<and> (sq_NameContains q = [] \<or> like (CHR ''%'' # EscapeLike (sq_NameContains q) @ ''%'') (r_name r))
     \<and> opt_eq (sq_UserID q) (r_user_id r) \<and> opt_eq (sq_TenantID q) (r_tenant_id r)"

definition span_key :: "span_row \<Rightarrow> string \<times> string" where
  "span_key r = (r_start_time r, r_span_id r)"

record SpanResult =
  sr_Spans :: "Span list"
  sr_NextPageToken :: string
  sr_TotalCount :: int

definition cursor_text :: "PageCursor \<Rightarrow> string \<times> string" where
  "cursor_text cur = (FormatNano (pc_Timestamp cur), pc_ID cur)"

definition sq_SearchSpans :: "span_codec \<Rightarrow> cursor_json \<Rightarrow> (nat \<Rightarrow> bool) \<Rightarrow> SpanQuery \<Rightarrow> span_db \<Rightarrow> span_error + SpanResult" where
  "sq_SearchSpans c j flt q db =
     (let n = (if sq_PageSize q = 0 then 50 else sq_PageSize q)
      in case DecodePageCursor j (sq_PageToken q) of
        None \<Rightarrow> Inl SpanBadToken
      | Some cur \<Rightarrow>
          let matching = filter (span_where q) (db_spans db);
              rest = (if pc_ID cur \<noteq> [] then filter (\<lambda>r. span_key r < cursor_text cur) matching else matching)
          in if flt 0 \<or> flt 1 then Inl SpanDBError
             else case scanSpans c (sql_limit (n + 1) (descending span_key rest)) of
               None \<Rightarrow> Inl SpanScanError
             | Some spans \<Rightarrow>
                 if n < 0 then Inl SpanPanic
                 else if n < int (length spans)
                 then let page = take (nat n) spans; lst = last page
                      in Inr \<lparr>sr_Spans = map fst page,
                              sr_NextPageToken = EncodePageCursor j \<lparr>pc_Timestamp = snd lst, pc_ID = SpanID (fst lst)\<rparr>,
                              sr_TotalCount = int (length matching)\<rparr>
                 else Inr \<lparr>sr_Spans = map fst spans, sr_NextPageToken = [], sr_TotalCount = int (length matching)\<rparr>)"


section \<open>Listing traces\<close>

record TraceQuery =
  tq_ProjectID :: string
  tq_Environment :: string
  tq_StartTime :: ztime
  tq_EndTime :: ztime
  tq_Model :: string
  tq_Provider :: string
  tq_Status :: SpanStatus
  tq_Search :: string
  tq_OrderBy :: string
  tq_Descending :: bool
  tq_PageSize :: int
  tq_PageToken :: string
  tq_UserID :: string
  tq_TenantID :: string
  tq_JobID :: string

record TraceSummary =
  ts_TraceID :: string
  ts_StartTime :: ztime
  ts_Duration :: duration
  ts_RootSpanName :: string
  ts_ProjectID :: string
  ts_SpanCount :: int
  ts_LLMCallCount :: int
  ts_TotalTokens :: i64
  ts_TotalCostUSD :: f64
  ts_Status :: SpanStatus
  ts_PrimaryModel :: string
  ts_PrimaryProvider :: string

record TraceResult =
  tr_Traces :: "TraceSummary list"
  tr_NextPageToken :: string
  tr_TotalCount :: int

record sql_floats =
  fl_sum :: "f64 list \<Rightarrow> f64"
  fl_avg :: "i64 list \<Rightarrow> f64"

definition buildTraceBaseFilters :: "TraceQuery \<Rightarrow> span_row \<Rightarrow> bool" where
  "buildTraceBaseFilters q r \<longleftrightarrow>
     opt_eq (tq_ProjectID q) (r_project_id r) \<and> in_range (tq_StartTime q) (tq_EndTime q) r
     \<and> opt_eq (tq_UserID q) (r_user_id r) \<and> opt_eq (tq_TenantID q) (r_tenant_id r)
     \<and> opt_eq (tq_Environment q) (r_environment r)"

definition has_span_filter :: "TraceQuery \<Rightarrow> bool" where
  "has_span_filter q \<longleftrightarrow> tq_Model q \<noteq> [] \<or> tq_Provider q \<noteq> [] \<or> tq_Search q \<noteq> [] \<or> tq_JobID q \<noteq> []"

definition span_filter :: "TraceQuery \<Rightarrow> span_row \<Rightarrow> bool" where
  "span_filter q r \<longleftrightarrow>
     opt_eq (tq_Model q) (r_model r) \<and> opt_eq (tq_Provider q) (r_provider r)
     \<and> (tq_Search q = [] \<or> like (CHR ''%'' # EscapeLike (tq_Search q) @ ''%'') (r_name r))
     \<and> opt_eq (tq_JobID q) (r_job_id r)"

definition trace_rows :: "TraceQuery \<Rightarrow> span_db \<Rightarrow> span_row list" where
  "trace_rows q db =
     (let base = filter (buildTraceBaseFilters q) (db_spans db)
      in if has_span_filter q
         then filter (\<lambda>r. r_trace_id r \<in> set (map r_trace_id (filter (span_filter q) base))) base
         else base)"

definition failed_group :: "span_row list \<Rightarrow> bool" where
  "failed_group rs \<longleftrightarrow> list_ex (\<lambda>r. r_status r = 2) rs"

definition status_having :: "TraceQuery \<Rightarrow> span_row list \<Rightarrow> bool" where
  "status_having q rs \<longleftrightarrow>
     status_num (tq_Status q) = 0 \<or> (if failed_group rs then 2 else 1) = status_num (tq_Status q)"

text \<open>\<^verbatim>\<open>MIN\<close> and \<^verbatim>\<open>MAX\<close> of a text column over the rows of a group.\<close>

definition text_min :: "(span_row \<Rightarrow> string) \<Rightarrow> span_row list \<Rightarrow> string" where
  "text_min f rs = (case map f rs of [] \<Rightarrow> [] | x # xs \<Rightarrow> fold min xs x)"

definition text_max :: "(span_row \<Rightarrow> string) \<Rightarrow> span_row list \<Rightarrow> string" where
  "text_max f rs = (case map f rs of [] \<Rightarrow> [] | x # xs \<Rightarrow> fold max xs x)"

text \<open>
  The value a query is ordered by: a text, an integer or a real.  A difference of two texts is the difference of
  the numbers they begin with, here the years.
\<close>

type_synonym order_key = "string \<times> int \<times> rat"

definition real_key :: "f64 \<Rightarrow> order_key" where
  "real_key x = (case x of NaN \<Rightarrow> ([], -2, 0) | NInf \<Rightarrow> ([], -1, 0) | Fin a \<Rightarrow> ([], 0, a) | PInf \<Rightarrow> ([], 1, 0))"

definition int_key :: "int \<Rightarrow> order_key" where
  "int_key n = ([], 0, of_int n)"

definition text_number :: "string \<Rightarrow> int" where
  "text_number s = decimal_value (takeWhile is_digit s)"

definition order_cols :: "string list" where
  "order_cols = [''start_time'', ''total_tokens'', ''total_cost'', ''duration'', ''span_count'']"

definition order_expr :: "sql_floats \<Rightarrow> string \<Rightarrow> span_row list \<Rightarrow> order_key option" where
  "order_expr fl by rs =
     (if by = ''total_tokens'' then map_option int_key (sum_int (map r_total_tokens rs))
      else if by = ''total_cost'' then Some (real_key (fl_sum fl (map r_cost_usd rs)))
      else if by = ''duration'' then Some (int_key (text_number (text_max r_end_time rs) - text_number (text_min r_start_time rs)))
      else if by = ''span_count'' then Some (int_key (int (length rs)))
      else Some (text_min r_start_time rs, 0, 0))"

text \<open>The model or provider with the greatest cost; which of several is the database's choice.\<close>

definition top_by :: "sql_floats \<Rightarrow> (span_row \<Rightarrow> 'a) \<Rightarrow> span_row list \<Rightarrow> 'a option" where
  "top_by fl key rs =
     (case descending (\<lambda>g. real_key (fl_sum fl (map r_cost_usd (snd g)))) (group_by key rs) of
        [] \<Rightarrow> None
      | g # _ \<Rightarrow> Some (fst g))"

definition or_empty :: "string option \<Rightarrow> string" where
  "or_empty x = (case x of None \<Rightarrow> [] | Some s \<Rightarrow> s)"

definition model_rows :: "TraceQuery \<Rightarrow> string \<Rightarrow> span_db \<Rightarrow> span_row list" where
  "model_rows q traceID db =
     filter (\<lambda>r. r_trace_id r = traceID \<and> opt_eq (tq_ProjectID q) (r_project_id r) \<and> r_model r \<noteq> []) (db_spans db)"

definition parse_or_zero :: "string \<Rightarrow> ztime" where
  "parse_or_zero s = (case ParseNano s of None \<Rightarrow> (0, 0) | Some z \<Rightarrow> z)"

definition trace_summary :: "sql_floats \<Rightarrow> TraceQuery \<Rightarrow> span_db \<Rightarrow> string \<times> span_row list \<Rightarrow> TraceSummary option" where
  "trace_summary fl q db g =
     (case sum_int (map r_total_tokens (snd g)) of
        None \<Rightarrow> None
      | Some tokens \<Rightarrow>
          let rs = snd g; st = parse_or_zero (text_min r_start_time rs)
          in Some \<lparr>ts_TraceID = fst g, ts_StartTime = st,
               ts_Duration = time_sub (fst (parse_or_zero (text_max r_end_time rs))) (fst st),
               ts_RootSpanName = text_max (\<lambda>r. if r_parent_span_id r = [] then r_name r else []) rs,
               ts_ProjectID = tq_ProjectID q, ts_SpanCount = int (length rs),
               ts_LLMCallCount = int (length (filter (\<lambda>r. r_kind r = 1) rs)), ts_TotalTokens = tokens,
               ts_TotalCostUSD = fl_sum fl (map r_cost_usd rs),
               ts_Status = status_of (if failed_group rs then 2 else 0),
               ts_PrimaryModel = or_empty (top_by fl r_model (model_rows q (fst g) db)),
               ts_PrimaryProvider =
                 or_empty (map_option snd (top_by fl (\<lambda>r. (r_model r, r_provider r)) (model_rows q (fst g) db)))\<rparr>)"

definition trace_key :: "string \<times> span_row list \<Rightarrow> string \<times> string" where
  "trace_key g = (text_min r_start_time (snd g), fst g)"

definition sq_QueryTraces ::
  "sql_floats \<Rightarrow> cursor_json \<Rightarrow> (nat \<Rightarrow> bool) \<Rightarrow> TraceQuery \<Rightarrow> span_db \<Rightarrow> span_error + TraceResult" where
  "sq_QueryTraces fl j flt q db =
     (let n = (if tq_PageSize q = 0 then 50 else tq_PageSize q);
          asc = (tq_OrderBy q \<in> set order_cols \<and> \<not> tq_Descending q)
      in case DecodePageCursor j (tq_PageToken q) of
        None \<Rightarrow> Inl SpanBadToken
      | Some cur \<Rightarrow>
          let groups = filter (\<lambda>g. status_having q (snd g)) (group_by r_trace_id (trace_rows q db));
              rest = (if pc_ID cur = [] then groups
                      else if asc then filter (\<lambda>g. cursor_text cur < trace_key g) groups
                      else filter (\<lambda>g. trace_key g < cursor_text cur) groups)
          in if flt 0 \<or> flt 1 then Inl SpanDBError
             else case those (map (\<lambda>g. map_option (\<lambda>k. ((k, fst g), g)) (order_expr fl (tq_OrderBy q) (snd g))) rest) of
               None \<Rightarrow> Inl SpanDBError
             | Some keyed \<Rightarrow>
                 let ordered = (if asc then sort_key fst keyed else descending fst keyed)
                 in case those (map (trace_summary fl q db \<circ> snd) (sql_limit (n + 1) ordered)) of
                   None \<Rightarrow> Inl SpanDBError
                 | Some traces \<Rightarrow>
                     if n < 0 then Inl SpanPanic
                     else if n < int (length traces)
                     then let page = take (nat n) traces; lst = last page
                          in Inr \<lparr>tr_Traces = page,
                               tr_NextPageToken = EncodePageCursor j \<lparr>pc_Timestamp = ts_StartTime lst, pc_ID = ts_TraceID lst\<rparr>,
                               tr_TotalCount = int (length groups)\<rparr>
                     else Inr \<lparr>tr_Traces = traces, tr_NextPageToken = [], tr_TotalCount = int (length groups)\<rparr>)"


section \<open>Usage\<close>

record UsageQuery =
  uq_ProjectID :: string
  uq_StartTime :: ztime
  uq_EndTime :: ztime
  uq_UserID :: string
  uq_TenantID :: string

record UsageSummary =
  us_TotalTraces :: i64
  us_TotalSpans :: i64
  us_TotalLLMCalls :: i64
  us_TotalInputTokens :: i64
  us_TotalOutputTokens :: i64
  us_TotalCostUSD :: f64
  us_AvgLatencyMs :: f64
  us_ErrorRate :: f64
  us_TotalCacheReadTokens :: i64
  us_TotalCacheCreationTokens :: i64

record ModelUsage =
  mu_Model :: string
  mu_Provider :: string
  mu_CallCount :: i64
  mu_InputTokens :: i64
  mu_OutputTokens :: i64
  mu_CostUSD :: f64
  mu_AvgLatencyMs :: f64
  mu_CacheReadTokens :: i64
  mu_CacheCreationTokens :: i64

definition usage_range :: "UsageQuery \<Rightarrow> span_row \<Rightarrow> bool" where
  "usage_range q r \<longleftrightarrow> opt_eq (uq_ProjectID q) (r_project_id r) \<and> in_range (uq_StartTime q) (uq_EndTime q) r"

definition usage_where :: "UsageQuery \<Rightarrow> span_row \<Rightarrow> bool" where
  "usage_where q r \<longleftrightarrow> usage_range q r \<and> opt_eq (uq_UserID q) (r_user_id r) \<and> opt_eq (uq_TenantID q) (r_tenant_id r)"

definition millis_f :: "f64 \<Rightarrow> f64" where
  "millis_f x = x / Fin 1000000"

text \<open>\<^verbatim>\<open>COALESCE\<close> of the mean over root spans, the mean over model calls, and zero.\<close>

definition avg_latency :: "sql_floats \<Rightarrow> span_row list \<Rightarrow> f64" where
  "avg_latency fl rs =
     (let roots = map r_duration_ns (filter (\<lambda>r. r_parent_span_id r = []) rs);
          calls = map r_duration_ns (filter (\<lambda>r. r_kind r = kind_num SpanKindLLM) rs)
      in millis_f (if roots \<noteq> [] then fl_avg fl roots else if calls \<noteq> [] then fl_avg fl calls else 0))"

definition sq_GetUsageSummary :: "sql_floats \<Rightarrow> bool \<Rightarrow> UsageQuery \<Rightarrow> span_db \<Rightarrow> span_error + UsageSummary" where
  "sq_GetUsageSummary fl flt q db =
     (let rs = filter (usage_where q) (db_spans db); traces = count_distinct (map r_trace_id rs)
      in if flt then Inl SpanDBError
         else case (sum_int (map r_input_tokens rs), sum_int (map r_output_tokens rs),
                    sum_int (map r_cache_read_tokens rs), sum_int (map r_cache_creation_tokens rs)) of
           (Some i, Some out, Some cr, Some cc) \<Rightarrow>
             Inr \<lparr>us_TotalTraces = traces, us_TotalSpans = int (length rs),
                  us_TotalLLMCalls = int (length (filter (\<lambda>r. r_kind r = 1) rs)),
                  us_TotalInputTokens = i, us_TotalOutputTokens = out,
                  us_TotalCostUSD = (if rs = [] then 0 else fl_sum fl (map r_cost_usd rs)),
                  us_AvgLatencyMs = avg_latency fl rs,
                  us_ErrorRate =
                    (if 0 < traces
                     then mk (of_int (count_distinct (map r_trace_id (filter (\<lambda>r. r_status r = 2) rs)))) / mk (of_int traces)
                     else 0),
                  us_TotalCacheReadTokens = cr, us_TotalCacheCreationTokens = cc\<rparr>
         | _ \<Rightarrow> Inl SpanDBError)"

definition model_usage :: "sql_floats \<Rightarrow> (string \<times> string) \<times> span_row list \<Rightarrow> ModelUsage option" where
  "model_usage fl g =
     (let rs = snd g
      in case (sum_int (map r_input_tokens rs), sum_int (map r_output_tokens rs),
               sum_int (map r_cache_read_tokens rs), sum_int (map r_cache_creation_tokens rs)) of
        (Some i, Some out, Some cr, Some cc) \<Rightarrow>
          Some \<lparr>mu_Model = fst (fst g), mu_Provider = snd (fst g), mu_CallCount = int (length rs), mu_InputTokens = i,
                mu_OutputTokens = out, mu_CostUSD = fl_sum fl (map r_cost_usd rs),
                mu_AvgLatencyMs = millis_f (fl_avg fl (map r_duration_ns rs)), mu_CacheReadTokens = cr,
                mu_CacheCreationTokens = cc\<rparr>
      | _ \<Rightarrow> None)"

definition sq_GetModelBreakdown :: "sql_floats \<Rightarrow> bool \<Rightarrow> UsageQuery \<Rightarrow> span_db \<Rightarrow> span_error + ModelUsage list" where
  "sq_GetModelBreakdown fl flt q db =
     (let rs = filter (\<lambda>r. usage_where q r \<and> r_model r \<noteq> []) (db_spans db);
          groups = descending (\<lambda>g. real_key (fl_sum fl (map r_cost_usd (snd g)))) (group_by (\<lambda>r. (r_model r, r_provider r)) rs)
      in if flt then Inl SpanDBError
         else case those (map (model_usage fl) groups) of None \<Rightarrow> Inl SpanDBError | Some ms \<Rightarrow> Inr ms)"

text \<open>The three leaderboards differ in the column they group by and in the order of equal costs.\<close>

record leader =
  ld_ID :: string
  ld_CallCount :: i64
  ld_TotalTokens :: i64
  ld_CostUSD :: f64
  ld_AvgLatencyMs :: f64
  ld_TopModel :: string

definition leader_of :: "sql_floats \<Rightarrow> (span_row \<Rightarrow> string) \<Rightarrow> UsageQuery \<Rightarrow> span_db \<Rightarrow> string \<times> span_row list \<Rightarrow> leader option" where
  "leader_of fl col q db g =
     (case sum_int (map r_total_tokens (snd g)) of
        None \<Rightarrow> None
      | Some tokens \<Rightarrow>
          Some \<lparr>ld_ID = fst g, ld_CallCount = count_distinct (map r_trace_id (snd g)), ld_TotalTokens = tokens,
                ld_CostUSD = fl_sum fl (map r_cost_usd (snd g)), ld_AvgLatencyMs = avg_latency fl (snd g),
                ld_TopModel = or_empty (top_by fl r_model
                  (filter (\<lambda>r. col r = fst g \<and> usage_range q r \<and> r_model r \<noteq> []) (db_spans db)))\<rparr>)"

definition leader_groups :: "(span_row \<Rightarrow> string) \<Rightarrow> UsageQuery \<Rightarrow> span_db \<Rightarrow> (string \<times> span_row list) list" where
  "leader_groups col q db = group_by col (filter (\<lambda>r. usage_range q r \<and> col r \<noteq> []) (db_spans db))"

definition leaders :: "sql_floats \<Rightarrow> bool \<Rightarrow> (span_row \<Rightarrow> string) \<Rightarrow> UsageQuery \<Rightarrow> int \<Rightarrow> (string \<times> span_row list) list \<Rightarrow> span_db \<Rightarrow>
    span_error + leader list" where
  "leaders fl flt col q limit ordered db =
     (if flt then Inl SpanDBError
      else case those (map (leader_of fl col q db) (sql_limit limit ordered)) of None \<Rightarrow> Inl SpanDBError | Some ls \<Rightarrow> Inr ls)"

definition by_cost :: "sql_floats \<Rightarrow> (string \<times> span_row list) list \<Rightarrow> (string \<times> span_row list) list" where
  "by_cost fl = descending (\<lambda>g. real_key (fl_sum fl (map r_cost_usd (snd g))))"

definition sq_GetUserLeaderboard :: "sql_floats \<Rightarrow> bool \<Rightarrow> UsageQuery \<Rightarrow> int \<Rightarrow> span_db \<Rightarrow> span_error + leader list" where
  "sq_GetUserLeaderboard fl flt q limit db =
     leaders fl flt r_user_id q (if limit \<le> 0 then 20 else limit) (by_cost fl (descending fst (leader_groups r_user_id q db))) db"

definition sq_GetTenantLeaderboard :: "sql_floats \<Rightarrow> bool \<Rightarrow> UsageQuery \<Rightarrow> int \<Rightarrow> span_db \<Rightarrow> span_error + leader list" where
  "sq_GetTenantLeaderboard fl flt q limit db =
     leaders fl flt r_tenant_id q (if limit \<le> 0 then 20 else limit) (by_cost fl (leader_groups r_tenant_id q db)) db"

definition sq_GetJobLeaderboard :: "sql_floats \<Rightarrow> bool \<Rightarrow> UsageQuery \<Rightarrow> int \<Rightarrow> span_db \<Rightarrow> span_error + leader list" where
  "sq_GetJobLeaderboard fl flt q limit db =
     leaders fl flt r_job_id q limit (by_cost fl (leader_groups r_job_id q db)) db"

section \<open>Outbox and pruning\<close>

definition sq_GetOutboxSpans :: "bool \<Rightarrow> int \<Rightarrow> span_db \<Rightarrow> span_error + OutboxSpan list" where
  "sq_GetOutboxSpans flt limit db =
     (if flt then Inl SpanDBError else Inr (sql_limit limit (sort_key ob_created_at (db_outbox db))))"

text \<open>Identifiers are sent to the database in chunks of 500, one statement each; a failure stops, earlier chunks stay done.\<close>

function chunks :: "'a list \<Rightarrow> 'a list list" where
  "chunks xs = (if xs = [] then [] else take 500 xs # chunks (drop 500 xs))"
  by pat_completeness auto
termination by (relation "measure length") auto

declare chunks.simps [simp del]

fun outbox_loop :: "(string list \<Rightarrow> OutboxSpan list \<Rightarrow> OutboxSpan list) \<Rightarrow> (nat \<Rightarrow> bool) \<Rightarrow> nat \<Rightarrow> string list list \<Rightarrow> span_db \<Rightarrow>
    (span_error + unit) \<times> span_db" where
  "outbox_loop f flt k [] db = (Inr (), db)"
| "outbox_loop f flt k (ids # rest) db =
     (if flt k then (Inl SpanDBError, db) else outbox_loop f flt (Suc k) rest (db\<lparr>db_outbox := f ids (db_outbox db)\<rparr>))"

definition sq_DeleteOutboxSpans :: "(nat \<Rightarrow> bool) \<Rightarrow> string list \<Rightarrow> span_db \<Rightarrow> (span_error + unit) \<times> span_db" where
  "sq_DeleteOutboxSpans flt ids db =
     outbox_loop (\<lambda>ids. filter (\<lambda>ob. ob_SpanID ob \<notin> set ids)) flt 0 (chunks ids) db"

definition sq_IncrementOutboxAttempt :: "(nat \<Rightarrow> bool) \<Rightarrow> string list \<Rightarrow> span_db \<Rightarrow> (span_error + unit) \<times> span_db" where
  "sq_IncrementOutboxAttempt flt ids db =
     outbox_loop (\<lambda>ids. map (\<lambda>ob. if ob_SpanID ob \<in> set ids then ob\<lparr>ob_AttemptCount := ob_AttemptCount ob + 1\<rparr> else ob))
       flt 0 (chunks ids) db"

definition sq_PruneLocalSpans :: "(nat \<Rightarrow> bool) \<Rightarrow> int \<Rightarrow> span_db \<Rightarrow> (span_error + unit) \<times> span_db" where
  "sq_PruneLocalSpans flt keepCount db =
     (if flt 0 \<or> flt 1 \<or> flt 2 then (Inl SpanDBError, db)
      else (Inr (),
        \<lparr>db_spans = filter (\<lambda>r. r_span_id r \<in> set (map r_span_id (sql_limit keepCount (descending r_start_time (db_spans db))))) (db_spans db),
         db_outbox = filter (\<lambda>ob. ob_SpanID ob \<in> set (map ob_SpanID (sql_limit keepCount (descending ob_created_at (db_outbox db))))) (db_outbox db)\<rparr>))"

end
