(* ===== verification/SpanLaws.thy ===== *)
theory SpanLaws
  imports SpanStore
begin

text \<open>
  What the SQLite span store guarantees: integrity of its tables in every reachable state, the round trip of
  a span, and exact paging of searches.
\<close>

section \<open>Integrity\<close>

definition row_ok :: "span_row \<Rightarrow> bool" where
  "row_ok r \<longleftrightarrow> (\<exists>z. printable z \<and> r_start_time r = FormatNano z) \<and> (\<exists>z. printable z \<and> r_end_time r = FormatNano z) \<and> is_finite (r_cost_usd r)"

definition span_id_of :: "span_row \<Rightarrow> string \<times> string" where
  "span_id_of r = (r_trace_id r, r_span_id r)"

definition db_ok :: "span_db \<Rightarrow> bool" where
  "db_ok db \<longleftrightarrow>
     distinct (map span_id_of (db_spans db)) \<and> distinct (map ob_SpanID (db_outbox db)) \<and> list_all row_ok (db_spans db)"

inductive db_step :: "span_db \<Rightarrow> span_db \<Rightarrow> bool" where
  step_ingest: "db_step db (snd (sq_IngestSpans c e spans db))"
| step_delete: "db_step db (snd (sq_DeleteOutboxSpans flt ids db))"
| step_increment: "db_step db (snd (sq_IncrementOutboxAttempt flt ids db))"
| step_prune: "db_step db (snd (sq_PruneLocalSpans flt n db))"

lemma put_span_set: "set (put_span r rows) = insert r {x \<in> set rows. span_id_of x \<noteq> span_id_of r}"
  by (auto simp: put_span_def span_id_of_def)

lemma put_span_keys: "distinct (map span_id_of rows) \<Longrightarrow> distinct (map span_id_of (put_span r rows))"
  by (auto simp: put_span_def span_id_of_def distinct_map_filter)

lemma put_outbox_keys: "distinct (map ob_SpanID rows) \<Longrightarrow> distinct (map ob_SpanID (put_outbox ob rows))"
  by (auto simp: put_outbox_def distinct_map_filter)

lemma row_ok_to_row: "marshals zone sp \<Longrightarrow> row_ok (to_row c zone sp)"
  by (auto simp: marshals_def row_ok_def to_row_def genai_of_def no_genai_def is_finite_def zero_f64_def Let_def split: option.splits)

lemma put_span_ok: "list_all row_ok rows \<Longrightarrow> row_ok r \<Longrightarrow> list_all row_ok (put_span r rows)"
  by (auto simp: put_span_def list_all_iff)

lemma db_ok_ingest_loop: "ingest_loop c e k sps db = Some db' \<Longrightarrow> db_ok db \<Longrightarrow> db_ok db'"
  by (induction c e k sps db rule: ingest_loop.induct)
    (auto simp: db_ok_def put_span_keys put_outbox_keys put_span_ok row_ok_to_row split: if_splits)

lemma db_ok_ingest [inv_intros]: "db_ok db \<Longrightarrow> db_ok (snd (sq_IngestSpans c e sps db))"
  by (auto simp: sq_IngestSpans_def dest: db_ok_ingest_loop split: option.splits)

lemma outbox_loop_inv:
  assumes "\<And>ids rows. I rows \<Longrightarrow> I (f ids rows)"
  shows "I (db_outbox db) \<Longrightarrow> I (db_outbox (snd (outbox_loop f flt k idss db)))"
  by (induction idss arbitrary: k db) (auto simp: assms)

lemma outbox_loop_spans: "db_spans (snd (outbox_loop f flt k idss db)) = db_spans db"
  by (induction idss arbitrary: k db) auto

lemma db_ok_delete [inv_intros]: "db_ok db \<Longrightarrow> db_ok (snd (sq_DeleteOutboxSpans flt ids db))"
  unfolding db_ok_def sq_DeleteOutboxSpans_def outbox_loop_spans
  by (auto intro!: outbox_loop_inv [of "\<lambda>rows. distinct (map ob_SpanID rows)"] simp: distinct_map_filter)

lemma db_ok_increment [inv_intros]: "db_ok db \<Longrightarrow> db_ok (snd (sq_IncrementOutboxAttempt flt ids db))"
  unfolding db_ok_def sq_IncrementOutboxAttempt_def outbox_loop_spans
  by (auto intro!: outbox_loop_inv [of "\<lambda>rows. distinct (map ob_SpanID rows)"] simp: comp_def if_distrib cong: if_cong)

lemma db_ok_prune [inv_intros]: "db_ok db \<Longrightarrow> db_ok (snd (sq_PruneLocalSpans flt n db))"
  by (auto simp: db_ok_def sq_PruneLocalSpans_def distinct_map_filter list_all_iff)

lemma reachable_db_ok: "db_step\<^sup>*\<^sup>* empty_db db \<Longrightarrow> db_ok db"
proof (induction rule: rtranclp_induct)
  case base
  show ?case by (simp add: db_ok_def empty_db_def)
next
  case (step db db')
  from step.hyps(2) show ?case by cases (auto intro: inv_intros step.IH)
qed


section \<open>Round trip\<close>

text \<open>
  What the tables keep of a span: they have no column for \<^verbatim>\<open>top_p\<close>, the reasoning, the rates and discounts, the
  labels and the trace group, and an empty attribute map or an empty \<^verbatim>\<open>GenAI\<close> comes back as none.
\<close>

definition kept_genai :: "GenAIAttributes \<Rightarrow> GenAIAttributes option" where
  "kept_genai g =
     (if g_Model g \<noteq> [] \<or> g_Provider g \<noteq> [] \<or> 0 < InputTokens g \<or> 0 < OutputTokens g \<or> 0 < TotalTokens g \<or> 0 < CostUSD g
         \<or> 0 < CacheReadTokens g \<or> 0 < CacheCreationTokens g
      then Some (g\<lparr>TopP := 0, ReasoningContent := [], InputRate := 0, OutputRate := 0, g_DiscountPercent := 0, g_GlobalDiscount := 0\<rparr>)
      else None)"

definition norm_attrs :: "(string \<times> string) list option \<Rightarrow> (string \<times> string) list option" where
  "norm_attrs m = (if m = Some [] then None else m)"

definition stored :: "Span \<Rightarrow> Span" where
  "stored sp = sp\<lparr>GenAI := kept_genai (genai_of sp), Attributes := norm_attrs (Attributes sp), TraceGroup := [], Labels := None\<rparr>"

text \<open>The JSON library reads back the attributes it wrote.\<close>

definition attrs_back :: "span_codec \<Rightarrow> (string \<times> string) list option \<Rightarrow> bool" where
  "attrs_back c m \<longleftrightarrow>
     (if sc_attrs c m \<noteq> [] \<and> sc_attrs c m \<noteq> ''{}'' then sc_unattrs c (sc_attrs c m) else Some None) = Some (norm_attrs m)"

lemma kind_of_num [simp]: "kind_of (kind_num k) = k"
  by (cases k) (simp_all add: kind_of_def)

lemma status_of_num [simp]: "status_of (status_num s) = s"
  by (cases s) (simp_all add: status_of_def)

lemma scan_to_row:
  assumes "marshals zone sp" and "attrs_back c (Attributes sp)"
  shows "scan_span c (to_row c zone sp) = Some (stored sp, (StartTime sp, zone (StartTime sp)))"
proof -
  have t: "ParseNano (FormatNano (StartTime sp, zone (StartTime sp))) = Some (StartTime sp, zone (StartTime sp))"
    "ParseNano (FormatNano (EndTime sp, zone (EndTime sp))) = Some (EndTime sp, zone (EndTime sp))"
    using assms(1) by (simp_all add: marshals_def ParseNano_FormatNano)
  have "r_attributes_json (to_row c zone sp) = sc_attrs c (Attributes sp)" by (simp add: to_row_def Let_def)
  then have a: "scan_attrs c (to_row c zone sp) = Some (norm_attrs (Attributes sp))"
    using assms(2) by (simp only: scan_attrs_def attrs_back_def)
  have g: "scan_genai (to_row c zone sp) = kept_genai (genai_of sp)"
    by (simp add: scan_genai_def kept_genai_def to_row_def no_genai_def Let_def)
  show ?thesis
    unfolding scan_span_def a g by (simp add: to_row_def Let_def t stored_def)
qed

lemma ingest_loop_Cons:
  assumes "ingest_loop c e k (sp # sps) db = Some db'"
  shows "marshals (se_zone e) sp \<and> (\<exists>db1. db_spans db1 = put_span (to_row c (se_zone e) sp) (db_spans db) \<and> ingest_loop c e (Suc k) sps db1 = Some db')"
  using assms by (simp split: if_splits) (metis span_db.select_convs(1))

lemma ingest_rows:
  assumes "ingest_loop c e k sps db = Some db'" and "distinct (map (\<lambda>sp. (TraceID sp, SpanID sp)) sps)"
  shows "sp \<in> set sps \<Longrightarrow> to_row c (se_zone e) sp \<in> set (db_spans db') \<and> marshals (se_zone e) sp"
    and "r \<in> set (db_spans db') \<Longrightarrow> r \<in> set (db_spans db) \<or> (\<exists>sp \<in> set sps. r = to_row c (se_zone e) sp)"
    and "r \<in> set (db_spans db) \<Longrightarrow> (\<forall>sp \<in> set sps. span_id_of r \<noteq> (TraceID sp, SpanID sp)) \<Longrightarrow> r \<in> set (db_spans db')"
proof -
  have id: "span_id_of (to_row c z sp) = (TraceID sp, SpanID sp)" for z sp
    by (simp add: span_id_of_def to_row_def Let_def)
  have "(\<forall>sp \<in> set sps. to_row c (se_zone e) sp \<in> set (db_spans db') \<and> marshals (se_zone e) sp) \<and>
    (\<forall>r \<in> set (db_spans db'). r \<in> set (db_spans db) \<or> (\<exists>sp \<in> set sps. r = to_row c (se_zone e) sp)) \<and>
    (\<forall>r \<in> set (db_spans db). (\<forall>sp \<in> set sps. span_id_of r \<noteq> (TraceID sp, SpanID sp)) \<longrightarrow> r \<in> set (db_spans db'))"
    using assms
  proof (induction sps arbitrary: k db)
    case (Cons sp sps)
    let ?r = "to_row c (se_zone e) sp"
    obtain db1 where db1: "db_spans db1 = put_span ?r (db_spans db)" "ingest_loop c e (Suc k) sps db1 = Some db'"
      and m: "marshals (se_zone e) sp"
      using ingest_loop_Cons [OF Cons.prems(1)] by blast
    note IH = Cons.IH [OF db1(2)]
    have "?r \<in> set (db_spans db')"
      using IH Cons.prems(2) by (force simp: db1(1) put_span_set id)
    then show ?case using IH Cons.prems(2) m by (auto simp: db1(1) put_span_set id)
  qed simp
  then show "sp \<in> set sps \<Longrightarrow> to_row c (se_zone e) sp \<in> set (db_spans db') \<and> marshals (se_zone e) sp"
    "r \<in> set (db_spans db') \<Longrightarrow> r \<in> set (db_spans db) \<or> (\<exists>sp \<in> set sps. r = to_row c (se_zone e) sp)"
    "r \<in> set (db_spans db) \<Longrightarrow> (\<forall>sp \<in> set sps. span_id_of r \<noteq> (TraceID sp, SpanID sp)) \<Longrightarrow> r \<in> set (db_spans db')"
    by blast+
qed

lemma those_Some_iff: "those xs = Some ys \<longleftrightarrow> xs = map Some ys"
  by (induction xs arbitrary: ys) (auto split: option.splits simp: Cons_eq_map_conv)

lemma scanSpans_total:
  assumes "\<forall>r \<in> set rows. scan_span c r \<noteq> None"
  shows "scanSpans c rows = Some (map (the \<circ> scan_span c) rows)"
  unfolding scanSpans_def those_Some_iff using assms by auto

lemma buildTrace_Spans: "t_Spans (buildTrace i sp sps) = sp # sps"
proof -
  have one: "t_Spans (add_to_trace x t) = t_Spans t" for x t
    by (simp add: add_to_trace_def Let_def split: option.split)
  have "t_Spans (fold add_to_trace xs t) = t_Spans t" for xs t
    by (induction xs arbitrary: t) (simp_all add: one)
  then show ?thesis by (simp add: buildTrace_def Let_def one)
qed



definition demo_codec :: span_codec where
  "demo_codec = \<lparr>sc_attrs = (\<lambda>_. ''null''), sc_unattrs = (\<lambda>_. Some None), sc_span = (\<lambda>_. ''{}''), sc_unspan = (\<lambda>_. None)\<rparr>"

definition calm_env :: ingest_env where
  "calm_env = \<lparr>se_flt = (\<lambda>_. False), se_now = (\<lambda>k. 63900000000000000000 + int k), se_zone = (\<lambda>_. 7200)\<rparr>"

definition plain_span :: "string \<Rightarrow> string \<Rightarrow> gotime \<Rightarrow> Span" where
  "plain_span trace i t =
     \<lparr>SpanID = i, TraceID = trace, ParentSpanID = [], s_Name = ''chat'', s_Kind = SpanKindLLM, s_Status = SpanStatusOK,
      StatusMessage = [], StartTime = t, EndTime = t + 1000000, s_Duration = 1000000, GenAI = None, Attributes = None,
      s_ProjectID = ''p'', Environment = [], ServiceName = [], s_UserID = ''u'', s_SessionID = [], s_TenantID = [],
      JobID = [], TraceGroup = [], Labels = None\<rparr>"

lemma calm_ingest:
  "fst (sq_IngestSpans demo_codec calm_env [plain_span ''t'' ''a'' 63900000000000000000] empty_db) = Inr ()"
  by code_simp



section \<open>Pages of a search\<close>

type_synonym search = "span_codec \<times> cursor_json \<times> SpanQuery \<times> span_db"

definition search_rows :: "search \<Rightarrow> span_row list" where
  "search_rows = (\<lambda>(c, j, q, db). filter (span_where q) (db_spans db))"

definition search_size :: "search \<Rightarrow> nat" where
  "search_size = (\<lambda>(c, j, q, db). nat (if sq_PageSize q = 0 then 50 else sq_PageSize q))"

definition search_view :: "search \<Rightarrow> span_row \<Rightarrow> Span" where
  "search_view = (\<lambda>(c, j, q, db) r. fst (the (scan_span c r)))"

definition search_tok :: "search \<Rightarrow> span_row \<Rightarrow> string" where
  "search_tok = (\<lambda>(c, j, q, db) r. EncodePageCursor j \<lparr>pc_Timestamp = snd (the (scan_span c r)), pc_ID = r_span_id r\<rparr>)"

text \<open>One call of a client that goes through the pages.\<close>

definition search_fetch :: "search \<Rightarrow> string \<Rightarrow> Span list \<times> string option" where
  "search_fetch = (\<lambda>(c, j, q, db) token.
     case sq_SearchSpans c j (\<lambda>_. False) (q\<lparr>sq_PageToken := token\<rparr>) db of
       Inl _ \<Rightarrow> ([], None)
     | Inr res \<Rightarrow> (sr_Spans res, if sr_NextPageToken res = [] then None else Some (sr_NextPageToken res)))"

definition search_ok :: "search \<Rightarrow> bool" where
  "search_ok = (\<lambda>(c, j, q, db).
     cursor_json_ok j \<and> 0 \<le> sq_PageSize q \<and> distinct (map span_key (filter (span_where q) (db_spans db))) \<and>
     list_all (\<lambda>r. row_ok r \<and> r_span_id r \<noteq> [] \<and> scan_span c r \<noteq> None) (db_spans db))"

lemma span_where_token [simp]: "span_where (q\<lparr>sq_PageToken := t\<rparr>) = span_where q"
  by (simp add: span_where_def fun_eq_iff)

lemma scan_start:
  assumes "row_ok r" and "scan_span c r \<noteq> None"
  shows "printable (snd (the (scan_span c r)))" and "FormatNano (snd (the (scan_span c r))) = r_start_time r"
    and "SpanID (fst (the (scan_span c r))) = r_span_id r"
proof -
  obtain z where z: "printable z" "r_start_time r = FormatNano z" using assms(1) by (auto simp: row_ok_def)
  then have p: "ParseNano (r_start_time r) = Some z" by (simp add: ParseNano_FormatNano)
  obtain sp z' where s: "scan_span c r = Some (sp, z')" using assms(2) by auto
  then have "z' = z" "SpanID sp = r_span_id r" by (auto simp: scan_span_def p split: bind_splits)
  then show "printable (snd (the (scan_span c r)))" "FormatNano (snd (the (scan_span c r))) = r_start_time r"
    "SpanID (fst (the (scan_span c r))) = r_span_id r"
    using z s by simp_all
qed

lemma last_take: "0 < k \<Longrightarrow> k \<le> length xs \<Longrightarrow> last (take k xs) = xs ! (k - 1)"
  by (subst last_conv_nth) auto

text \<open>The search in terms of the page size \<open>n\<close> and the rows \<open>rs\<close> behind the cursor.\<close>

lemma sq_SearchSpans_page:
  assumes "DecodePageCursor j token = Some cur" and "n = (if sq_PageSize q = 0 then 50 else sq_PageSize q)" and "0 < n"
    and "m = filter (span_where q) (db_spans db)"
    and "rs = (if pc_ID cur \<noteq> [] then filter (\<lambda>r. span_key r < cursor_text cur) m else m)"
    and "\<forall>r \<in> set rs. scan_span c r \<noteq> None"
  defines "ys \<equiv> map (the \<circ> scan_span c) (descending span_key rs)"
  shows "sq_SearchSpans c j (\<lambda>_. False) (q\<lparr>sq_PageToken := token\<rparr>) db =
    Inr \<lparr>sr_Spans = map fst (take (nat n) ys),
         sr_NextPageToken = (if nat n < length ys
           then EncodePageCursor j \<lparr>pc_Timestamp = snd (ys ! (nat n - 1)), pc_ID = SpanID (fst (ys ! (nat n - 1)))\<rparr> else []),
         sr_TotalCount = int (length m)\<rparr>"
proof -
  define zs where "zs = take (nat n + 1) ys"
  have fields: "sq_PageSize (q\<lparr>sq_PageToken := token\<rparr>) = sq_PageSize q" "sq_PageToken (q\<lparr>sq_PageToken := token\<rparr>) = token"
    by simp_all
  have lim: "sql_limit (n + 1) xs = take (nat n + 1) xs" for xs :: "span_row list"
    using assms(3) by (simp add: sql_limit_def nat_add_distrib)
  have scans: "scanSpans c (take (nat n + 1) (descending span_key rs)) = Some zs"
  proof -
    have "\<forall>r \<in> set (take (nat n + 1) (descending span_key rs)). scan_span c r \<noteq> None"
      using assms(6) set_take_subset [of "nat n + 1" "descending span_key rs"] unfolding set_descending by blast
    from scanSpans_total [OF this] show ?thesis by (simp add: zs_def ys_def take_map)
  qed
  have eq: "sq_SearchSpans c j (\<lambda>_. False) (q\<lparr>sq_PageToken := token\<rparr>) db =
    (if n < 0 then Inl SpanPanic
     else if n < int (length zs)
     then Inr \<lparr>sr_Spans = map fst (take (nat n) zs),
            sr_NextPageToken = EncodePageCursor j \<lparr>pc_Timestamp = snd (last (take (nat n) zs)), pc_ID = SpanID (fst (last (take (nat n) zs)))\<rparr>,
            sr_TotalCount = int (length m)\<rparr>
     else Inr \<lparr>sr_Spans = map fst zs, sr_NextPageToken = [], sr_TotalCount = int (length m)\<rparr>)"
    unfolding sq_SearchSpans_def
    by (simp only: fields span_where_token Let_def assms(1) assms(2) [symmetric] assms(4) [symmetric] assms(5) [symmetric]
        lim scans option.case simp_thms if_False)
  show ?thesis
  proof (cases "nat n < length ys")
    case True
    then have "n < int (length zs)" "take (nat n) zs = take (nat n) ys" "last (take (nat n) ys) = ys ! (nat n - 1)"
      using assms(3) by (auto simp: zs_def last_take)
    then show ?thesis using True assms(3) unfolding eq by simp
  next
    case False
    then have "zs = ys" "\<not> n < int (length zs)" "take (nat n) ys = ys" using assms(3) by (auto simp: zs_def)
    then show ?thesis using False assms(3) unfolding eq by simp
  qed
qed


lemma search_page:
  assumes ok: "search_ok (c, j, q, db)" and cur: "DecodePageCursor j token = Some cur"
    and rs: "rs = (if pc_ID cur \<noteq> [] then filter (\<lambda>r. span_key r < cursor_text cur) (search_rows (c, j, q, db)) else search_rows (c, j, q, db))"
  shows "search_fetch (c, j, q, db) token =
    map_prod (map (search_view (c, j, q, db))) id (keyset_page span_key (search_tok (c, j, q, db)) (search_size (c, j, q, db)) rs)"
proof -
  define n where "n = (if sq_PageSize q = 0 then 50 else sq_PageSize q)"
  define ys where "ys = descending span_key rs"
  have n: "0 < n" using ok by (auto simp: n_def search_ok_def)
  have sub: "set rs \<subseteq> set (db_spans db)" using rs by (auto simp: search_rows_def)
  have good: "row_ok r" "scan_span c r \<noteq> None" if "r \<in> set rs" for r
    using ok sub that by (auto simp: search_ok_def list_all_iff)
  have res: "sq_SearchSpans c j (\<lambda>_. False) (q\<lparr>sq_PageToken := token\<rparr>) db =
    Inr \<lparr>sr_Spans = map fst (take (nat n) (map (the \<circ> scan_span c) ys)),
         sr_NextPageToken = (if nat n < length (map (the \<circ> scan_span c) ys)
           then EncodePageCursor j \<lparr>pc_Timestamp = snd (map (the \<circ> scan_span c) ys ! (nat n - 1)),
                  pc_ID = SpanID (fst (map (the \<circ> scan_span c) ys ! (nat n - 1)))\<rparr> else []),
         sr_TotalCount = int (length (filter (span_where q) (db_spans db)))\<rparr>"
    unfolding ys_def by (rule sq_SearchSpans_page [OF cur n_def n refl]) (use rs good in \<open>simp_all add: search_rows_def\<close>)
  show ?thesis
  proof (cases "nat n < length ys")
    case False
    then show ?thesis
      by (simp add: search_fetch_def res keyset_page_def ys_def [symmetric] search_size_def n_def [symmetric] search_view_def comp_def)
  next
    case True
    define r where "r = ys ! (nat n - 1)"
    have r': "ys ! (nat n - Suc 0) = r" by (simp add: r_def)
    have "r \<in> set ys" unfolding r_def using True by (intro nth_mem) linarith
    then have "r \<in> set rs" by (simp add: ys_def)
    note g = scan_start [OF good(1) [OF this] good(2) [OF this]]
    have at: "map (the \<circ> scan_span c) ys ! (nat n - 1) = the (scan_span c r)"
      using True unfolding r_def by (subst nth_map) auto
    have "EncodePageCursor j \<lparr>pc_Timestamp = snd (the (scan_span c r)), pc_ID = r_span_id r\<rparr> \<noteq> []"
      using ok g(1) by (intro cursor_round_trip(2)) (simp_all add: search_ok_def)
    then show ?thesis
      using True g(3) at
      by (simp add: search_fetch_def res keyset_page_def ys_def [symmetric] search_size_def n_def [symmetric] search_view_def
          search_tok_def r' comp_def take_map Let_def)
  qed
qed

interpretation searches: keyset search_ok search_rows span_key search_size search_view search_fetch "[]" search_tok
proof
  fix q :: search assume ok: "search_ok q"
  obtain c j qq db where q: "q = (c, j, qq, db)" by (cases q)
  show "distinct (map span_key (search_rows q))" "0 < search_size q"
    using ok by (auto simp: q search_ok_def search_rows_def search_size_def)
  show "search_fetch q [] = map_prod (map (search_view q)) id (keyset_page span_key (search_tok q) (search_size q) (search_rows q))"
    unfolding q by (rule search_page [OF ok [unfolded q], of "[]" no_cursor]) (simp_all add: DecodePageCursor_def no_cursor_def)
  fix r assume r: "r \<in> set (search_rows q)"
  then have g: "row_ok r" "r_span_id r \<noteq> []" "scan_span c r \<noteq> None"
    using ok by (auto simp: q search_ok_def search_rows_def list_all_iff)
  note s = scan_start [OF g(1,3)]
  let ?cur = "\<lparr>pc_Timestamp = snd (the (scan_span c r)), pc_ID = r_span_id r\<rparr>"
  have "DecodePageCursor j (search_tok q r) = Some ?cur"
    unfolding q search_tok_def prod.case using ok s(1) by (intro cursor_round_trip(1)) (simp_all add: q search_ok_def)
  moreover have "cursor_text ?cur = span_key r" by (simp add: cursor_text_def s(2) span_key_def)
  ultimately show "search_fetch q (search_tok q r) =
      map_prod (map (search_view q)) id (keyset_page span_key (search_tok q) (search_size q) (filter (\<lambda>x. span_key x < span_key r) (search_rows q)))"
    unfolding q by (intro search_page [OF ok [unfolded q], of _ ?cur]) (use g in simp_all)
qed



text \<open>A concrete encoding of cursors: the length of the id in unary, the id, the time.\<close>

definition demo_json :: cursor_json where
  "demo_json = \<lparr>cj_Marshal = (\<lambda>c. replicate (length (pc_ID c)) (CHR ''a'') @ CHR ''b'' # pc_ID c @ FormatNano (pc_Timestamp c)),
     cj_Unmarshal = (\<lambda>s. let n = length (takeWhile (\<lambda>x. x = CHR ''a'') s); r = drop (n + 1) s
        in map_option (\<lambda>z. \<lparr>pc_Timestamp = z, pc_ID = take n r\<rparr>) (ParseNano (drop n r)))\<rparr>"

lemma demo_json_ok: "cursor_json_ok demo_json"
proof -
  have tw: "takeWhile (\<lambda>x. x = CHR ''a'') (replicate n (CHR ''a'') @ CHR ''b'' # s) = replicate n (CHR ''a'')" for n s
    by (subst takeWhile_append2) simp_all
  show ?thesis
    by (simp add: cursor_json_ok_def demo_json_def tw ParseNano_FormatNano Let_def)
qed

definition day_query :: SpanQuery where
  "day_query =
     \<lparr>sq_ProjectID = [], sq_StartTime = (0, 0), sq_EndTime = (200000000000000000000, 0), sq_Kind = SpanKindUnspecified, sq_Model = [],
      sq_NameContains = ''CHA'', sq_PageSize = 1, sq_PageToken = [], sq_UserID = [], sq_TenantID = []\<rparr>"

definition demo_db :: span_db where
  "demo_db = snd (sq_IngestSpans demo_codec calm_env
     [plain_span ''t'' ''a'' 63900000000000000000, plain_span ''t'' ''b'' 63900000001000000000] empty_db)"

lemma demo_db_ok: "db_ok demo_db"
  unfolding demo_db_def by (rule db_ok_ingest) (simp add: db_ok_def empty_db_def)

lemma demo_search_ok: "search_ok (demo_codec, demo_json, day_query, demo_db)"
proof -
  have "list_all (\<lambda>r. r_span_id r \<noteq> [] \<and> scan_span demo_codec r \<noteq> None) (db_spans demo_db)"
    "distinct (map span_key (filter (span_where day_query) (db_spans demo_db)))" "0 \<le> sq_PageSize day_query"
    by code_simp+
  then show ?thesis using demo_json_ok demo_db_ok by (auto simp: search_ok_def db_ok_def list_all_iff)
qed

lemma demo_search_rows:
  "map (search_view (demo_codec, demo_json, day_query, demo_db)) (descending span_key (filter (span_where day_query) (db_spans demo_db))) =
     [plain_span ''t'' ''b'' 63900000001000000000, plain_span ''t'' ''a'' 63900000000000000000]"
  by code_simp


end
