(* ===== verification/TraceList.thy ===== *)
theory TraceList
  imports SpanLaws
begin

text \<open>
  The aggregating queries of the SQLite span store: exact paging of the trace list in its default order, and
  totals that add up.  Two places where the code does not do what its callers expect are shown too: pages
  ordered by cost lose traces, and a span recorded in a zone east of UTC is outside of a UTC range that contains
  its instant.
\<close>

section \<open>Pages of the trace list\<close>

type_synonym listing = "sql_floats \<times> cursor_json \<times> TraceQuery \<times> span_db"

definition list_groups :: "listing \<Rightarrow> (string \<times> span_row list) list" where
  "list_groups = (\<lambda>(fl, j, q, db). filter (\<lambda>g. status_having q (snd g)) (group_by r_trace_id (trace_rows q db)))"

definition list_size :: "listing \<Rightarrow> nat" where
  "list_size = (\<lambda>(fl, j, q, db). nat (if tq_PageSize q = 0 then 50 else tq_PageSize q))"

definition list_view :: "listing \<Rightarrow> string \<times> span_row list \<Rightarrow> TraceSummary" where
  "list_view = (\<lambda>(fl, j, q, db) g. the (trace_summary fl q db g))"

definition list_tok :: "listing \<Rightarrow> string \<times> span_row list \<Rightarrow> string" where
  "list_tok = (\<lambda>(fl, j, q, db) g.
     EncodePageCursor j \<lparr>pc_Timestamp = parse_or_zero (text_min r_start_time (snd g)), pc_ID = fst g\<rparr>)"

definition list_fetch :: "listing \<Rightarrow> string \<Rightarrow> TraceSummary list \<times> string option" where
  "list_fetch = (\<lambda>(fl, j, q, db) token.
     case sq_QueryTraces fl j (\<lambda>_. False) (q\<lparr>tq_PageToken := token\<rparr>) db of
       Inl _ \<Rightarrow> ([], None)
     | Inr res \<Rightarrow> (tr_Traces res, if tr_NextPageToken res = [] then None else Some (tr_NextPageToken res)))"

text \<open>Newest first is the default order, and the one of \<^verbatim>\<open>start_time\<close> descending.\<close>

definition newest_first :: "TraceQuery \<Rightarrow> bool" where
  "newest_first q \<longleftrightarrow> tq_OrderBy q \<notin> set order_cols \<or> tq_OrderBy q = ''start_time'' \<and> tq_Descending q"

definition list_ok :: "listing \<Rightarrow> bool" where
  "list_ok = (\<lambda>(fl, j, q, db).
     cursor_json_ok j \<and> 0 \<le> tq_PageSize q \<and> newest_first q \<and> list_all (\<lambda>r. row_ok r \<and> r_trace_id r \<noteq> []) (db_spans db) \<and>
     list_all (\<lambda>g. sum_int (map r_total_tokens (snd g)) \<noteq> None) (group_by r_trace_id (trace_rows q db)))"

lemma insort_key_cong:
  "(\<And>y. y \<in> set xs \<Longrightarrow> f x \<le> f y \<longleftrightarrow> g x \<le> g y) \<Longrightarrow> insort_key f x xs = insort_key g x xs"
  by (induction xs) auto

lemma sort_key_cong:
  assumes "\<And>x y. f x \<le> f y \<longleftrightarrow> g x \<le> g y"
  shows "sort_key f xs = sort_key g xs"
  by (induction xs) (simp_all add: insort_key_cong [of _ f _ g] assms)

lemma sort_key_map: "sort_key fst (map (\<lambda>x. (h x, x)) xs) = map (\<lambda>x. (h x, x)) (sort_key h xs)"
proof -
  have "insort_key fst (h x, x) (map (\<lambda>x. (h x, x)) ys) = map (\<lambda>x. (h x, x)) (insort_key h x ys)" for x ys
    by (induction ys) auto
  then show ?thesis by (induction xs) simp_all
qed

lemma descending_keyed: "descending fst (map (\<lambda>x. (h x, x)) xs) = map (\<lambda>x. (h x, x)) (descending h xs)"
  by (simp add: descending_def sort_key_map rev_map)

lemma descending_cong: "(\<And>x y. f x \<le> f y \<longleftrightarrow> g x \<le> g y) \<Longrightarrow> descending f xs = descending g xs"
  unfolding descending_def by (subst sort_key_cong [of f g]) simp_all

lemma fold_min_in: "fold min xs x \<in> set (x # (xs :: 'a :: linorder list))"
proof (induction xs arbitrary: x)
  case (Cons a xs)
  from Cons.IH [of "min a x"] show ?case by (auto simp: min_def split: if_splits)
qed simp

lemma text_min_in: "rs \<noteq> [] \<Longrightarrow> \<exists>r \<in> set rs. text_min f rs = f r"
  using fold_min_in [of "map f (tl rs)" "f (hd rs)"] by (cases rs) (auto simp: text_min_def)

lemma group_members: "(k, rs) \<in> set (group_by key rows) \<Longrightarrow> rs \<noteq> [] \<and> set rs \<subseteq> set rows \<and> (\<forall>r \<in> set rs. key r = k)"
  by (auto simp: group_by_def filter_empty_conv)

lemma group_keys: "distinct (map fst (group_by key rows))"
  by (simp add: group_by_def comp_def)

lemma trace_rows_sub: "set (trace_rows q db) \<subseteq> set (db_spans db)"
  by (auto simp: trace_rows_def Let_def)

lemma list_group_start:
  assumes "list_ok (fl, j, q, db)" and "g \<in> set (list_groups (fl, j, q, db))"
  shows "printable (parse_or_zero (text_min r_start_time (snd g)))"
    and "FormatNano (parse_or_zero (text_min r_start_time (snd g))) = text_min r_start_time (snd g)"
    and "fst g \<noteq> []" and "trace_summary fl q db g \<noteq> None"
proof -
  have "(fst g, snd g) \<in> set (group_by r_trace_id (trace_rows q db))" using assms(2) by (simp add: list_groups_def)
  note m = group_members [OF this]
  then obtain r where r: "r \<in> set (snd g)" "text_min r_start_time (snd g) = r_start_time r" "r_trace_id r = fst g"
    using text_min_in by blast
  have "r \<in> set (db_spans db)" using r(1) m trace_rows_sub [of q db] by blast
  then have ok: "row_ok r" "r_trace_id r \<noteq> []" using assms(1) by (simp_all add: list_ok_def list_all_iff)
  then obtain z where "printable z" "r_start_time r = FormatNano z" by (auto simp: row_ok_def)
  then show "printable (parse_or_zero (text_min r_start_time (snd g)))"
    "FormatNano (parse_or_zero (text_min r_start_time (snd g))) = text_min r_start_time (snd g)"
    by (simp_all add: r(2) parse_or_zero_def ParseNano_FormatNano)
  show "fst g \<noteq> []" using ok r(3) by simp
  have "sum_int (map r_total_tokens (snd g)) \<noteq> None"
    using assms by (auto simp: list_ok_def list_groups_def list_all_iff)
  then show "trace_summary fl q db g \<noteq> None" by (auto simp: trace_summary_def Let_def)
qed

lemma trace_summary_fields:
  "trace_summary fl q db g \<noteq> None \<Longrightarrow>
     ts_StartTime (the (trace_summary fl q db g)) = parse_or_zero (text_min r_start_time (snd g)) \<and> ts_TraceID (the (trace_summary fl q db g)) = fst g"
  by (auto simp: trace_summary_def Let_def split: option.splits)


lemma order_expr_newest:
  assumes "newest_first q"
  shows "order_expr fl (tq_OrderBy q) rs = Some (text_min r_start_time rs, 0, 0)"
  using assms by (auto simp: newest_first_def order_expr_def order_cols_def)

lemma filters_token [simp]:
  "buildTraceBaseFilters (q\<lparr>tq_PageToken := t\<rparr>) = buildTraceBaseFilters q"
  "span_filter (q\<lparr>tq_PageToken := t\<rparr>) = span_filter q"
  "has_span_filter (q\<lparr>tq_PageToken := t\<rparr>) = has_span_filter q"
  by (simp_all add: fun_eq_iff buildTraceBaseFilters_def span_filter_def has_span_filter_def)

text \<open>The listing in terms of the page size and the groups \<open>gs\<close> behind the cursor.\<close>

lemma sq_QueryTraces_page:
  assumes cur: "DecodePageCursor j token = Some cur" and n: "n = (if tq_PageSize q = 0 then 50 else tq_PageSize q)" "0 < n"
    and nf: "newest_first q" and m: "m = list_groups (fl, j, q, db)"
    and gs: "gs = (if pc_ID cur = [] then m else filter (\<lambda>g. trace_key g < cursor_text cur) m)"
    and total: "\<forall>g \<in> set gs. trace_summary fl q db g \<noteq> None"
  defines "ys \<equiv> map (the \<circ> trace_summary fl q db) (descending trace_key gs)"
  shows "sq_QueryTraces fl j (\<lambda>_. False) (q\<lparr>tq_PageToken := token\<rparr>) db =
    Inr \<lparr>tr_Traces = take (nat n) ys,
         tr_NextPageToken = (if nat n < length ys
           then EncodePageCursor j \<lparr>pc_Timestamp = ts_StartTime (ys ! (nat n - 1)), pc_ID = ts_TraceID (ys ! (nat n - 1))\<rparr> else []),
         tr_TotalCount = int (length m)\<rparr>"
proof -
  let ?q = "q\<lparr>tq_PageToken := token\<rparr>"
  define zs where "zs = take (nat n + 1) ys"
  define h where "h = (\<lambda>g :: string \<times> span_row list. ((text_min r_start_time (snd g), 0 :: int, 0 :: rat), fst g))"
  have fields: "tq_PageSize ?q = tq_PageSize q" "tq_PageToken ?q = token" "tq_OrderBy ?q = tq_OrderBy q" "tq_Descending ?q = tq_Descending q"
    "trace_summary fl ?q db = trace_summary fl q db" "status_having ?q = status_having q" "trace_rows ?q db = trace_rows q db"
    by (simp_all add: fun_eq_iff trace_summary_def model_rows_def status_having_def trace_rows_def Let_def cong: option.case_cong)
  have asc: "(tq_OrderBy q \<in> set order_cols \<and> \<not> tq_Descending q) = False" using nf by (auto simp: newest_first_def)
  have keyed: "those (map (\<lambda>g. map_option (\<lambda>k. ((k, fst g), g)) (order_expr fl (tq_OrderBy q) (snd g))) gs) = Some (map (\<lambda>g. (h g, g)) gs)"
    by (simp add: order_expr_newest [OF nf] those_Some_iff h_def comp_def)
  have ordered: "descending fst (map (\<lambda>g. (h g, g)) gs) = map (\<lambda>g. (h g, g)) (descending trace_key gs)"
    unfolding descending_keyed by (subst descending_cong [of h trace_key]) (auto simp: h_def trace_key_def less_eq_prod_def)
  have lim: "sql_limit (n + 1) xs = take (nat n + 1) xs" for xs :: "(((string \<times> int \<times> rat) \<times> string) \<times> string \<times> span_row list) list"
    using n(2) by (simp add: sql_limit_def nat_add_distrib)
  have sums: "those (map (trace_summary fl q db \<circ> snd) (take (nat n + 1) (map (\<lambda>g. (h g, g)) (descending trace_key gs)))) = Some zs"
  proof -
    have "\<forall>g \<in> set (take (nat n + 1) (descending trace_key gs)). trace_summary fl q db g \<noteq> None"
      using total set_take_subset [of "nat n + 1" "descending trace_key gs"] unfolding set_descending by blast
    then show ?thesis by (auto simp: those_Some_iff zs_def ys_def take_map comp_def)
  qed
  have m': "filter (\<lambda>g. status_having q (snd g)) (group_by r_trace_id (trace_rows q db)) = m"
    by (simp add: m list_groups_def)
  have eq: "sq_QueryTraces fl j (\<lambda>_. False) ?q db =
    (if n < 0 then Inl SpanPanic
     else if n < int (length zs)
     then Inr \<lparr>tr_Traces = take (nat n) zs,
            tr_NextPageToken = EncodePageCursor j \<lparr>pc_Timestamp = ts_StartTime (last (take (nat n) zs)), pc_ID = ts_TraceID (last (take (nat n) zs))\<rparr>,
            tr_TotalCount = int (length m)\<rparr>
     else Inr \<lparr>tr_Traces = zs, tr_NextPageToken = [], tr_TotalCount = int (length m)\<rparr>)"
    unfolding sq_QueryTraces_def
    by (simp only: fields Let_def cur n(1) [symmetric] asc m' gs [symmetric] keyed ordered lim sums option.case simp_thms if_False)
  show ?thesis
  proof (cases "nat n < length ys")
    case True
    then have "n < int (length zs)" "take (nat n) zs = take (nat n) ys" "last (take (nat n) ys) = ys ! (nat n - 1)"
      using n(2) by (auto simp: zs_def last_take)
    then show ?thesis using True n(2) unfolding eq by simp
  next
    case False
    then have "zs = ys" "\<not> n < int (length zs)" "take (nat n) ys = ys" using n(2) by (auto simp: zs_def)
    then show ?thesis using False n(2) unfolding eq by simp
  qed
qed

lemma list_page:
  assumes ok: "list_ok (fl, j, q, db)" and cur: "DecodePageCursor j token = Some cur"
    and gs: "gs = (if pc_ID cur = [] then list_groups (fl, j, q, db) else filter (\<lambda>g. trace_key g < cursor_text cur) (list_groups (fl, j, q, db)))"
  shows "list_fetch (fl, j, q, db) token =
    map_prod (map (list_view (fl, j, q, db))) id (keyset_page trace_key (list_tok (fl, j, q, db)) (list_size (fl, j, q, db)) gs)"
proof -
  define n where "n = (if tq_PageSize q = 0 then 50 else tq_PageSize q)"
  define ys where "ys = descending trace_key gs"
  have n: "0 < n" using ok by (auto simp: n_def list_ok_def)
  have good: "g \<in> set (list_groups (fl, j, q, db))" if "g \<in> set ys" for g
    using that gs by (auto simp: ys_def split: if_splits)
  note start = list_group_start [OF ok good]
  have res: "sq_QueryTraces fl j (\<lambda>_. False) (q\<lparr>tq_PageToken := token\<rparr>) db =
    Inr \<lparr>tr_Traces = take (nat n) (map (the \<circ> trace_summary fl q db) ys),
         tr_NextPageToken = (if nat n < length (map (the \<circ> trace_summary fl q db) ys)
           then EncodePageCursor j \<lparr>pc_Timestamp = ts_StartTime (map (the \<circ> trace_summary fl q db) ys ! (nat n - 1)),
                  pc_ID = ts_TraceID (map (the \<circ> trace_summary fl q db) ys ! (nat n - 1))\<rparr> else []),
         tr_TotalCount = int (length (list_groups (fl, j, q, db)))\<rparr>"
    unfolding ys_def
    by (rule sq_QueryTraces_page [OF cur n_def n _ refl gs]) (use ok start(4) in \<open>simp_all add: list_ok_def ys_def\<close>)
  show ?thesis
  proof (cases "nat n < length ys")
    case False
    then show ?thesis
      by (simp add: list_fetch_def res keyset_page_def ys_def [symmetric] list_size_def n_def [symmetric] list_view_def comp_def)
  next
    case True
    define g where "g = ys ! (nat n - 1)"
    have g': "ys ! (nat n - Suc 0) = g" by (simp add: g_def)
    have "g \<in> set ys" unfolding g_def using True by (intro nth_mem) linarith
    note st = start [OF this]
    have at: "map (the \<circ> trace_summary fl q db) ys ! (nat n - 1) = the (trace_summary fl q db g)"
      using True unfolding g_def by (subst nth_map) auto
    have "EncodePageCursor j \<lparr>pc_Timestamp = parse_or_zero (text_min r_start_time (snd g)), pc_ID = fst g\<rparr> \<noteq> []"
      using ok st(1) by (intro cursor_round_trip(2)) (simp_all add: list_ok_def)
    then show ?thesis
      using True at trace_summary_fields [OF st(4)]
      by (simp add: list_fetch_def res keyset_page_def ys_def [symmetric] list_size_def n_def [symmetric] list_view_def
          list_tok_def g' comp_def take_map Let_def)
  qed
qed

interpretation listings: keyset list_ok list_groups trace_key list_size list_view list_fetch "[]" list_tok
proof
  fix q :: listing assume ok: "list_ok q"
  obtain fl j qq db where q: "q = (fl, j, qq, db)" by (cases q)
  have "distinct (map fst (list_groups q))"
    using group_keys [of r_trace_id "trace_rows qq db"] by (simp add: q list_groups_def distinct_map_filter)
  then have "distinct (map (snd \<circ> trace_key) (list_groups q))" by (simp add: trace_key_def comp_def)
  then show "distinct (map trace_key (list_groups q))" by (simp only: map_map [symmetric] distinct_map)
  show "0 < list_size q" using ok by (auto simp: q list_ok_def list_size_def)
  show "list_fetch q [] = map_prod (map (list_view q)) id (keyset_page trace_key (list_tok q) (list_size q) (list_groups q))"
    unfolding q by (rule list_page [OF ok [unfolded q], of "[]" no_cursor]) (simp_all add: DecodePageCursor_def no_cursor_def)
  fix g assume g: "g \<in> set (list_groups q)"
  note st = list_group_start [OF ok [unfolded q] g [unfolded q]]
  let ?cur = "\<lparr>pc_Timestamp = parse_or_zero (text_min r_start_time (snd g)), pc_ID = fst g\<rparr>"
  have "DecodePageCursor j (list_tok q g) = Some ?cur"
    unfolding q list_tok_def prod.case using ok st(1) by (intro cursor_round_trip(1)) (simp_all add: q list_ok_def)
  moreover have "cursor_text ?cur = trace_key g" by (simp add: cursor_text_def st(2) trace_key_def)
  ultimately show "list_fetch q (list_tok q g) =
      map_prod (map (list_view q)) id (keyset_page trace_key (list_tok q) (list_size q) (filter (\<lambda>x. trace_key x < trace_key g) (list_groups q)))"
    unfolding q by (intro list_page [OF ok [unfolded q], of _ ?cur]) (use st in simp_all)
qed



definition demo_floats :: sql_floats where
  "demo_floats = \<lparr>fl_sum = (\<lambda>xs. foldr (+) xs 0), fl_avg = (\<lambda>_. 0)\<rparr>"

definition demo_list :: TraceQuery where
  "demo_list =
     \<lparr>tq_ProjectID = [], tq_Environment = [], tq_StartTime = (0, 0), tq_EndTime = (200000000000000000000, 0), tq_Model = [],
      tq_Provider = [], tq_Status = SpanStatusUnspecified, tq_Search = [], tq_OrderBy = [], tq_Descending = True, tq_PageSize = 1,
      tq_PageToken = [], tq_UserID = [], tq_TenantID = [], tq_JobID = []\<rparr>"

definition model_call :: "string \<Rightarrow> string \<Rightarrow> span_row" where
  "model_call trace start = to_row demo_codec (\<lambda>_. 0) (plain_span trace ''s'' 0)\<lparr>r_start_time := start, r_end_time := start\<rparr>"

definition two_traces :: span_db where
  "two_traces = \<lparr>db_spans = [model_call ''t1'' ''2025-11-29T08:00:00Z'', model_call ''t2'' ''2025-11-29T08:00:01Z''], db_outbox = []\<rparr>"

lemma two_times: "FormatNano (63900000000000000000, 0) = ''2025-11-29T08:00:00Z''" "FormatNano (63900000001000000000, 0) = ''2025-11-29T08:00:01Z''"
  "printable (63900000000000000000, 0)" "printable (63900000001000000000, 0)"
  by code_simp+

lemma model_call_simps:
  "r_start_time (model_call t s) = s" "r_trace_id (model_call t s) = t" "r_total_tokens (model_call t s) = 0"
  "r_project_id (model_call t s) = ''p''" "r_status (model_call t s) = 1" "r_user_id (model_call t s) = ''u''"
  "r_tenant_id (model_call t s) = []" "r_environment (model_call t s) = []" "r_end_time (model_call t s) = s" "r_cost_usd (model_call t s) = 0"
  by (simp_all add: model_call_def to_row_def plain_span_def genai_of_def no_genai_def Let_def)

lemma model_call_ok: "row_ok (model_call t ''2025-11-29T08:00:00Z'')" "row_ok (model_call t ''2025-11-29T08:00:01Z'')"
  unfolding row_ok_def model_call_simps using two_times by (auto simp: is_finite_def zero_f64_def) metis+

lemma range_texts: "FormatNano (0, 0) = ''0001-01-01T00:00:00Z''" "FormatNano (200000000000000000000, 0) = ''6338-10-01T19:33:20Z''"
  by code_simp+

lemma two_traces_rows: "trace_rows demo_list two_traces = db_spans two_traces"
  unfolding trace_rows_def two_traces_def buildTraceBaseFilters_def [abs_def] in_range_def
  by (simp add: has_span_filter_def demo_list_def opt_eq_def range_texts model_call_simps)

lemma demo_list_simps: "newest_first demo_list" "tq_PageSize demo_list = 1" "status_having demo_list rs"
  by (simp_all add: newest_first_def demo_list_def order_cols_def status_having_def)

lemma two_traces_ok: "list_ok (demo_floats, demo_json, demo_list, two_traces)"
proof -
  have "sum_int (map r_total_tokens (snd g)) \<noteq> None" if "g \<in> set (group_by r_trace_id (db_spans two_traces))" for g
    using that by (auto simp: group_by_def two_traces_def model_call_simps sum_int_def in_i64_def)
  then show ?thesis
    using demo_json_ok model_call_ok by (simp add: list_ok_def two_traces_rows list_all_iff demo_list_simps)
      (simp add: two_traces_def model_call_simps)
qed

lemma two_traces_listed:
  "map fst (descending trace_key (list_groups (demo_floats, demo_json, demo_list, two_traces))) = [''t2'', ''t1'']"
proof -
  have "list_groups (demo_floats, demo_json, demo_list, two_traces) =
      [(''t1'', [model_call ''t1'' ''2025-11-29T08:00:00Z'']), (''t2'', [model_call ''t2'' ''2025-11-29T08:00:01Z''])]"
    by (simp add: list_groups_def two_traces_rows group_by_def demo_list_simps) (simp add: two_traces_def model_call_simps)
  then show ?thesis
    by (simp add: descending_def trace_key_def text_min_def model_call_simps)
qed


lemma in_set_mapD: "y \<in> set (map f xs) \<Longrightarrow> \<exists>x \<in> set xs. f x = y"
  by auto

text \<open>
  The cursor compares start times whatever the order of the list is.  In a list ordered by cost every later page is
  restricted to traces that started before the last trace of the page before: cheaper traces that started after
  it are on no page.
\<close>

lemma cursor_ignores_order:
  assumes "DecodePageCursor j (tq_PageToken q) = Some cur" and "pc_ID cur \<noteq> []" and "tq_Descending q"
    and "sq_QueryTraces fl j (\<lambda>_. False) q db = Inr res" and "t \<in> set (tr_Traces res)"
  shows "\<exists>g \<in> set (list_groups (fl, j, q, db)). trace_summary fl q db g = Some t \<and> trace_key g < cursor_text cur"
proof -
  define n where "n = (if tq_PageSize q = 0 then 50 else tq_PageSize q)"
  define gs where "gs = filter (\<lambda>g. trace_key g < cursor_text cur) (list_groups (fl, j, q, db))"
  define next_tok where "next_tok traces = EncodePageCursor j
      \<lparr>pc_Timestamp = ts_StartTime (last (take (nat n) traces)), pc_ID = ts_TraceID (last (take (nat n) traces))\<rparr>" for traces :: "TraceSummary list"
  have asc: "(tq_OrderBy q \<in> set order_cols \<and> \<not> tq_Descending q) = False" and id: "(pc_ID cur = []) = False"
    using assms by simp_all
  have m: "filter (\<lambda>g. status_having q (snd g)) (group_by r_trace_id (trace_rows q db)) = list_groups (fl, j, q, db)"
    by (simp add: list_groups_def)
  have eq: "sq_QueryTraces fl j (\<lambda>_. False) q db =
      (case those (map (\<lambda>g. map_option (\<lambda>k. ((k, fst g), g)) (order_expr fl (tq_OrderBy q) (snd g))) gs) of
         None \<Rightarrow> Inl SpanDBError
       | Some keyed \<Rightarrow>
           (case those (map (trace_summary fl q db \<circ> snd) (sql_limit (n + 1) (descending fst keyed))) of
             None \<Rightarrow> Inl SpanDBError
           | Some traces \<Rightarrow>
               if n < 0 then Inl SpanPanic
               else if n < int (length traces)
               then Inr \<lparr>tr_Traces = take (nat n) traces, tr_NextPageToken = next_tok traces, tr_TotalCount = int (length (list_groups (fl, j, q, db)))\<rparr>
               else Inr \<lparr>tr_Traces = traces, tr_NextPageToken = [], tr_TotalCount = int (length (list_groups (fl, j, q, db)))\<rparr>))"
    unfolding sq_QueryTraces_def
    by (simp only: Let_def assms(1) n_def [symmetric] asc id m gs_def [symmetric] next_tok_def option.case simp_thms if_False)
  obtain keyed where k: "those (map (\<lambda>g. map_option (\<lambda>k. ((k, fst g), g)) (order_expr fl (tq_OrderBy q) (snd g))) gs) = Some keyed"
    using assms(4) unfolding eq by (fastforce split: option.splits)
  obtain traces where t: "those (map (trace_summary fl q db \<circ> snd) (sql_limit (n + 1) (descending fst keyed))) = Some traces"
    using assms(4) unfolding eq k by (fastforce split: option.splits)
  have res: "set (tr_Traces res) \<subseteq> set traces"
    using assms(4) set_take_subset [of "nat n" traces] unfolding eq k option.case t by (auto split: if_splits)
  have "set keyed \<subseteq> {p. snd p \<in> set gs}"
  proof
    fix p assume "p \<in> set keyed"
    then have "Some p \<in> set (map (\<lambda>g. map_option (\<lambda>k. ((k, fst g), g)) (order_expr fl (tq_OrderBy q) (snd g))) gs)"
      using k unfolding those_Some_iff by simp
    from in_set_mapD [OF this] obtain g where "g \<in> set gs"
      and "map_option (\<lambda>k. ((k, fst g), g)) (order_expr fl (tq_OrderBy q) (snd g)) = Some p" by blast
    then show "p \<in> {p. snd p \<in> set gs}" by auto
  qed
  moreover obtain p where "p \<in> set keyed" and p: "trace_summary fl q db (snd p) = Some t"
  proof -
    have "Some t \<in> set (map Some traces)" using assms(5) res by auto
    then have "Some t \<in> set (map (trace_summary fl q db \<circ> snd) (sql_limit (n + 1) (descending fst keyed)))"
      using t unfolding those_Some_iff by simp
    from in_set_mapD [OF this] obtain p where p: "p \<in> set (sql_limit (n + 1) (descending fst keyed))" "trace_summary fl q db (snd p) = Some t"
      unfolding comp_def by blast
    have "p \<in> set keyed" using p(1) by (auto simp: sql_limit_def split: if_splits dest: in_set_takeD)
    then show thesis using p(2) by (rule that)
  qed
  ultimately have "snd p \<in> set gs" by blast
  then show ?thesis using p unfolding gs_def by (intro bexI [of _ "snd p"]) simp_all
qed

text \<open>
  A span recorded at noon UTC by a process two hours east of UTC is outside of the range from eleven to one o'clock
  that a client asks for in UTC: the texts \<open>14:00:00+02:00\<close> and \<open>13:00:00Z\<close> are compared.
\<close>

lemma zone_hides_span:
  "\<not> in_range (63902001600000000000 - 3600000000000, 0) (63902001600000000000 + 3600000000000, 0)
     (to_row c (\<lambda>_. 7200) (plain_span ''t'' ''a'' 63902001600000000000))"
proof -
  have "FormatNano (63902001600000000000 + 3600000000000, 0) < FormatNano (63902001600000000000, 7200)" by code_simp
  then show ?thesis by (simp add: in_range_def to_row_def plain_span_def Let_def not_le)
qed

section \<open>Totals\<close>

lemma those_map_eq: "those (map f xs) = Some ys \<Longrightarrow> map f xs = map Some ys"
  by (simp add: those_Some_iff)

lemma breakdown_groups:
  assumes "sq_GetModelBreakdown fl flt q db = Inr ms"
  shows "map (model_usage fl) (descending (\<lambda>g. real_key (fl_sum fl (map r_cost_usd (snd g))))
      (group_by (\<lambda>r. (r_model r, r_provider r)) (filter (\<lambda>r. usage_where q r \<and> r_model r \<noteq> []) (db_spans db)))) = map Some ms"
  using assms unfolding sq_GetModelBreakdown_def by (auto simp: Let_def dest: those_map_eq split: if_splits option.splits)

lemma model_usage_sums:
  assumes "model_usage fl g = Some m"
  shows "mu_CallCount m = (\<Sum>r \<leftarrow> snd g. 1)" and "mu_InputTokens m = (\<Sum>r \<leftarrow> snd g. r_input_tokens r)"
    and "mu_OutputTokens m = (\<Sum>r \<leftarrow> snd g. r_output_tokens r)"
  using assms by (auto simp: model_usage_def Let_def sum_list_triv dest!: sum_int_Some split: option.splits)

lemma sum_list_descending: "(\<Sum>g \<leftarrow> descending key xs. f g) = (\<Sum>g \<leftarrow> xs. (f g :: int))"
proof -
  have ins: "(\<Sum>g \<leftarrow> insort_key key x ys. f g) = f x + (\<Sum>g \<leftarrow> ys. f g)" for x ys by (induction ys) simp_all
  have "(\<Sum>g \<leftarrow> sort_key key xs. f g) = (\<Sum>g \<leftarrow> xs. f g)" by (induction xs) (simp_all add: ins)
  then show ?thesis by (simp add: descending_def rev_map [symmetric] sum_list_rev)
qed

lemma sum_list_split: "(\<Sum>r \<leftarrow> xs. (f r :: int)) = (\<Sum>r \<leftarrow> filter P xs. f r) + (\<Sum>r \<leftarrow> filter (\<lambda>r. \<not> P r) xs. f r)"
  by (induction xs) simp_all

text \<open>
  C39: The usage by model accounts for every token of the usage summary: the summary is the sum over the models plus the
  tokens of the spans that name no model, and the calls of the models are the spans that name one.
\<close>

theorem breakdown_adds_up:
  assumes "sq_GetUsageSummary fl False q db = Inr u" and "sq_GetModelBreakdown fl False q db = Inr ms"
  shows "let unnamed = filter (\<lambda>r. r_model r = []) (filter (usage_where q) (db_spans db))
    in us_TotalSpans u = (\<Sum>m \<leftarrow> ms. mu_CallCount m) + int (length unnamed) \<and>
      us_TotalInputTokens u = (\<Sum>m \<leftarrow> ms. mu_InputTokens m) + (\<Sum>r \<leftarrow> unnamed. r_input_tokens r) \<and>
      us_TotalOutputTokens u = (\<Sum>m \<leftarrow> ms. mu_OutputTokens m) + (\<Sum>r \<leftarrow> unnamed. r_output_tokens r)"
  unfolding Let_def
proof (intro conjI)
  let ?unnamed = "filter (\<lambda>r. r_model r = []) (filter (usage_where q) (db_spans db))"
  define rows where "rows = filter (usage_where q) (db_spans db)"
  define gs where "gs = group_by (\<lambda>r. (r_model r, r_provider r)) (filter (\<lambda>r. r_model r \<noteq> []) rows)"
  have u: "us_TotalSpans u = (\<Sum>r \<leftarrow> rows. 1)" "us_TotalInputTokens u = (\<Sum>r \<leftarrow> rows. r_input_tokens r)"
    "us_TotalOutputTokens u = (\<Sum>r \<leftarrow> rows. r_output_tokens r)"
    using assms(1) by (auto simp: sq_GetUsageSummary_def Let_def rows_def sum_list_triv dest!: sum_int_Some split: option.splits)
  define ds where "ds = descending (\<lambda>g. real_key (fl_sum fl (map r_cost_usd (snd g)))) gs"
  have ms: "map (model_usage fl) ds = map Some ms"
    using breakdown_groups [OF assms(2)] by (simp add: ds_def gs_def rows_def filter_filter conj_commute)
  have total: "(\<Sum>m \<leftarrow> ms. F m) = (\<Sum>r \<leftarrow> filter (\<lambda>r. r_model r \<noteq> []) rows. f r)"
    if "\<And>g m. model_usage fl g = Some m \<Longrightarrow> F m = (\<Sum>r \<leftarrow> snd g. f r)" for F :: "ModelUsage \<Rightarrow> int" and f
  proof -
    have "list_all2 (\<lambda>g m. model_usage fl g = Some m) ds ms"
      using ms by (auto simp: list_all2_conv_all_nth list_eq_iff_nth_eq)
    then have "(\<Sum>m \<leftarrow> ms. F m) = (\<Sum>g \<leftarrow> ds. \<Sum>r \<leftarrow> snd g. f r)"
      by (induction rule: list_all2_induct) (simp_all add: that)
    also have "\<dots> = (\<Sum>r \<leftarrow> filter (\<lambda>r. r_model r \<noteq> []) rows. f r)"
      unfolding ds_def sum_list_descending gs_def by (rule group_by_sum)
    finally show ?thesis .
  qed
  have un: "?unnamed = filter (\<lambda>r. \<not> r_model r \<noteq> []) rows" by (simp add: rows_def)
  note split = sum_list_split [of _ rows "\<lambda>r. r_model r \<noteq> []"]
  show "us_TotalSpans u = (\<Sum>m \<leftarrow> ms. mu_CallCount m) + int (length ?unnamed)"
    using split [of "\<lambda>_. 1"] total [of mu_CallCount "\<lambda>_. 1"] model_usage_sums(1) u(1) un by (simp add: sum_list_triv)
  show "us_TotalInputTokens u = (\<Sum>m \<leftarrow> ms. mu_InputTokens m) + (\<Sum>r \<leftarrow> ?unnamed. r_input_tokens r)"
    using split [of r_input_tokens] total [of mu_InputTokens r_input_tokens] model_usage_sums(2) u(2) un by simp
  show "us_TotalOutputTokens u = (\<Sum>m \<leftarrow> ms. mu_OutputTokens m) + (\<Sum>r \<leftarrow> ?unnamed. r_output_tokens r)"
    using split [of r_output_tokens] total [of mu_OutputTokens r_output_tokens] model_usage_sums(3) u(3) un by simp
qed


definition usage_db :: span_db where
  "usage_db = \<lparr>db_spans = [(model_call ''t1'' ''2025-11-29T08:00:00Z'')\<lparr>r_model := ''gpt'', r_input_tokens := 7\<rparr>,
     (model_call ''t2'' ''2025-11-29T08:00:01Z'')\<lparr>r_input_tokens := 5\<rparr>], db_outbox = []\<rparr>"

definition all_usage :: UsageQuery where
  "all_usage = \<lparr>uq_ProjectID = [], uq_StartTime = (0, 0), uq_EndTime = (200000000000000000000, 0), uq_UserID = [], uq_TenantID = []\<rparr>"

lemma usage_db_rows: "filter (usage_where all_usage) (db_spans usage_db) = db_spans usage_db"
  by (simp add: usage_where_def [abs_def] usage_range_def all_usage_def opt_eq_def in_range_def range_texts usage_db_def model_call_simps)

lemma usage_row_simps: "r_model (model_call t s) = []" "r_provider (model_call t s) = []" "r_output_tokens (model_call t s) = 0"
  "r_cache_read_tokens (model_call t s) = 0" "r_cache_creation_tokens (model_call t s) = 0" "r_input_tokens (model_call t s) = 0"
  by (simp_all add: model_call_def to_row_def plain_span_def genai_of_def no_genai_def Let_def)

lemma usage_db_summary: "\<exists>u. sq_GetUsageSummary demo_floats False all_usage usage_db = Inr u \<and> us_TotalInputTokens u = 12"
  unfolding sq_GetUsageSummary_def usage_db_rows Let_def
  by (simp add: usage_db_def usage_row_simps sum_int_def in_i64_def)

lemma usage_db_breakdown: "\<exists>ms. sq_GetModelBreakdown demo_floats False all_usage usage_db = Inr ms"
proof -
  have "filter (\<lambda>r. usage_where all_usage r \<and> r_model r \<noteq> []) (db_spans usage_db) = filter (\<lambda>r. r_model r \<noteq> []) (filter (usage_where all_usage) (db_spans usage_db))"
    by (simp add: conj_commute)
  also have "\<dots> = [hd (db_spans usage_db)]"
    unfolding usage_db_rows by (simp add: usage_db_def usage_row_simps)
  finally show ?thesis
    unfolding sq_GetModelBreakdown_def Let_def
    by (simp add: group_by_def descending_def model_usage_def sum_int_def in_i64_def) (simp add: usage_db_def usage_row_simps)
qed

theorem breakdown_adds_up_witness:
  "\<exists>u ms. sq_GetUsageSummary demo_floats False all_usage usage_db = Inr u \<and> sq_GetModelBreakdown demo_floats False all_usage usage_db = Inr ms \<and>
     us_TotalInputTokens u = 12 \<and> (\<Sum>m \<leftarrow> ms. mu_InputTokens m) = 7"
proof -
  obtain u ms where u: "sq_GetUsageSummary demo_floats False all_usage usage_db = Inr u" "us_TotalInputTokens u = 12"
    and ms: "sq_GetModelBreakdown demo_floats False all_usage usage_db = Inr ms"
    using usage_db_summary usage_db_breakdown by blast
  have "(\<Sum>m \<leftarrow> ms. mu_InputTokens m) = 7"
    using breakdown_adds_up [OF u(1) ms, unfolded usage_db_rows Let_def] u(2) by (simp add: usage_db_def usage_row_simps)
  then show ?thesis using u ms by blast
qed

end
