(* ===== verification/SpanSync.thy ===== *)
theory SpanSync
  imports SpanLaws
begin

text \<open>
  The worker that sends locally stored spans to the central server (\<^verbatim>\<open>pkg/proxy/worker/sync_worker.go\<close>), over the
  outbox of the SQLite span store.

  The server is a state \<open>'u\<close> with one operation, which returns the text of its error or none.  The statements of the
  local database may fail.  The tickers of the two loops are not modelled: a tick is one call of \<open>processBatch\<close> or
  \<open>pruneLocal\<close>.  What the server has accepted is recorded by \<open>logged\<close>, a server that answers as it likes.
\<close>

section \<open>The worker\<close>

definition isSizeError :: "string \<Rightarrow> bool" where
  "isSizeError e \<longleftrightarrow>
     Contains e ''413'' \<or> Contains e ''Too Large'' \<or> Contains e ''too large'' \<or> Contains e ''ResourceExhausted''
     \<or> Contains e ''message too large''"

text \<open>
  The slices of identifiers share one array: \<open>spanIDs[:mid]\<close> and \<open>spanIDs[mid:]\<close> are windows of it, and \<open>append\<close> on a
  window writes into the array wherever it has room behind the window.  The array is state.
\<close>

datatype slice = Fresh "string list" | View nat nat

definition slice_vals :: "string list \<Rightarrow> slice \<Rightarrow> string list" where
  "slice_vals arr s = (case s of Fresh xs \<Rightarrow> xs | View lo n \<Rightarrow> take n (drop lo arr))"

definition append_ids :: "slice \<Rightarrow> slice \<Rightarrow> string list \<Rightarrow> slice \<times> string list" where
  "append_ids a b arr =
     (let vs = slice_vals arr b
      in case a of
           Fresh xs \<Rightarrow> (Fresh (xs @ vs), arr)
         | View lo n \<Rightarrow>
             if lo + n + length vs \<le> length arr
             then (View lo (n + length vs), take (lo + n) arr @ vs @ drop (lo + n + length vs) arr)
             else (Fresh (slice_vals arr a @ vs), arr))"

lemma half_bounds: "xs \<noteq> [] \<Longrightarrow> length xs \<noteq> Suc 0 \<Longrightarrow> 0 < length xs div 2 \<and> length xs div 2 < length xs"
  by (cases xs; cases "tl xs") auto

text \<open>The identifiers of the spans are the window of the array that starts at \<open>lo\<close>.\<close>

function pushWithBisection ::
  "('u \<Rightarrow> Span list \<Rightarrow> string option \<times> 'u) \<Rightarrow> Span list \<Rightarrow> nat \<Rightarrow> string list \<Rightarrow> 'u \<Rightarrow> slice \<times> string list \<times> 'u" where
  "pushWithBisection up spans lo arr u =
     (if spans = [] then (Fresh [], arr, u)
      else case up u spans of
        (None, u') \<Rightarrow> (Fresh [], arr, u')
      | (Some e, u') \<Rightarrow>
          if \<not> isSizeError e \<or> length spans = 1 then (View lo (length spans), arr, u')
          else let mid = length spans div 2;
                   (failedLeft, arr1, u1) = pushWithBisection up (take mid spans) lo arr u';
                   (failedRight, arr2, u2) = pushWithBisection up (drop mid spans) (lo + mid) arr1 u1;
                   (failed, arr3) = append_ids failedLeft failedRight arr2
               in (failed, arr3, u2))"
  by pat_completeness auto
termination
  by (relation "measure (\<lambda>(up, spans, lo, arr, u). length spans)") (auto dest: half_bounds)

declare pushWithBisection.simps [simp del]

text \<open>A span that was tried before carries the retry flag.\<close>

definition flag_retry :: "OutboxSpan \<Rightarrow> Span \<Rightarrow> Span" where
  "flag_retry ob sp =
     (if 0 < ob_AttemptCount ob
      then sp\<lparr>Attributes := Some (AList.update ''candela.is_retry'' ''true'' (case Attributes sp of None \<Rightarrow> [] | Some m \<Rightarrow> m))\<rparr>
      else sp)"

definition decoded :: "span_codec \<Rightarrow> OutboxSpan list \<Rightarrow> (Span \<times> string) list" where
  "decoded c obs = List.map_filter (\<lambda>ob. map_option (\<lambda>sp. (flag_retry ob sp, ob_SpanID ob)) (sc_unspan c (ob_PayloadJSON ob))) obs"

definition corrupted :: "span_codec \<Rightarrow> OutboxSpan list \<Rightarrow> string list" where
  "corrupted c obs = map ob_SpanID (filter (\<lambda>ob. sc_unspan c (ob_PayloadJSON ob) = None) obs)"

record sync_faults =
  sf_get :: bool
  sf_corrupt :: "nat \<Rightarrow> bool"
  sf_increment :: "nat \<Rightarrow> bool"
  sf_delete :: "nat \<Rightarrow> bool"

definition commit_or_retry :: "sync_faults \<Rightarrow> string list \<Rightarrow> string list \<Rightarrow> span_db \<Rightarrow> span_db" where
  "commit_or_retry f ids failed db =
     (if failed \<noteq> []
      then let db1 = snd (sq_IncrementOutboxAttempt (sf_increment f) failed db)
           in snd (sq_DeleteOutboxSpans (sf_delete f) (filter (\<lambda>i. i \<notin> set failed) ids) db1)
      else snd (sq_DeleteOutboxSpans (sf_delete f) ids db))"

definition processBatch ::
  "span_codec \<Rightarrow> ('u \<Rightarrow> Span list \<Rightarrow> string option \<times> 'u) \<Rightarrow> sync_faults \<Rightarrow> span_db \<Rightarrow> 'u \<Rightarrow> span_db \<times> 'u" where
  "processBatch c up f db u =
     (case sq_GetOutboxSpans (sf_get f) 1000 db of
        Inl _ \<Rightarrow> (db, u)
      | Inr obs \<Rightarrow>
          if obs = [] then (db, u)
          else let db1 = snd (sq_DeleteOutboxSpans (sf_corrupt f) (corrupted c obs) db);
                   batch = decoded c obs
               in if batch = [] then (db1, u)
                  else let (failed, spanIDs, u') = pushWithBisection up (map fst batch) 0 (map snd batch) u
                       in (commit_or_retry f spanIDs (slice_vals spanIDs failed) db1, u'))"

definition keepCount :: int where
  "keepCount = 100000"

definition pruneLocal :: "(nat \<Rightarrow> bool) \<Rightarrow> span_db \<Rightarrow> span_db" where
  "pruneLocal flt db = snd (sq_PruneLocalSpans flt keepCount db)"

section \<open>Bisection\<close>

definition logged :: "(Span list \<Rightarrow> Span list \<Rightarrow> string option) \<Rightarrow> Span list \<Rightarrow> Span list \<Rightarrow> string option \<times> Span list" where
  "logged resp acc spans = (case resp acc spans of None \<Rightarrow> (None, acc @ spans) | Some e \<Rightarrow> (Some e, acc))"

definition chosen :: "bool list \<Rightarrow> 'a list \<Rightarrow> 'a list" where
  "chosen bs xs = map snd (filter fst (zip bs xs))"

lemma chosen_append: "length bs = length xs \<Longrightarrow> chosen (bs @ cs) (xs @ ys) = chosen bs xs @ chosen cs ys"
  by (simp add: chosen_def)

lemma chosen_all: "chosen (replicate (length xs) True) xs = xs" "chosen (replicate (length xs) False) xs = []"
  by (induction xs) (simp_all add: chosen_def)

lemma length_chosen: "length (chosen bs xs) \<le> length xs"
  using length_filter_le [of fst "zip bs xs"] by (simp add: chosen_def)

text \<open>The failed identifiers \<open>F\<close> are a new slice or the front of the window \<open>W\<close> at \<open>lo\<close>.\<close>

definition front :: "nat \<Rightarrow> string list \<Rightarrow> string list \<Rightarrow> slice \<Rightarrow> bool" where
  "front lo W F s \<longleftrightarrow> s = Fresh F \<or> s = View lo (length F) \<and> take (length F) W = F"

lemma front_vals:
  assumes "front lo W F s" and "length P = lo"
  shows "slice_vals (P @ W @ Q) s = F"
proof (cases "s = Fresh F")
  case False
  then have "s = View lo (length F)" and t: "take (length F) W = F" using assms(1) by (simp_all add: front_def)
  moreover have "length F \<le> length W" using t by (metis length_take min.cobounded1)
  ultimately show ?thesis using assms(2) by (simp add: slice_vals_def)
qed (simp add: slice_vals_def)

lemma append_front:
  assumes "front lo W1 F1 a" and "front (lo + length W1) W2 F2 b" and "length P = lo" and "length F2 \<le> length W2"
    and "append_ids a b (P @ W1 @ W2 @ Q) = (s, arr)"
  shows "\<exists>W. arr = P @ W @ Q \<and> length W = length W1 + length W2 \<and> set W \<subseteq> set W1 \<union> set W2 \<union> set F2
    \<and> front lo W (F1 @ F2) s"
proof -
  have vb: "slice_vals (P @ W1 @ W2 @ Q) b = F2"
    using front_vals [OF assms(2), of "P @ W1" Q] assms(3) by simp
  show ?thesis
  proof (cases "a = Fresh F1")
    case True
    then have "s = Fresh (F1 @ F2)" "arr = P @ (W1 @ W2) @ Q"
      using assms(5) vb by (simp_all add: append_ids_def)
    then show ?thesis by (intro exI [of _ "W1 @ W2"]) (auto simp: front_def)
  next
    case False
    then have a: "a = View lo (length F1)" and t: "take (length F1) W1 = F1" using assms(1) by (simp_all add: front_def)
    have l: "length F1 \<le> length W1" using t by (metis length_take min.cobounded1)
    define W where "W = F1 @ F2 @ drop (length F1 + length F2) (W1 @ W2)"
    have "s = View lo (length (F1 @ F2))" "arr = P @ W @ Q"
      using assms(3,4,5) vb l t unfolding W_def by (auto simp: append_ids_def a Let_def)
    moreover have "length W = length W1 + length W2" using l assms(4) by (simp add: W_def)
    moreover have "set W \<subseteq> set W1 \<union> set W2 \<union> set F2"
      using set_take_subset [of "length F1" W1] set_drop_subset [of "length F1 + length F2" "W1 @ W2"]
      unfolding t W_def by auto
    ultimately show ?thesis by (intro exI [of _ W]) (simp add: front_def W_def)
  qed
qed

lemma set_chosen: "set (chosen bs xs) \<subseteq> set xs"
  by (auto simp: chosen_def dest: set_zip_rightD)

text \<open>
  The outcome of a push of \<open>spans\<close>, whose identifiers are the window \<open>W\<close> between \<open>P\<close> and \<open>Q\<close>: every span is accepted
  once or reported as failed once, in order; the array keeps its length, and no identifier from outside enters the window.
\<close>

definition pushed :: "string list \<Rightarrow> string list \<Rightarrow> string list \<Rightarrow> Span list \<Rightarrow> Span list \<Rightarrow> slice \<times> string list \<times> Span list \<Rightarrow> bool" where
  "pushed P W Q spans acc = (\<lambda>(s, arr', acc').
     \<exists>bs W'. length bs = length spans \<and> acc' = acc @ chosen bs spans \<and> arr' = P @ W' @ Q
       \<and> length W' = length W \<and> set W' \<subseteq> set W \<and> front (length P) W' (chosen (map Not bs) W) s)"

lemma pushed_all: "length W = length spans \<Longrightarrow> pushed P W Q spans acc (Fresh [], P @ W @ Q, acc @ spans)"
  using chosen_all [of spans] chosen_all(2) [of W] unfolding pushed_def prod.case
  by (intro exI [of _ "replicate (length spans) True"] exI [of _ W]) (simp add: map_replicate front_def)

lemma pushed_none: "length W = length spans \<Longrightarrow> pushed P W Q spans acc (View (length P) (length spans), P @ W @ Q, acc)"
  using chosen_all(2) [of spans] chosen_all(1) [of W] unfolding pushed_def prod.case
  by (intro exI [of _ "replicate (length spans) False"] exI [of _ W]) (simp add: map_replicate front_def)

lemma pushed_both:
  assumes l: "pushed P WL (WR @ Q) spL acc (s1, P @ L @ WR @ Q, acc1)" "length L = length WL" "length WL = length spL"
    and r: "pushed (P @ L) WR Q spR acc1 (s2, arr2, acc2)"
    and app: "append_ids s1 s2 arr2 = (s, arr3)"
  shows "pushed P (WL @ WR) Q (spL @ spR) acc (s, arr3, acc2)"
proof -
  obtain bs where bs: "length bs = length spL" "acc1 = acc @ chosen bs spL" "set L \<subseteq> set WL"
      "front (length P) L (chosen (map Not bs) WL) s1"
    using l by (auto simp: pushed_def)
  obtain cs R where cs: "length cs = length spR" "acc2 = acc1 @ chosen cs spR"
      "arr2 = P @ L @ R @ Q" "length R = length WR" "set R \<subseteq> set WR" "front (length P + length L) R (chosen (map Not cs) WR) s2"
    using r by (auto simp: pushed_def)
  obtain W' where W': "arr3 = P @ W' @ Q" "length W' = length L + length R"
      "set W' \<subseteq> set L \<union> set R \<union> set (chosen (map Not cs) WR)" "front (length P) W' (chosen (map Not bs) WL @ chosen (map Not cs) WR) s"
    using append_front [OF bs(4) cs(6) refl _ app [unfolded cs(3)]] cs(4) length_chosen [of "map Not cs" WR] by auto
  have "set W' \<subseteq> set (WL @ WR)" using W'(3) bs(3) cs(5) set_chosen [of "map Not cs" WR] by auto
  moreover have "chosen (bs @ cs) (spL @ spR) = chosen bs spL @ chosen cs spR" using bs(1) by (rule chosen_append)
  moreover have "chosen (map Not (bs @ cs)) (WL @ WR) = chosen (map Not bs) WL @ chosen (map Not cs) WR"
    using chosen_append [of "map Not bs" WL "map Not cs" WR] bs(1) l(3) by simp
  ultimately show ?thesis
    using bs(1,2) cs(1,2,4) l(2) W'(1,2,4) unfolding pushed_def prod.case by (intro exI [of _ "bs @ cs"] exI [of _ W']) simp
qed

lemma push_partition:
  assumes "arr = P @ W @ Q" and "length P = lo" and "length W = length spans"
  shows "pushed P W Q spans acc (pushWithBisection (logged resp) spans lo arr acc)"
  using assms
proof (induction "logged resp" spans lo arr acc arbitrary: P W Q rule: pushWithBisection.induct)
  case (1 spans lo arr acc)
  show ?case
  proof (cases "spans = [] \<or> resp acc spans = None")
    case True
    then have "pushWithBisection (logged resp) spans lo arr acc = (Fresh [], arr, acc @ spans)"
      by (auto simp: pushWithBisection.simps logged_def)
    then show ?thesis using pushed_all "1.prems" by simp
  next
    case False
    then obtain e where up: "logged resp acc spans = (Some e, acc)" and ne: "spans \<noteq> []" by (auto simp: logged_def)
    show ?thesis
    proof (cases "\<not> isSizeError e \<or> length spans = 1")
      case True
      then have "pushWithBisection (logged resp) spans lo arr acc = (View lo (length spans), arr, acc)"
        using ne up by (auto simp: pushWithBisection.simps [of _ spans])
      then show ?thesis using pushed_none [OF "1.prems"(3), of P Q acc] "1.prems"(1,2) by simp
    next
      case split: False
      let ?m = "length spans div 2"
      obtain s1 arr1 l1 where l: "pushWithBisection (logged resp) (take ?m spans) lo arr acc = (s1, arr1, l1)"
        by (metis prod_cases3)
      obtain s2 arr2 l2 where r: "pushWithBisection (logged resp) (drop ?m spans) (lo + ?m) arr1 l1 = (s2, arr2, l2)"
        by (metis prod_cases3)
      obtain s arr3 where app: "append_ids s1 s2 arr2 = (s, arr3)" by fastforce
      have res: "pushWithBisection (logged resp) spans lo arr acc = (s, arr3, l2)"
        using ne up split l r app by (simp add: pushWithBisection.simps [of _ spans] Let_def)
      have pl: "pushed P (take ?m W) (drop ?m W @ Q) (take ?m spans) acc (s1, arr1, l1)"
        using "1.hyps"(1) [OF ne up [symmetric] refl split refl, of P "take ?m W" "drop ?m W @ Q"] "1.prems" l by simp
      then obtain L where L: "arr1 = P @ L @ drop ?m W @ Q" "length L = length (take ?m W)" by (auto simp: pushed_def)
      have "pushed (P @ L) (drop ?m W) Q (drop ?m spans) l1 (s2, arr2, l2)"
        using "1.hyps"(2) [OF ne up [symmetric] refl split refl l [symmetric] refl refl, of "P @ L" "drop ?m W" Q] "1.prems" r L by simp
      then show ?thesis
        unfolding res using pushed_both [OF pl [unfolded L(1)] L(2) _ _ app, of "drop ?m spans" l2] "1.prems"(3) by simp
    qed
  qed
qed

section \<open>The outbox during a batch\<close>

lemma one_chunk: "chunks [] = []" "xs \<noteq> [] \<Longrightarrow> length xs \<le> 500 \<Longrightarrow> chunks xs = [xs]"
  by (simp_all add: chunks.simps [of xs] chunks.simps [of "[]"])

lemma concat_chunks: "concat (chunks xs) = xs"
  by (induction xs rule: chunks.induct) (simp add: chunks.simps)

lemma delete_loop_keeps:
  assumes "ob_SpanID ob \<notin> set (concat idss)" and "ob \<in> set (db_outbox db)"
  shows "ob \<in> set (db_outbox (snd (outbox_loop (\<lambda>ids. filter (\<lambda>ob. ob_SpanID ob \<notin> set ids)) flt k idss db)))"
  using assms by (induction idss arbitrary: k db) auto

lemma delete_keeps:
  "ob_SpanID ob \<notin> set ids \<Longrightarrow> ob \<in> set (db_outbox db) \<Longrightarrow> ob \<in> set (db_outbox (snd (sq_DeleteOutboxSpans flt ids db)))"
  unfolding sq_DeleteOutboxSpans_def by (rule delete_loop_keeps) (simp_all add: concat_chunks)

lemma delete_loop_all:
  "db_outbox (snd (outbox_loop (\<lambda>ids. filter (\<lambda>ob. ob_SpanID ob \<notin> set ids)) (\<lambda>_. False) k idss db)) =
     filter (\<lambda>ob. ob_SpanID ob \<notin> set (concat idss)) (db_outbox db)"
  by (induction idss arbitrary: k db) (auto intro: filter_cong)

lemma delete_all: "db_outbox (snd (sq_DeleteOutboxSpans (\<lambda>_. False) ids db)) = filter (\<lambda>ob. ob_SpanID ob \<notin> set ids) (db_outbox db)"
  unfolding sq_DeleteOutboxSpans_def delete_loop_all concat_chunks ..

lemma increment_ids: "map ob_SpanID (db_outbox (snd (sq_IncrementOutboxAttempt flt ids db))) = map ob_SpanID (db_outbox db)"
proof -
  have "map ob_SpanID (db_outbox (snd (outbox_loop
      (\<lambda>ids. map (\<lambda>ob. if ob_SpanID ob \<in> set ids then ob\<lparr>ob_AttemptCount := ob_AttemptCount ob + 1\<rparr> else ob)) flt k idss db))) =
      map ob_SpanID (db_outbox db)" for k idss
    by (induction idss arbitrary: k db) (auto simp: comp_def)
  then show ?thesis by (simp add: sq_IncrementOutboxAttempt_def)
qed

text \<open>The identifiers left in the outbox.\<close>

abbreviation pending :: "span_db \<Rightarrow> string set" where
  "pending db \<equiv> ob_SpanID ` set (db_outbox db)"

lemma pending_increment [simp]: "pending (snd (sq_IncrementOutboxAttempt flt ids db)) = pending db"
  using increment_ids [of flt ids db] by (metis image_set)

lemma pending_delete: "i \<in> pending db \<Longrightarrow> i \<notin> set ids \<Longrightarrow> i \<in> pending (snd (sq_DeleteOutboxSpans flt ids db))"
  using delete_keeps by fastforce

lemma pending_commit: "i \<in> pending db \<Longrightarrow> i \<notin> set ids \<or> i \<in> set failed \<Longrightarrow> i \<in> pending (commit_or_retry f ids failed db)"
  by (auto simp: commit_or_retry_def Let_def intro!: pending_delete)

lemma pending_commit_exact:
  "sf_delete f = (\<lambda>_. False) \<Longrightarrow> pending (commit_or_retry f ids failed db) = {i \<in> pending db. i \<notin> set ids \<or> i \<in> set failed}"
proof -
  assume f: "sf_delete f = (\<lambda>_. False)"
  have "pending (snd (sq_DeleteOutboxSpans (\<lambda>_. False) js d)) = {i \<in> pending d. i \<notin> set js}" for js d
    unfolding delete_all by auto
  then show ?thesis by (auto simp: commit_or_retry_def Let_def f)
qed

lemma batch_sub: "sq_GetOutboxSpans flt n db = Inr obs \<Longrightarrow> set obs \<subseteq> set (db_outbox db)"
  by (auto simp: sq_GetOutboxSpans_def sql_limit_def dest: in_set_takeD split: if_splits)

lemma same_row: "distinct (map ob_SpanID xs) \<Longrightarrow> x \<in> set xs \<Longrightarrow> y \<in> set xs \<Longrightarrow> ob_SpanID x = ob_SpanID y \<Longrightarrow> x = y"
  by (simp add: distinct_map inj_on_def)

lemma decoded_iff: "(sp, i) \<in> set (decoded c obs) \<longleftrightarrow>
    (\<exists>ob \<in> set obs. \<exists>s. sc_unspan c (ob_PayloadJSON ob) = Some s \<and> sp = flag_retry ob s \<and> i = ob_SpanID ob)"
  by (induction obs) (auto simp: decoded_def List.map_filter_simps split: option.splits)

lemma decoded_ids: "map snd (decoded c obs) = map ob_SpanID (filter (\<lambda>ob. sc_unspan c (ob_PayloadJSON ob) \<noteq> None) obs)"
  by (induction obs) (auto simp: decoded_def List.map_filter_def)

text \<open>With distinct identifiers, the accepted spans are those whose identifier was not reported.\<close>

lemma chosen_by_id:
  "distinct (map snd xs) \<Longrightarrow> length bs = length xs \<Longrightarrow>
     chosen bs (map fst xs) = map fst (filter (\<lambda>x. snd x \<notin> set (chosen (map Not bs) (map snd xs))) xs)"
proof (induction xs arbitrary: bs)
  case (Cons x xs)
  obtain b cs where b: "bs = b # cs" using Cons.prems(2) by (cases bs) auto
  have sub: "set (chosen (map Not cs) (map snd xs)) \<subseteq> snd ` set xs"
    by (auto simp: chosen_def dest: set_zip_rightD)
  define F where "F = set (chosen (map Not bs) (map snd (x # xs)))"
  have "filter (\<lambda>y. snd y \<notin> F) xs = filter (\<lambda>y. snd y \<notin> set (chosen (map Not cs) (map snd xs))) xs"
  proof (rule filter_cong [OF refl])
    fix y assume "y \<in> set xs"
    then have "snd y \<noteq> snd x" using Cons.prems(1) by (metis distinct.simps(2) image_eqI list.set_map list.simps(9))
    then show "(snd y \<notin> F) = (snd y \<notin> set (chosen (map Not cs) (map snd xs)))"
      by (simp add: F_def b chosen_def)
  qed
  moreover have "snd x \<notin> F \<longleftrightarrow> b"
    using Cons.prems(1) sub by (auto simp: F_def b chosen_def)
  moreover have "chosen bs (map fst (x # xs)) = (if b then [fst x] else []) @ chosen cs (map fst xs)"
    by (simp add: b chosen_def)
  moreover have "chosen cs (map fst xs) = map fst (filter (\<lambda>y. snd y \<notin> set (chosen (map Not cs) (map snd xs))) xs)"
    using Cons.prems by (intro Cons.IH) (simp_all add: b)
  ultimately show ?case unfolding F_def [symmetric] by simp
qed (simp add: chosen_def)


lemma decoded_distinct: "distinct (map ob_SpanID obs) \<Longrightarrow> distinct (map snd (decoded c obs))"
  unfolding decoded_ids by (simp add: distinct_map_filter)

lemma push_by_id:
  assumes "distinct (map snd batch)" and "pushWithBisection (logged resp) (map fst batch) 0 (map snd batch) acc = (failed, ids, acc')"
  shows "set ids \<subseteq> set (map snd batch)" and "acc' = acc @ map fst (filter (\<lambda>x. snd x \<notin> set (slice_vals ids failed)) batch)"
proof -
  have "pushed [] (map snd batch) [] (map fst batch) acc (failed, ids, acc')"
    unfolding assms(2) [symmetric] by (rule push_partition) simp_all
  then obtain bs where bs: "length bs = length batch" "acc' = acc @ chosen bs (map fst batch)" "set ids \<subseteq> set (map snd batch)"
      "front 0 ids (chosen (map Not bs) (map snd batch)) failed"
    by (auto simp: pushed_def)
  show "set ids \<subseteq> set (map snd batch)" by (rule bs(3))
  show "acc' = acc @ map fst (filter (\<lambda>x. snd x \<notin> set (slice_vals ids failed)) batch)"
    using front_vals [OF bs(4), of "[]" "[]"] unfolding bs(2) chosen_by_id [OF assms(1) bs(1)] by simp
qed

text \<open>A batch that is not trivial: its rows, what was reported, and what the server took.\<close>

lemma processBatch_cases:
  assumes "processBatch c (logged resp) f db acc = (db', acc')" and "distinct (map ob_SpanID (db_outbox db))"
  obtains "db' = db" "acc' = acc"
  | obs where "set obs \<subseteq> set (db_outbox db)" "distinct (map ob_SpanID obs)" "decoded c obs = []" "acc' = acc"
      "db' = snd (sq_DeleteOutboxSpans (sf_corrupt f) (corrupted c obs) db)"
  | obs failed ids where "set obs \<subseteq> set (db_outbox db)" "distinct (map ob_SpanID obs)"
      "acc' = acc @ map fst (filter (\<lambda>x. snd x \<notin> set failed) (decoded c obs))" "set ids \<subseteq> set (map snd (decoded c obs))"
      "db' = commit_or_retry f ids failed (snd (sq_DeleteOutboxSpans (sf_corrupt f) (corrupted c obs) db))"
proof (cases "sq_GetOutboxSpans (sf_get f) 1000 db")
  case (Inl e)
  then show thesis using assms(1) that(1) by (simp add: processBatch_def)
next
  case (Inr obs)
  have sub: "set obs \<subseteq> set (db_outbox db)" using Inr by (rule batch_sub)
  have "distinct (map ob_SpanID (sort_key ob_created_at (db_outbox db)))"
    using assms(2) by (simp add: distinct_map)
  then have d: "distinct (map ob_SpanID obs)"
    using Inr by (auto simp: sq_GetOutboxSpans_def sql_limit_def take_map [symmetric] split: if_splits)
  obtain failed ids acc1
    where p: "pushWithBisection (logged resp) (map fst (decoded c obs)) 0 (map snd (decoded c obs)) acc = (failed, ids, acc1)"
    by (metis prod_cases3)
  show thesis
  proof (cases "obs = []")
    case True
    then show thesis using assms(1) Inr that(1) by (simp add: processBatch_def)
  next
    case ne: False
    show thesis
    proof (cases "decoded c obs = []")
      case True
      then show thesis using assms(1) Inr ne that(2) [OF sub d] by (simp add: processBatch_def Let_def)
    next
      case False
      then have "db' = commit_or_retry f ids (slice_vals ids failed) (snd (sq_DeleteOutboxSpans (sf_corrupt f) (corrupted c obs) db))" "acc' = acc1"
        using assms(1) Inr ne p by (simp_all add: processBatch_def Let_def)
      then show thesis using that(3) [OF sub d] push_by_id [OF decoded_distinct [OF d] p] by blast
    qed
  qed
qed

text \<open>
  C40: No span is lost on its way to the server: whatever the server answers and whichever statements of the local
  database fail, a row that has left the outbox after a batch could not be decoded or was accepted by the server.
\<close>

theorem sync_never_loses:
  assumes "distinct (map ob_SpanID (db_outbox db))" and "processBatch c (logged resp) f db acc = (db', acc')"
    and "ob \<in> set (db_outbox db)" and "ob_SpanID ob \<notin> pending db'"
  shows "sc_unspan c (ob_PayloadJSON ob) = None \<or>
    (\<exists>sp. sc_unspan c (ob_PayloadJSON ob) = Some sp \<and> flag_retry ob sp \<in> set (drop (length acc) acc'))"
proof -
  have corrupt: "sc_unspan c (ob_PayloadJSON ob) = None"
    if "set obs \<subseteq> set (db_outbox db)" "ob_SpanID ob \<in> set (corrupted c obs)" for obs
    using that same_row [OF assms(1,3)] by (auto simp: corrupted_def)
  have p: "ob_SpanID ob \<in> pending db" using assms(3) by simp
  from assms(2,1) show ?thesis
  proof (cases rule: processBatch_cases)
    case 1
    then show ?thesis using p assms(4) by simp
  next
    case (2 obs)
    then show ?thesis using corrupt pending_delete [OF p] assms(4) by blast
  next
    case (3 obs failed ids)
    show ?thesis
    proof (cases "ob_SpanID ob \<in> set (corrupted c obs)")
      case False
      then have "ob_SpanID ob \<in> set (map snd (decoded c obs))" "ob_SpanID ob \<notin> set failed"
        using pending_commit [OF pending_delete [OF p False]] assms(4) 3(4,5) by blast+
      then obtain sp where sp: "(sp, ob_SpanID ob) \<in> set (decoded c obs)" by auto
      then obtain s where "sc_unspan c (ob_PayloadJSON ob) = Some s" "sp = flag_retry ob s"
        using same_row [OF assms(1,3)] 3(1) unfolding decoded_iff by blast
      moreover have "sp \<in> set (drop (length acc) acc')"
        using sp \<open>ob_SpanID ob \<notin> set failed\<close> unfolding 3(3) by force
      ultimately show ?thesis by blast
    qed (use corrupt 3(1) in blast)
  qed
qed

section \<open>A local outbox\<close>

definition waiting_row :: "string \<Rightarrow> int \<Rightarrow> OutboxSpan" where
  "waiting_row i n = \<lparr>ob_SpanID = i, ob_PayloadJSON = i, ob_AttemptCount = n, ob_created_at = []\<rparr>"

definition three_rows :: "int \<Rightarrow> span_db" where
  "three_rows n = \<lparr>db_spans = [], db_outbox = [waiting_row ''a'' n, waiting_row ''b'' 0, waiting_row ''c'' n]\<rparr>"

definition id_codec :: span_codec where
  "id_codec = demo_codec\<lparr>sc_unspan := (\<lambda>p. Some (plain_span ''t'' p 0))\<rparr>"

definition small_only :: "Span list \<Rightarrow> Span list \<Rightarrow> string option" where
  "small_only acc spans = (if list_all (\<lambda>sp. SpanID sp = ''b'') spans then None else Some ''413'')"

definition no_faults :: sync_faults where
  "no_faults = \<lparr>sf_get = False, sf_corrupt = (\<lambda>_. False), sf_increment = (\<lambda>_. False), sf_delete = (\<lambda>_. False)\<rparr>"

lemma size_413: "isSizeError ''413''"
  by code_simp

lemma push_three:
  assumes "SpanID x = ''a''" "SpanID y = ''b''" "SpanID z = ''c''"
  shows "pushWithBisection (logged small_only) [x, y, z] 0 [''a'', ''b'', ''c''] acc = (View 0 2, [''a'', ''c'', ''c''], acc @ [y])"
proof -
  have one: "pushWithBisection (logged small_only) [sp] lo arr acc =
      (if SpanID sp = ''b'' then (Fresh [], arr, acc @ [sp]) else (View lo 1, arr, acc))" for sp lo arr acc
    by (simp add: pushWithBisection.simps logged_def small_only_def)
  have "pushWithBisection (logged small_only) [y, z] 1 arr acc = (Fresh (slice_vals arr (View 2 1)), arr, acc @ [y])" for arr acc
    using assms by (subst pushWithBisection.simps)
      (simp add: logged_def small_only_def size_413 one append_ids_def Let_def numeral_2_eq_2)
  then show ?thesis
    using assms by (subst pushWithBisection.simps)
      (simp add: logged_def small_only_def size_413 one append_ids_def slice_vals_def Let_def)
qed

lemma resend_step:
  "processBatch id_codec (logged small_only) no_faults (three_rows n) acc = (three_rows (n + 1), acc @ [plain_span ''t'' ''b'' 0])"
proof -
  let ?rows = "db_outbox (three_rows n)"
  let ?a = "flag_retry (waiting_row ''a'' n) (plain_span ''t'' ''a'' 0)" and ?c = "flag_retry (waiting_row ''c'' n) (plain_span ''t'' ''c'' 0)"
  have get: "sq_GetOutboxSpans (sf_get no_faults) 1000 (three_rows n) = Inr ?rows"
    by (simp add: sq_GetOutboxSpans_def no_faults_def three_rows_def waiting_row_def sql_limit_def)
  have d: "decoded id_codec ?rows = [(?a, ''a''), (plain_span ''t'' ''b'' 0, ''b''), (?c, ''c'')]"
    by (simp add: decoded_def List.map_filter_simps three_rows_def id_codec_def waiting_row_def flag_retry_def)
  have k: "corrupted id_codec ?rows = []" by (simp add: corrupted_def id_codec_def)
  have "SpanID ?a = ''a''" "SpanID (plain_span ''t'' ''b'' 0) = ''b''" "SpanID ?c = ''c''"
    by (simp_all add: flag_retry_def plain_span_def)
  note push = push_three [OF this]
  have "commit_or_retry no_faults [''a'', ''c'', ''c''] [''a'', ''c''] (three_rows n) = three_rows (n + 1)"
    by (simp add: commit_or_retry_def sq_DeleteOutboxSpans_def sq_IncrementOutboxAttempt_def one_chunk no_faults_def three_rows_def waiting_row_def)
  moreover have "?rows \<noteq> []" by (simp add: three_rows_def)
  ultimately show ?thesis
    unfolding processBatch_def get
    by (simp add: k d push Let_def slice_vals_def sq_DeleteOutboxSpans_def one_chunk)
qed

text \<open>
  An accepted span can be sent for ever.  When the first and the last of three spans are too large for the server and
  the middle one is accepted, appending the failed identifiers overwrites the middle identifier in the shared array, so
  the accepted row is not deleted: after \<open>n\<close> batches the server has received it \<open>n\<close> times, never flagged as a retry.
\<close>

lemma accepted_span_resent:
  "((\<lambda>(db, acc). processBatch id_codec (logged small_only) no_faults db acc) ^^ n) (three_rows 0, []) =
     (three_rows (int n), replicate n (plain_span ''t'' ''b'' 0))"
  by (induction n) (simp_all add: resend_step replicate_append_same add.commute)

text \<open>A batch that is refused for another reason than its size is not divided: one span the server refuses holds back all.\<close>

lemma refused_batch_waits:
  assumes "sq_GetOutboxSpans (sf_get f) 1000 db = Inr obs" and "decoded c obs \<noteq> []"
    and "resp acc (map fst (decoded c obs)) = Some e" and "\<not> isSizeError e"
  shows "snd (processBatch c (logged resp) f db acc) = acc"
  using assms by (auto simp: processBatch_def Let_def pushWithBisection.simps logged_def)

text \<open>Two rows leave the outbox: one accepted, one that cannot be decoded.\<close>

definition two_rows :: span_db where
  "two_rows = \<lparr>db_spans = [], db_outbox = [waiting_row ''a'' 1, waiting_row [] 0]\<rparr>"

definition part_codec :: span_codec where
  "part_codec = demo_codec\<lparr>sc_unspan := (\<lambda>p. if p = [] then None else Some (plain_span ''t'' p 0))\<rparr>"

theorem sync_never_loses_witness:
  "flag_retry (waiting_row ''a'' 1) (plain_span ''t'' ''a'' 0)
     \<in> set (snd (processBatch part_codec (logged (\<lambda>_ _. None)) no_faults two_rows []))"
proof -
  let ?r = "processBatch part_codec (logged (\<lambda>_ _. None)) no_faults two_rows []"
  have "distinct (map ob_SpanID (db_outbox two_rows))" "waiting_row ''a'' 1 \<in> set (db_outbox two_rows)"
    "db_outbox (fst ?r) = []"
    by code_simp+
  from sync_never_loses [OF this(1) prod.collapse [symmetric] this(2), of part_codec "\<lambda>_ _. None" no_faults "[]"] this(3)
  have "sc_unspan part_codec ''a'' = None \<or>
      (\<exists>sp. sc_unspan part_codec ''a'' = Some sp \<and> flag_retry (waiting_row ''a'' 1) sp \<in> set (snd ?r))"
    by (simp add: waiting_row_def)
  then show ?thesis by (simp add: part_codec_def)
qed

end
