(* ===== verification/Spec2Isabelle.thy ===== *)
theory Spec2Isabelle
  imports Transparent Correlator EndToEnd TraceList SpanSync
begin

text \<open>
  A verification library for \<^verbatim>\<open>candela\<close>, a proxy that meters, budgets and records the traffic of
  clients of large language models.

  \<^bold>\<open>The program.\<close>  A request of a client reaches \<^verbatim>\<open>handleProxy\<close> (\<^verbatim>\<open>pkg/proxy/proxy.go\<close>), either
  directly or through the transparent listener (\<^verbatim>\<open>pkg/transparent\<close>).  The caller has been authenticated by
  a chain of resolvers with a cache (\<^verbatim>\<open>pkg/auth\<close>).  The proxy passes the request through its gates: rate
  limits, price, allowlist, access, budgets, daily limits.  What the request may cost is reserved.  It is then sent to
  a provider, with retries and fallback providers behind circuit breakers.  The answer is forwarded and read
  for its token counts, the price calculator (\<^verbatim>\<open>pkg/costcalc\<close>) turns them into a cost, the cost is charged
  to the user store (\<^verbatim>\<open>pkg/storage/sqlite/user_store.go\<close>) or queued in the spend outbox, the reservation
  is released, and a span goes through the span processor (\<^verbatim>\<open>pkg/processor\<close>) to the sinks.

  \<^bold>\<open>Theories.\<close>  A definition carries the name of the function or type it translates, with a prefix
  where the name is taken or two types have a method of the same name.

  \<^item> Foundations. \<^verbatim>\<open>Prelude\<close>: \<^verbatim>\<open>int64\<close>, times, strings, decimal numbers, maps, and the locale
    \<open>bounded_log\<close> of the last \<open>n\<close> items of a sequence. \<^verbatim>\<open>Float64\<close>: binary64 with its rounding. \<^verbatim>\<open>GoTime\<close>: the calendar,
    the layouts of \<^verbatim>\<open>Format\<close>, and text order against time order. \<^verbatim>\<open>TimeText\<close>: \<^verbatim>\<open>Parse\<close>, zones, and the round
    trip of a timestamp.
  \<^item> Money. \<^verbatim>\<open>Billing\<close>: records and micro-dollars (\<^verbatim>\<open>pkg/billing\<close>). \<^verbatim>\<open>UserStore\<close>: every operation of the SQLite user
    store. \<^verbatim>\<open>StoreInvariant\<close>: integrity of the tables, one lemma per operation. \<^verbatim>\<open>Ledger\<close>: the waterfall of a charge as an
    abstract contract, and that \<^verbatim>\<open>DeductSpend\<close> refines it. \<^verbatim>\<open>StoreBehaviour\<close>: reachable states and effects across
    operations. \<^verbatim>\<open>RateLimit\<close>: both limiters as interpretations of the locale \<open>fixed_window\<close>.
  \<^item> Prices. \<^verbatim>\<open>CostCalc\<close>: tables, name resolution and formulas. \<^verbatim>\<open>CostLaws\<close>: finite, monotone,
    independent of map order, and the invariant of the tables. \<^verbatim>\<open>SpendControl\<close>: reservations and daily limits, over every
    interleaving.
  \<^item> Caches and identities. \<^verbatim>\<open>ReadThrough\<close>: the locale \<open>read_through\<close>. \<^verbatim>\<open>Caches\<close>: its interpretations on the
    caches of limits, task budgets and user ids. \<^verbatim>\<open>Sessions\<close>: identities and conversations, interpretations of
    \<open>bounded_cache\<close> and \<open>read_through\<close>. \<^verbatim>\<open>Handlers\<close>: middleware, administrative interceptor, and the handlers of model
    limits and task spend.
  \<^item> The request path. \<^verbatim>\<open>Breaker\<close>: both circuit breakers through the locale \<open>breaker\<close>. \<^verbatim>\<open>Policy\<close>: allowlist, access and
    fallback chains. \<^verbatim>\<open>Preflight\<close>: all gates of \<^verbatim>\<open>handleProxy\<close> in order. \<^verbatim>\<open>Parsers\<close>: what is read from requests,
    answers and streams. \<^verbatim>\<open>StreamCapture\<close>: the buffers of a stream. \<^verbatim>\<open>Retry\<close>: attempts and fallbacks. \<^verbatim>\<open>Outbox\<close>: the
    charge and its durable retry. \<^verbatim>\<open>Respond\<close>: both response handlers and the span. \<^verbatim>\<open>EndToEnd\<close>: what the ledger
    books for an answer is the cost in its span.
  \<^item> Spans and flows. \<^verbatim>\<open>Sink\<close>: the resilient writer. \<^verbatim>\<open>Processor\<close>: queue, batches, flush and watchers. \<^verbatim>\<open>Correlator\<close>: the ring of
    network flows. \<^verbatim>\<open>Transparent\<close>: the ClientHello parser and the routing of a connection.
  \<^item> The span store. \<^verbatim>\<open>SqlQuery\<close>: what the store uses of SQL (\<^verbatim>\<open>LIKE\<close>, grouping, sums that overflow, limits),
    page tokens, and the locale \<open>keyset\<close> of a query read page by page. \<^verbatim>\<open>SpanStore\<close>: every operation of
    \<^verbatim>\<open>pkg/storage/sqlite/sqlite.go\<close>. \<^verbatim>\<open>SpanLaws\<close>: the invariant of its tables, that what is ingested is read back, and the
    interpretation of \<open>keyset\<close> on \<^verbatim>\<open>SearchSpans\<close>. \<^verbatim>\<open>TraceList\<close>: the interpretation on \<^verbatim>\<open>QueryTraces\<close>, and the sums of
    the model breakdown. \<^verbatim>\<open>SpanSync\<close>: the worker that sends spans to the central server
    (\<^verbatim>\<open>pkg/proxy/worker/sync_worker.go\<close>), with the array its slices share.

  \<^bold>\<open>What the model takes as an argument.\<close>  Clock, time zone, random numbers and identifiers; the
  failure of every database statement and of every call to the outside; the text level of JSON (\<open>json_lib\<close>);
  hashes; sums and averages of floating-point columns in SQL; the redaction patterns; the translators between provider formats; the order in which a Go map
  is iterated.  A method under a mutex is one step.  Concurrency is an interleaving of such steps, as an inductive
  relation or a fold over events.  Where a hypothesis is about such an argument its witness gives a concrete one.

  \<^bold>\<open>Bounds.\<close>  No function of the model runs on fuel: every loop is structural or has a measure.
  Equations between amounts hold on the dollar grid (multiples of \<open>2 ^ -32\<close> up to \<open>2 ^ 20\<close> dollars), on which
  every \<^verbatim>\<open>float64\<close> operation of the code is exact; safety statements about amounts hold for all floats.
  Timestamps are those with a year from 0 to 9999, which is what the layouts can print.

  \<^bold>\<open>Not modelled.\<close>  The programs under \<^verbatim>\<open>cmd\<close> (flags, wiring, servers); generated code; the stores
  that only form requests to cloud services (Firestore, BigQuery, Pub/Sub, OTLP); token verification
  by external libraries; regular expressions; the user interface and the client libraries.
\<close>

end
